(* ===== verification/Prelude.thy ===== *)
theory Prelude
  imports Main "HOL-Library.Word"
begin

text \<open>
  The vocabulary every component theory shares.

  \<^item> The C integer types the sources use, as words of their width.
  \<^item> The ways a C function can fail to return (\<open>fault\<close>) and the result type \<open>'a res\<close> of
    a function that may do so, with its sequencing operator \<open>res_bind\<close>.
  \<^item> Checked access to arrays: a read or a write past the end is undefined behaviour in C
    and the value \<open>Out_Of_Bounds\<close> here, never an unspecified element.
  \<^item> The functions of the C library the sources use on strings, and the \<open>printf\<close>
    conversions they use.
  \<^item> A weakest-precondition predicate \<open>wp\<close> over results, whose rules, collected in
    \<open>wp_simps\<close>, turn a statement about a whole C function into facts about its branches.
\<close>

unbundle bit_operations_syntax

section \<open>Integer types\<close>

type_synonym u8 = "8 word"
type_synonym u16 = "16 word"
type_synonym u32 = "32 word"
type_synonym u64 = "64 word"

section \<open>Results of C functions\<close>

text \<open>
  \<open>Exit_Failure\<close> is \<open>exit(1)\<close>, after the message on \<open>stderr\<close>; \<open>Assert_Failure\<close> is an
  \<open>assert\<close> that does not hold; \<open>Sigpipe\<close> is the signal of a write to a connection that the
  peer has reset, which ends a process that does not handle it; the others are undefined behaviour that the source
  does not guard against, \<open>Bad_Format\<close> that of a \<open>printf\<close> whose arguments do not fit its format.
\<close>

datatype fault =
    Exit_Failure string
  | Assert_Failure
  | Sigpipe
  | Out_Of_Bounds
  | Null_Deref
  | Division_By_Zero
  | Bad_Format

type_synonym 'a res = "fault + 'a"

fun res_bind :: "'a res \<Rightarrow> ('a \<Rightarrow> 'b res) \<Rightarrow> 'b res" where
  "res_bind (Inl e) f = Inl e"
| "res_bind (Inr x) f = f x"

definition c_exit :: "string \<Rightarrow> 'a res" where
  "c_exit msg = Inl (Exit_Failure msg)"

definition c_assert :: "bool \<Rightarrow> unit res" where
  "c_assert b = (if b then Inr () else Inl Assert_Failure)"

section \<open>Arrays\<close>

definition arr_get :: "'a list \<Rightarrow> nat \<Rightarrow> 'a res" where
  "arr_get xs i = (if i < length xs then Inr (xs ! i) else Inl Out_Of_Bounds)"

definition arr_set :: "'a list \<Rightarrow> nat \<Rightarrow> 'a \<Rightarrow> 'a list res" where
  "arr_set xs i v = (if i < length xs then Inr (xs[i := v]) else Inl Out_Of_Bounds)"

text \<open>\<open>memcpy\<close> of the elements \<open>ys\<close> to the place of index \<open>i\<close>; \<open>memset\<close> is its
  instance with \<open>replicate\<close>.\<close>

definition arr_copy :: "'a list \<Rightarrow> nat \<Rightarrow> 'a list \<Rightarrow> 'a list res" where
  "arr_copy xs i ys =
     (if i + length ys \<le> length xs
      then Inr (take i xs @ ys @ drop (i + length ys) xs)
      else Inl Out_Of_Bounds)"

section \<open>Strings\<close>

text \<open>
  A C string is the list of its characters before the terminating zero byte. \<open>strncmp\<close> and
  \<open>strcmp\<close> compare with the terminator included; the sources only test them against zero.
\<close>

definition nul :: char where
  "nul = CHR 0x00"

definition strncmp_eq :: "string \<Rightarrow> string \<Rightarrow> nat \<Rightarrow> bool" where
  "strncmp_eq a b n \<longleftrightarrow> take n (a @ [nul]) = take n (b @ [nul])"

definition strnlen :: "string \<Rightarrow> nat \<Rightarrow> nat" where
  "strnlen s n = min (length s) n"

subsection \<open>The conversions of printf\<close>

definition hex_digit :: "nat \<Rightarrow> char" where
  "hex_digit n = ''0123456789ABCDEF'' ! (n mod 16)"

definition dec_digit :: "nat \<Rightarrow> char" where
  "dec_digit n = ''0123456789'' ! (n mod 10)"

text \<open>\<open>%04X\<close> and \<open>%02X\<close> on values that fit the width, as all values printed do.\<close>

definition fmt_04X :: "u16 \<Rightarrow> string" where
  "fmt_04X w =
     (let n = unat w in
      [hex_digit (n div 4096), hex_digit (n div 256), hex_digit (n div 16), hex_digit n])"

definition fmt_02X :: "u8 \<Rightarrow> string" where
  "fmt_02X w = (let n = unat w in [hex_digit (n div 16), hex_digit n])"

text \<open>\<open>%u\<close>, \<open>%hu\<close> and \<open>%zu\<close>: decimal, no padding.\<close>

fun fmt_u :: "nat \<Rightarrow> string" where
  "fmt_u n = (if n < 10 then [dec_digit n] else fmt_u (n div 10) @ [dec_digit n])"

declare fmt_u.simps [simp del]

text \<open>\<open>%d\<close>: a minus sign and the digits.\<close>

definition fmt_d :: "int \<Rightarrow> string" where
  "fmt_d n = (if n < 0 then ''-'' @ fmt_u (nat (- n)) else fmt_u (nat n))"

subsection \<open>Character classes and strtoull\<close>

definition isdigit :: "char \<Rightarrow> bool" where
  "isdigit c \<longleftrightarrow> 48 \<le> (of_char c :: nat) \<and> (of_char c :: nat) \<le> 57"

definition isspace :: "char \<Rightarrow> bool" where
  "isspace c \<longleftrightarrow> c \<in> {CHR '' '', CHR 0x09, CHR 0x0A, CHR 0x0B, CHR 0x0C, CHR 0x0D}"

definition digit_value :: "char \<Rightarrow> nat" where
  "digit_value c = of_char c - 48"

definition digits_value :: "string \<Rightarrow> nat" where
  "digits_value ds = foldl (\<lambda>n c. 10 * n + digit_value c) 0 ds"

text \<open>\<open>strtoull (s, &end, 10)\<close>: the value, whether \<open>errno\<close> is \<open>ERANGE\<close>, and the rest of the
  string from \<open>end\<close> on. White space is skipped and a sign accepted; a minus sign negates modulo
  \<open>2 ^ 64\<close>; without digits the value is zero and \<open>end\<close> is the start.\<close>

definition strtoull :: "string \<Rightarrow> nat \<times> bool \<times> string" where
  "strtoull s =
     (let t = dropWhile isspace s;
          neg = (t \<noteq> [] \<and> hd t = CHR ''-'');
          t = (if t \<noteq> [] \<and> (hd t = CHR ''-'' \<or> hd t = CHR ''+'') then tl t else t);
          ds = takeWhile isdigit t;
          v = digits_value ds in
      if ds = [] then (0, False, s)
      else if v > 2 ^ 64 - 1 then (2 ^ 64 - 1, True, dropWhile isdigit t)
      else (if neg then (2 ^ 64 - v) mod 2 ^ 64 else v, False, dropWhile isdigit t))"

section \<open>Weakest preconditions\<close>

text \<open>\<open>wp r Q E\<close>: the result \<open>r\<close> is a value that satisfies \<open>Q\<close> or a fault that
  satisfies \<open>E\<close>.\<close>

fun wp :: "'a res \<Rightarrow> ('a \<Rightarrow> bool) \<Rightarrow> (fault \<Rightarrow> bool) \<Rightarrow> bool" where
  "wp (Inl e) Q E = E e"
| "wp (Inr x) Q E = Q x"

named_theorems wp_simps \<open>weakest preconditions of the operations of the model\<close>

lemma wp_bind [wp_simps]:
  "wp (res_bind r f) Q E = wp r (\<lambda>x. wp (f x) Q E) E"
  by (cases r) simp_all

lemma wp_if [wp_simps]:
  "wp (if b then r else s) Q E = ((b \<longrightarrow> wp r Q E) \<and> (\<not> b \<longrightarrow> wp s Q E))"
  by simp

lemma wp_case_option [wp_simps]:
  "wp (case x of None \<Rightarrow> r | Some y \<Rightarrow> s y) Q E =
     ((x = None \<longrightarrow> wp r Q E) \<and> (\<forall>y. x = Some y \<longrightarrow> wp (s y) Q E))"
  by (cases x) simp_all

lemma wp_case_prod [wp_simps]:
  "wp (case x of (a, b) \<Rightarrow> r a b) Q E = (\<forall>a b. x = (a, b) \<longrightarrow> wp (r a b) Q E)"
  by (cases x) simp

lemma wp_exit [wp_simps]: "wp (c_exit msg) Q E = E (Exit_Failure msg)"
  by (simp add: c_exit_def)

lemma wp_assert [wp_simps]: "wp (c_assert b) Q E = ((b \<longrightarrow> Q ()) \<and> (\<not> b \<longrightarrow> E Assert_Failure))"
  by (simp add: c_assert_def)

lemma wp_arr_get [wp_simps]:
  "wp (arr_get xs i) Q E =
     ((i < length xs \<longrightarrow> Q (xs ! i)) \<and> (length xs \<le> i \<longrightarrow> E Out_Of_Bounds))"
  by (auto simp: arr_get_def)

lemma wp_arr_set [wp_simps]:
  "wp (arr_set xs i v) Q E =
     ((i < length xs \<longrightarrow> Q (xs[i := v])) \<and> (length xs \<le> i \<longrightarrow> E Out_Of_Bounds))"
  by (auto simp: arr_set_def)

lemma wp_arr_copy [wp_simps]:
  "wp (arr_copy xs i ys) Q E =
     ((i + length ys \<le> length xs \<longrightarrow> Q (take i xs @ ys @ drop (i + length ys) xs)) \<and>
      (length xs < i + length ys \<longrightarrow> E Out_Of_Bounds))"
  by (auto simp: arr_copy_def)

lemmas wp_rules = wp.simps wp_simps

lemma wp_mono:
  assumes "wp r Q E" and "\<And>x. Q x \<Longrightarrow> Q' x" and "\<And>e. E e \<Longrightarrow> E' e"
  shows "wp r Q' E'"
  using assms by (cases r) simp_all

lemma wpD: "wp r Q E \<Longrightarrow> r = Inr x \<Longrightarrow> Q x"
  by simp

lemma wpE: "wp r Q E \<Longrightarrow> r = Inl e \<Longrightarrow> E e"
  by simp

lemma wp_conj: "wp r Q E \<Longrightarrow> wp r Q' E' \<Longrightarrow> wp r (\<lambda>x. Q x \<and> Q' x) (\<lambda>e. E e \<and> E' e)"
  by (cases r) simp_all

lemma wp_total: "wp r Q (\<lambda>_. False) \<longleftrightarrow> (\<exists>x. r = Inr x \<and> Q x)"
  by (cases r) simp_all

lemma res_bind_Inr_iff:
  "res_bind r f = Inr y \<longleftrightarrow> (\<exists>x. r = Inr x \<and> f x = Inr y)"
  by (cases r) simp_all

lemma res_bind_assoc [simp]:
  "res_bind (res_bind r f) g = res_bind r (\<lambda>x. res_bind (f x) g)"
  by (cases r) simp_all

section \<open>Lemmas on arrays and strings\<close>

lemma arr_get_ok [simp]: "i < length xs \<Longrightarrow> arr_get xs i = Inr (xs ! i)"
  by (simp add: arr_get_def)

lemma arr_set_ok [simp]: "i < length xs \<Longrightarrow> arr_set xs i v = Inr (xs[i := v])"
  by (simp add: arr_set_def)

lemma strncmp_eq_literal:
  assumes "nul \<notin> set lit" and "nul \<notin> set s"
  shows "strncmp_eq s lit (Suc (length lit)) \<longleftrightarrow> s = lit"
proof
  assume "strncmp_eq s lit (Suc (length lit))"
  then have eq: "take (Suc (length lit)) (s @ [nul]) = lit @ [nul]"
    by (simp add: strncmp_eq_def)
  show "s = lit"
  proof (cases "length s \<le> length lit")
    case True
    with eq have "s @ [nul] = lit @ [nul]" by simp
    then show ?thesis by simp
  next
    case False
    with eq have "take (Suc (length lit)) s = lit @ [nul]" by simp
    then have "nul \<in> set s" by (metis in_set_conv_decomp in_set_takeD)
    with assms show ?thesis by simp
  qed
next
  assume "s = lit"
  then show "strncmp_eq s lit (Suc (length lit))"
    by (simp add: strncmp_eq_def)
qed

lemma fmt_u_nonempty [simp]: "fmt_u n \<noteq> []"
  by (subst fmt_u.simps) simp

lemma less_10_cases:
  assumes "d < (10 :: nat)"
  obtains "d = 0" | "d = 1" | "d = 2" | "d = 3" | "d = 4" | "d = 5" | "d = 6" | "d = 7" | "d = 8" | "d = 9"
proof -
  from assms have "d \<in> set [0..<10]" by simp
  then have "d \<in> {0, 1, 2, 3, 4, 5, 6, 7, 8, 9}" by (simp add: upt_rec numeral_eq_Suc)
  with that show ?thesis by blast
qed

lemma of_char_dec_digit: "of_char (dec_digit n) = 48 + n mod (10 :: nat)"
proof -
  have "n mod 10 < 10" by simp
  then show ?thesis
    by (cases rule: less_10_cases) (simp_all add: dec_digit_def)
qed

lemma isdigit_dec_digit [simp]: "isdigit (dec_digit n)"
proof -
  have "n mod 10 < 10" by simp
  then show ?thesis unfolding isdigit_def of_char_dec_digit by linarith
qed

lemma digit_value_dec_digit [simp]: "digit_value (dec_digit n) = n mod 10"
  by (simp add: digit_value_def of_char_dec_digit)

lemma fmt_u_digits: "c \<in> set (fmt_u n) \<Longrightarrow> isdigit c"
proof (induction n rule: fmt_u.induct)
  case (1 n)
  then show ?case by (subst (asm) (2) fmt_u.simps) (auto split: if_splits)
qed

text \<open>Reading back a printed number.\<close>

lemma digits_value_fmt_u: "digits_value (fmt_u n) = n"
proof (induction n rule: fmt_u.induct)
  case (1 n)
  then show ?case
    by (subst fmt_u.simps) (simp add: digits_value_def)
qed

lemma isdigit_class:
  assumes "isdigit c"
  shows "\<not> isspace c" "c \<noteq> CHR ''-''" "c \<noteq> CHR ''+''"
  using assms by (auto simp: isdigit_def isspace_def)

lemma strtoull_digits:
  assumes "ds \<noteq> []" and "\<And>c. c \<in> set ds \<Longrightarrow> isdigit c" and "digits_value ds \<le> 2 ^ 64 - 1"
    and "r = [] \<or> \<not> isdigit (hd r)"
  shows "strtoull (ds @ r) = (digits_value ds, False, r)"
proof -
  obtain c ds' where ds: "ds = c # ds'" using assms(1) by (cases ds) auto
  then have "isdigit c" using assms(2) by simp
  note c = isdigit_class [OF this]
  have "takeWhile isdigit (ds @ r) = ds" "dropWhile isdigit (ds @ r) = r"
    using assms(2,4) by (cases r; simp)+
  then show ?thesis
    using assms(3) c ds by (simp add: strtoull_def Let_def)
qed

section \<open>Lemmas on words\<close>

lemma unat_u8_less [simp]: "unat (w :: u8) < 256"
  using unsigned_less [of w, where ?'a = nat] by simp

lemma unat_u16_less [simp]: "unat (w :: u16) < 65536"
  using unsigned_less [of w, where ?'a = nat] by simp

lemma unat_word_of_nat_u16: "n < 65536 \<Longrightarrow> unat (word_of_nat n :: u16) = n"
  by (simp add: unat_of_nat)

lemma unat_word_of_nat_u8: "n < 256 \<Longrightarrow> unat (word_of_nat n :: u8) = n"
  by (simp add: unat_of_nat)

lemma unat_ucast_u8_u16 [simp]: "unat (ucast (w :: u8) :: u16) = unat w"
proof -
  have "unat w < 2 ^ 16" using less_trans [OF unat_u8_less [of w], of "2 ^ 16"] by simp
  then show ?thesis by (simp add: unsigned_ucast_eq take_bit_nat_eq_self)
qed

end
