(* ===== verification/Opcode.thy ===== *)
theory Opcode
  imports Prelude
begin

text \<open>
  The bit helpers of the emulator (\<open>utils/bits.c\<close>) and the operand fields of an opcode
  (\<open>opcode.c\<close>). The definitions mask and shift as the C code does; the lemmas read the same
  values off the opcode by division, which is the form in which the decoder, the disassembler
  and the instruction set are compared in the theories above.
\<close>

section \<open>Operations\<close>

definition bit_is_set :: "u8 \<Rightarrow> nat \<Rightarrow> bool res" where
  "bit_is_set num bit_order =
     res_bind (c_assert (bit_order < 8)) (\<lambda>_.
     Inr (num AND push_bit bit_order 1 \<noteq> 0))"

definition bit_most_significant :: "u8 \<Rightarrow> u8 res" where
  "bit_most_significant num = res_bind (bit_is_set num 7) (\<lambda>b. Inr (if b then 1 else 0))"

definition bit_least_significant :: "u8 \<Rightarrow> u8 res" where
  "bit_least_significant num = res_bind (bit_is_set num 0) (\<lambda>b. Inr (if b then 1 else 0))"

definition opcode_decode_address :: "u16 \<Rightarrow> u16" where
  "opcode_decode_address opcode = opcode AND 0x0FFF"

definition opcode_decode_register_x :: "u16 \<Rightarrow> u8" where
  "opcode_decode_register_x opcode = ucast (drop_bit (2 * 4) (opcode AND 0x0F00))"

definition opcode_decode_register_y :: "u16 \<Rightarrow> u8" where
  "opcode_decode_register_y opcode = ucast (drop_bit (1 * 4) (opcode AND 0x00F0))"

definition opcode_decode_const_8bit :: "u16 \<Rightarrow> u8" where
  "opcode_decode_const_8bit opcode = ucast (opcode AND 0x00FF)"

definition opcode_decode_const_4bit :: "u16 \<Rightarrow> u8" where
  "opcode_decode_const_4bit opcode = ucast (opcode AND 0x000F)"

section \<open>Masks as arithmetic\<close>

lemma nat_and_field:
  "(n :: nat) AND push_bit k (mask j) = 2 ^ k * ((n div 2 ^ k) mod 2 ^ j)"
proof -
  have "n AND push_bit k (mask j) = push_bit k (take_bit j (drop_bit k n))"
    by (rule bit_eqI)
      (auto simp: bit_and_iff bit_push_bit_iff bit_mask_iff bit_take_bit_iff bit_drop_bit_eq)
  then show ?thesis
    by (simp add: push_bit_eq_mult take_bit_eq_mod drop_bit_eq_div)
qed

lemma nat_and_two_fields:
  assumes "j \<le> k"
  shows "(n :: nat) AND (push_bit k (mask i) OR mask j) =
     2 ^ k * ((n div 2 ^ k) mod 2 ^ i) + n mod 2 ^ j"
proof -
  have disjoint: "(n AND push_bit k (mask i)) AND (n AND mask j) = 0"
    using assms by (intro bit_eqI) (auto simp: bit_and_iff bit_push_bit_iff bit_mask_iff)
  have "n AND (push_bit k (mask i) OR mask j) = (n AND push_bit k (mask i)) OR (n AND mask j)"
    by (rule bit_eqI) (auto simp: bit_and_iff bit_or_iff)
  also have "\<dots> = (n AND push_bit k (mask i)) + (n AND mask j)"
    using disjoint by (simp add: disjunctive_add bit_eq_iff bit_and_iff)
  finally show ?thesis
    by (simp add: nat_and_field take_bit_eq_mask [symmetric] take_bit_eq_mod)
qed

lemma unat_and_numeral: "unat ((w :: u16) AND numeral m) = unat w AND unat (numeral m :: u16)"
  by (simp add: unsigned_and_eq)

lemma opcode_mod_65536 [simp]: "unat (w :: u16) div 4096 mod 16 = unat w div 4096"
  using unat_u16_less [of w] by (simp add: less_mult_imp_div_less)

lemma unat_and_0x0FFF: "unat ((w :: u16) AND 0x0FFF) = unat w mod 4096"
  using nat_and_field [of "unat w" 0 12] by (simp add: unat_and_numeral mask_numeral)

lemma unat_and_0x00FF: "unat ((w :: u16) AND 0x00FF) = unat w mod 256"
  using nat_and_field [of "unat w" 0 8] by (simp add: unat_and_numeral mask_numeral)

lemma unat_and_0x000F: "unat ((w :: u16) AND 0x000F) = unat w mod 16"
  using nat_and_field [of "unat w" 0 4] by (simp add: unat_and_numeral mask_numeral)

lemma unat_and_0x0F00: "unat ((w :: u16) AND 0x0F00) = 256 * (unat w div 256 mod 16)"
  using nat_and_field [of "unat w" 8 4] by (simp add: unat_and_numeral mask_numeral)

lemma unat_and_0x00F0: "unat ((w :: u16) AND 0x00F0) = 16 * (unat w div 16 mod 16)"
  using nat_and_field [of "unat w" 4 4] by (simp add: unat_and_numeral mask_numeral)

lemma unat_and_0xF000: "unat ((w :: u16) AND 0xF000) = 4096 * (unat w div 4096)"
  using nat_and_field [of "unat w" 12 4] by (simp add: unat_and_numeral mask_numeral)

lemma unat_and_0xF00F: "unat ((w :: u16) AND 0xF00F) = 4096 * (unat w div 4096) + unat w mod 16"
  using nat_and_two_fields [of 4 12 "unat w" 4] by (simp add: unat_and_numeral mask_numeral)

lemma unat_and_0xF0FF: "unat ((w :: u16) AND 0xF0FF) = 4096 * (unat w div 4096) + unat w mod 256"
  using nat_and_two_fields [of 8 12 "unat w" 4] by (simp add: unat_and_numeral mask_numeral)

text \<open>The guards of the decoder, each as a condition on the top digit and the low digits.\<close>

lemma digits_eq_iff:
  "r < 4096 \<Longrightarrow> 4096 * q + r = n \<longleftrightarrow> q = n div 4096 \<and> r = (n :: nat) mod 4096"
  by auto

lemma and_0xF000_iff:
  "(w :: u16) AND 0xF000 = numeral m \<longleftrightarrow>
     unat w div 4096 = unat (numeral m :: u16) div 4096 \<and> unat (numeral m :: u16) mod 4096 = 0"
  "(w :: u16) AND 0xF000 = 0 \<longleftrightarrow> unat w div 4096 = 0"
  using digits_eq_iff [of 0 "unat w div 4096" "unat (numeral m :: u16)"]
  by (auto simp: word_unat_eq_iff unat_and_0xF000)

lemma and_0xF00F_iff:
  "(w :: u16) AND 0xF00F = numeral m \<longleftrightarrow>
     unat w div 4096 = unat (numeral m :: u16) div 4096 \<and>
     unat w mod 16 = unat (numeral m :: u16) mod 4096"
  unfolding word_unat_eq_iff unat_and_0xF00F
  by (rule digits_eq_iff) (rule less_trans [of _ 16], simp_all)

lemma and_0xF0FF_iff:
  "(w :: u16) AND 0xF0FF = numeral m \<longleftrightarrow>
     unat w div 4096 = unat (numeral m :: u16) div 4096 \<and>
     unat w mod 256 = unat (numeral m :: u16) mod 4096"
  unfolding word_unat_eq_iff unat_and_0xF0FF
  by (rule digits_eq_iff) (rule less_trans [of _ 256], simp_all)

lemmas opcode_mask_iff = and_0xF000_iff and_0xF00F_iff and_0xF0FF_iff

section \<open>Operand fields as arithmetic\<close>

lemma unat_ucast_u16_u8: "unat (ucast (w :: u16) :: u8) = unat w mod 256"
  by (simp add: unsigned_ucast_eq take_bit_eq_mod)

lemma unat_decode_address: "unat (opcode_decode_address w) = unat w mod 4096"
  by (simp add: opcode_decode_address_def unat_and_0x0FFF)

lemma unat_decode_register_x: "unat (opcode_decode_register_x w) = unat w div 256 mod 16"
  by (simp add: opcode_decode_register_x_def unat_ucast_u16_u8
      drop_bit_eq_div unat_div unat_and_0x0F00)

lemma unat_decode_register_y: "unat (opcode_decode_register_y w) = unat w div 16 mod 16"
  by (simp add: opcode_decode_register_y_def unat_ucast_u16_u8
      drop_bit_eq_div unat_div unat_and_0x00F0)

lemma unat_decode_const_8bit: "unat (opcode_decode_const_8bit w) = unat w mod 256"
  by (simp add: opcode_decode_const_8bit_def unat_ucast_u16_u8 unat_and_0x00FF)

lemma unat_decode_const_4bit: "unat (opcode_decode_const_4bit w) = unat w mod 16"
  by (simp add: opcode_decode_const_4bit_def unat_ucast_u16_u8 unat_and_0x000F)

lemmas unat_decode =
  unat_decode_address unat_decode_register_x unat_decode_register_y
  unat_decode_const_8bit unat_decode_const_4bit

lemma decode_register_x_less [simp]: "unat (opcode_decode_register_x w) < 16"
  by (simp add: unat_decode)

lemma decode_register_y_less [simp]: "unat (opcode_decode_register_y w) < 16"
  by (simp add: unat_decode)

lemma decode_register_not_ge [simp]:
  "16 \<le> unat (opcode_decode_register_x w) \<longleftrightarrow> False"
  "16 \<le> unat (opcode_decode_register_y w) \<longleftrightarrow> False"
  by (simp_all add: not_le)

lemma decode_register_le [simp]:
  "unat (opcode_decode_register_x w) \<le> 15" "unat (opcode_decode_register_y w) \<le> 15"
  using decode_register_x_less [of w] decode_register_y_less [of w] by linarith+

lemma decode_const_4bit_less [simp]: "unat (opcode_decode_const_4bit w) < 16"
  by (simp add: unat_decode)

section \<open>Bits\<close>

lemma bit_is_set_iff: "bit_order < 8 \<Longrightarrow> bit_is_set num bit_order = Inr (bit num bit_order)"
  by (simp add: bit_is_set_def c_assert_def bit_iff_and_push_bit_not_eq_0)

lemma bit_is_set_asserts: "8 \<le> bit_order \<Longrightarrow> bit_is_set num bit_order = Inl Assert_Failure"
  by (simp add: bit_is_set_def c_assert_def)

lemma wp_bit_is_set [wp_simps]:
  "wp (bit_is_set num k) Q E =
     ((k < 8 \<longrightarrow> Q (bit num k)) \<and> (8 \<le> k \<longrightarrow> E Assert_Failure))"
  by (cases "k < 8") (simp_all add: bit_is_set_iff bit_is_set_asserts)

end
