(* ===== verification/Interfaces.thy ===== *)
theory Interfaces
  imports Prelude
begin

text \<open>
  The contracts between components, as locales: what a client may rely on, and the lemmas
  that follow from it. Each locale is interpreted, in the theory of the component that
  provides the operations, on the definitions that model the C functions.

  \<^item> \<open>bounded_push\<close>: an array with a fill count to which elements are appended until it is
    full (the deferred calls of \<open>defer.c\<close>); \<open>bounded_stack\<close> adds the removal of the last
    element (the call stack of \<open>cpu.c\<close>).
  \<^item> \<open>bounded_fifo\<close>: a bounded first-in first-out queue (\<open>token/queue.c\<close>).
  \<^item> \<open>bounded_map\<close>: a map with room for so many keys (\<open>hash-table/main.c\<close>).
  \<^item> \<open>bump_allocator\<close>: blocks handed out one behind the other (\<open>mem.c\<close> of the SCGI backend).
  \<^item> \<open>byte_sink\<close>: a growing buffer (\<open>dynamic-array.h\<close> of the HTTP server).
  \<^item> \<open>codec\<close>: an encoder with a partial decoder that inverts it (the CHIP-8 instruction
    set; the names of the log levels).
  \<^item> \<open>transition_system\<close>: a stepping machine with an invariant, and \<open>simulation\<close>, which extends it by an abstract machine
    that it implements.
\<close>

section \<open>Loops that may fail\<close>

text \<open>\<open>fold_res f s xs\<close> runs a fallible operation over the elements of a list.\<close>

fun fold_res :: "('s \<Rightarrow> 'a \<Rightarrow> 's res) \<Rightarrow> 's \<Rightarrow> 'a list \<Rightarrow> 's res" where
  "fold_res f s [] = Inr s"
| "fold_res f s (x # xs) = res_bind (f s x) (\<lambda>s'. fold_res f s' xs)"

text \<open>\<open>iter_res n f s\<close> runs a fallible operation that yields an element \<open>n\<close> times and
  collects the elements.\<close>

fun iter_res :: "nat \<Rightarrow> ('s \<Rightarrow> ('a \<times> 's) res) \<Rightarrow> 's \<Rightarrow> ('a list \<times> 's) res" where
  "iter_res 0 f s = Inr ([], s)"
| "iter_res (Suc n) f s =
     res_bind (f s) (\<lambda>(x, s'). res_bind (iter_res n f s') (\<lambda>(xs, s''). Inr (x # xs, s'')))"

section \<open>Bounded stacks\<close>

locale bounded_push =
  fixes push :: "'s \<Rightarrow> 'a \<Rightarrow> 's res"
    and contents :: "'s \<Rightarrow> 'a list"
    and capacity :: nat
    and invar :: "'s \<Rightarrow> bool"
  assumes push_ok: "invar s \<Longrightarrow> length (contents s) < capacity \<Longrightarrow>
      \<exists>s'. push s x = Inr s' \<and> invar s' \<and> contents s' = contents s @ [x]"
    and push_full: "invar s \<Longrightarrow> length (contents s) = capacity \<Longrightarrow> \<exists>e. push s x = Inl e"
    and contents_bound: "invar s \<Longrightarrow> length (contents s) \<le> capacity"
begin

lemma push_all:
  "invar s \<Longrightarrow> length (contents s) + length xs \<le> capacity \<Longrightarrow>
     \<exists>s'. fold_res push s xs = Inr s' \<and> invar s' \<and> contents s' = contents s @ xs"
proof (induction xs arbitrary: s)
  case Nil
  then show ?case by simp
next
  case (Cons x xs)
  then obtain s1 where s1: "push s x = Inr s1" "invar s1" "contents s1 = contents s @ [x]"
    using push_ok [of s x] by auto
  with Cons.prems Cons.IH [of s1] show ?case by auto
qed

lemma push_all_overflow:
  "invar s \<Longrightarrow> capacity < length (contents s) + length xs \<Longrightarrow> \<exists>e. fold_res push s xs = Inl e"
proof (induction xs arbitrary: s)
  case Nil
  then show ?case using contents_bound [of s] by simp
next
  case (Cons x xs)
  show ?case
  proof (cases "length (contents s) < capacity")
    case True
    with Cons.prems obtain s1 where
        "push s x = Inr s1" "invar s1" "contents s1 = contents s @ [x]"
      using push_ok [of s x] by auto
    with Cons.prems Cons.IH [of s1] show ?thesis by auto
  next
    case False
    with Cons.prems contents_bound [of s] have "length (contents s) = capacity" by simp
    with Cons.prems push_full [of s x] show ?thesis by auto
  qed
qed

lemma push_keeps_invar: "invar s \<Longrightarrow> push s x = Inr s' \<Longrightarrow> invar s'"
  using push_ok [of s x] push_full [of s x] contents_bound [of s]
  by (cases "length (contents s) < capacity") auto

end

locale bounded_stack = bounded_push push contents capacity invar
  for push :: "'s \<Rightarrow> 'a \<Rightarrow> 's res"
    and contents :: "'s \<Rightarrow> 'a list"
    and capacity :: nat
    and invar :: "'s \<Rightarrow> bool" +
  fixes pop :: "'s \<Rightarrow> ('a \<times> 's) res"
  assumes pop_ok: "invar s \<Longrightarrow> contents s \<noteq> [] \<Longrightarrow>
      \<exists>s'. pop s = Inr (last (contents s), s') \<and> invar s' \<and> contents s' = butlast (contents s)"
    and pop_empty: "invar s \<Longrightarrow> contents s = [] \<Longrightarrow> \<exists>e. pop s = Inl e"
begin

lemma push_pop:
  assumes "invar s" and "push s x = Inr s'"
  shows "\<exists>s''. pop s' = Inr (x, s'') \<and> invar s'' \<and> contents s'' = contents s"
proof -
  have "length (contents s) < capacity"
    using assms push_full [of s x] contents_bound [of s] by (cases "length (contents s) = capacity") auto
  with assms push_ok [of s x] have "invar s'" and "contents s' = contents s @ [x]" by auto
  with pop_ok [of s'] show ?thesis by auto
qed

text \<open>Last in, first out, over any number of elements.\<close>

lemma pop_all:
  "invar s \<Longrightarrow> n \<le> length (contents s) \<Longrightarrow>
     \<exists>s'. iter_res n pop s = Inr (take n (rev (contents s)), s') \<and> invar s' \<and>
       contents s' = take (length (contents s) - n) (contents s)"
proof (induction n arbitrary: s)
  case 0
  then show ?case by simp
next
  case (Suc n)
  then have ne: "contents s \<noteq> []" by auto
  with Suc.prems pop_ok [of s] obtain s1 where
      s1: "pop s = Inr (last (contents s), s1)" "invar s1" "contents s1 = butlast (contents s)"
    by auto
  then have len: "n \<le> length (contents s1)"
    using Suc.prems by simp
  from Suc.IH [OF s1(2) len] obtain s2 where
      "iter_res n pop s1 = Inr (take n (rev (contents s1)), s2)" "invar s2"
      "contents s2 = take (length (contents s1) - n) (contents s1)"
    by blast
  moreover have "take (Suc n) (rev (contents s)) = last (contents s) # take n (rev (butlast (contents s)))"
    using ne by (cases "contents s" rule: rev_cases) auto
  moreover have "length (contents s) - Suc n < length (contents s)"
    using ne by (simp add: diff_less)
  ultimately show ?case
    using s1 by (simp add: take_butlast)
qed

end

section \<open>Bounded queues\<close>

locale bounded_fifo =
  fixes append_item :: "'q \<Rightarrow> 'a \<Rightarrow> 'q res"
    and pop_item :: "'q \<Rightarrow> ('a \<times> 'q) res"
    and peek_item :: "'q \<Rightarrow> 'a res"
    and items_of :: "'q \<Rightarrow> 'a list"
    and room :: "'q \<Rightarrow> nat"
    and queue_ok :: "'q \<Rightarrow> bool"
  assumes append_ok: "queue_ok q \<Longrightarrow> length (items_of q) < room q \<Longrightarrow>
      \<exists>q'. append_item q x = Inr q' \<and> queue_ok q' \<and> items_of q' = items_of q @ [x] \<and> room q' = room q"
    and append_full: "queue_ok q \<Longrightarrow> length (items_of q) = room q \<Longrightarrow>
      append_item q x = Inl Assert_Failure"
    and pop_front: "queue_ok q \<Longrightarrow> items_of q = y # ys \<Longrightarrow>
      \<exists>q'. pop_item q = Inr (y, q') \<and> queue_ok q' \<and> items_of q' = ys \<and> room q' = room q"
    and pop_none: "queue_ok q \<Longrightarrow> items_of q = [] \<Longrightarrow> pop_item q = Inl Assert_Failure"
    and peek_front: "queue_ok q \<Longrightarrow> items_of q = y # ys \<Longrightarrow> peek_item q = Inr y"
begin

lemma append_all:
  "queue_ok q \<Longrightarrow> length (items_of q) + length xs \<le> room q \<Longrightarrow>
     \<exists>q'. fold_res append_item q xs = Inr q' \<and> queue_ok q' \<and> items_of q' = items_of q @ xs \<and>
       room q' = room q"
proof (induction xs arbitrary: q)
  case Nil
  then show ?case by simp
next
  case (Cons x xs)
  then obtain q1 where q1: "append_item q x = Inr q1" "queue_ok q1"
      "items_of q1 = items_of q @ [x]" "room q1 = room q"
    using append_ok [of q x] by auto
  with Cons.prems Cons.IH [of q1] show ?case by auto
qed

text \<open>First in, first out: draining the queue yields its items in order.\<close>

lemma drain:
  "queue_ok q \<Longrightarrow> items_of q = ys \<Longrightarrow> \<exists>q'. iter_res (length ys) pop_item q = Inr (ys, q') \<and>
     queue_ok q' \<and> items_of q' = [] \<and> room q' = room q"
proof (induction ys arbitrary: q)
  case Nil
  then show ?case by simp
next
  case (Cons y ys)
  from pop_front [OF Cons.prems] obtain q1 where
      q1: "pop_item q = Inr (y, q1)" "queue_ok q1" "items_of q1 = ys" "room q1 = room q"
    by blast
  from Cons.IH [OF q1(2,3)] q1 show ?case by auto
qed

end

section \<open>Bounded maps\<close>

locale bounded_map =
  fixes put :: "'s \<Rightarrow> 'k \<Rightarrow> 'v \<Rightarrow> 's res"
    and contents_map :: "'s \<Rightarrow> 'k \<rightharpoonup> 'v"
    and slots :: "'s \<Rightarrow> nat"
    and table_ok :: "'s \<Rightarrow> bool"
  assumes put_ok: "table_ok s \<Longrightarrow> k \<in> dom (contents_map s) \<or> card (dom (contents_map s)) < slots s \<Longrightarrow>
      \<exists>s'. put s k v = Inr s' \<and> table_ok s' \<and> contents_map s' = (contents_map s)(k \<mapsto> v) \<and> slots s' = slots s"
    and finite_contents: "table_ok s \<Longrightarrow> finite (dom (contents_map s))"
begin

lemma put_all:
  "table_ok s \<Longrightarrow> card (dom (contents_map s) \<union> fst ` set kvs) \<le> slots s \<Longrightarrow>
     \<exists>s'. fold_res (\<lambda>s (k, v). put s k v) s kvs = Inr s' \<and> table_ok s' \<and>
       contents_map s' = contents_map s ++ map_of (rev kvs) \<and> slots s' = slots s"
proof (induction kvs arbitrary: s)
  case Nil
  then show ?case by simp
next
  case (Cons kv kvs)
  obtain k v where kv: "kv = (k, v)" by (cases kv)
  have fin: "finite (dom (contents_map s) \<union> fst ` set (kv # kvs))"
    using finite_contents [OF Cons.prems(1)] by simp
  have room: "k \<in> dom (contents_map s) \<or> card (dom (contents_map s)) < slots s"
  proof (rule disjCI)
    assume "\<not> card (dom (contents_map s)) < slots s"
    with Cons.prems(2) have "card (dom (contents_map s) \<union> fst ` set (kv # kvs)) \<le> card (dom (contents_map s))"
      by simp
    from card_seteq [OF fin _ this] show "k \<in> dom (contents_map s)"
      using kv by auto
  qed
  from put_ok [OF Cons.prems(1) room, of v] obtain s1 where
      s1: "put s k v = Inr s1" "table_ok s1" "contents_map s1 = (contents_map s)(k \<mapsto> v)" "slots s1 = slots s"
    by blast
  have "dom (contents_map s1) \<union> fst ` set kvs = dom (contents_map s) \<union> fst ` set (kv # kvs)"
    using s1(3) kv by auto
  with Cons.prems(2) s1(4) Cons.IH [OF s1(2)] obtain s2 where
      s2: "fold_res (\<lambda>s (k, v). put s k v) s1 kvs = Inr s2" "table_ok s2"
        "contents_map s2 = contents_map s1 ++ map_of (rev kvs)" "slots s2 = slots s"
    by auto
  have "contents_map s2 = contents_map s ++ map_of (rev (kv # kvs))"
    by (simp add: s2(3) s1(3) kv map_add_assoc [symmetric])
  with s1(1) s2 kv show ?case by simp
qed

end

section \<open>Bump allocators\<close>

text \<open>The blocks that a sequence of requests gets, with their sizes.\<close>

fun alloc_blocks :: "('s \<Rightarrow> nat \<Rightarrow> (nat option \<times> 's) res) \<Rightarrow> 's \<Rightarrow> nat list \<Rightarrow> ((nat \<times> nat) list \<times> 's) res" where
  "alloc_blocks alloc s [] = Inr ([], s)"
| "alloc_blocks alloc s (n # ns) =
     res_bind (alloc s n) (\<lambda>(p, s).
     res_bind (alloc_blocks alloc s ns) (\<lambda>(bs, s).
     Inr ((case p of None \<Rightarrow> [] | Some a \<Rightarrow> [(a, n)]) @ bs, s)))"

text \<open>\<open>alloc s n\<close> gives a block of \<open>n\<close> bytes behind those in use, or no block; sizes are below \<open>top\<close>.\<close>

locale bump_allocator =
  fixes alloc :: "'s \<Rightarrow> nat \<Rightarrow> (nat option \<times> 's) res"
    and start :: "'s \<Rightarrow> nat"
    and in_use :: "'s \<Rightarrow> nat"
    and limit :: "'s \<Rightarrow> nat"
    and arena_ok :: "'s \<Rightarrow> bool"
    and top :: nat
  assumes alloc_ok: "arena_ok s \<Longrightarrow> 0 < n \<Longrightarrow> in_use s + n < top \<Longrightarrow> in_use s + n \<le> limit s \<Longrightarrow>
      \<exists>s'. alloc s n = Inr (Some (start s + in_use s), s') \<and> arena_ok s' \<and> start s' = start s \<and>
        in_use s' = in_use s + n \<and> limit s' = limit s"
    and alloc_exhausted: "arena_ok s \<Longrightarrow> 0 < n \<Longrightarrow> in_use s + n < top \<Longrightarrow> limit s < in_use s + n \<Longrightarrow>
      alloc s n = Inr (None, s)"
    and within_limit: "arena_ok s \<Longrightarrow> in_use s \<le> limit s"
begin

lemma blocks_disjoint:
  "arena_ok s \<Longrightarrow> (\<And>n. n \<in> set ns \<Longrightarrow> 0 < n \<and> limit s + n < top) \<Longrightarrow>
     \<exists>bs s'. alloc_blocks alloc s ns = Inr (bs, s') \<and> arena_ok s' \<and> start s' = start s \<and> limit s' = limit s \<and>
       in_use s \<le> in_use s' \<and>
       (\<forall>(a, n) \<in> set bs. start s + in_use s \<le> a \<and> a + n \<le> start s + in_use s') \<and>
       sorted_wrt (\<lambda>(a, n) (b, m). a + n \<le> b) bs"
proof (induction ns arbitrary: s)
  case Nil
  then show ?case by simp
next
  case (Cons n ns)
  have n: "0 < n" "in_use s + n < top"
    using Cons.prems(2) [of n] within_limit [OF Cons.prems(1)] by auto
  show ?case
  proof (cases "in_use s + n \<le> limit s")
    case True
    with alloc_ok [OF Cons.prems(1) n] obtain s1 where s1: "alloc s n = Inr (Some (start s + in_use s), s1)"
        "arena_ok s1" "start s1 = start s" "in_use s1 = in_use s + n" "limit s1 = limit s"
      by blast
    with Cons.IH [OF s1(2)] Cons.prems(2) obtain bs s' where
        "alloc_blocks alloc s1 ns = Inr (bs, s')" "arena_ok s'" "start s' = start s" "limit s' = limit s"
        "in_use s1 \<le> in_use s'"
        "\<forall>(a, m) \<in> set bs. start s + in_use s1 \<le> a \<and> a + m \<le> start s + in_use s'"
        "sorted_wrt (\<lambda>(a, n) (b, m). a + n \<le> b) bs"
      by auto
    with s1 show ?thesis by fastforce
  next
    case False
    with alloc_exhausted [OF Cons.prems(1) n] have "alloc s n = Inr (None, s)" by simp
    moreover have "\<And>n. n \<in> set ns \<Longrightarrow> 0 < n \<and> limit s + n < top" using Cons.prems(2) by simp
    from Cons.IH [OF Cons.prems(1) this] obtain bs s' where
        "alloc_blocks alloc s ns = Inr (bs, s')" "arena_ok s'" "start s' = start s" "limit s' = limit s"
        "in_use s \<le> in_use s'"
        "\<forall>(a, m) \<in> set bs. start s + in_use s \<le> a \<and> a + m \<le> start s + in_use s'"
        "sorted_wrt (\<lambda>(a, n) (b, m). a + n \<le> b) bs"
      by blast
    ultimately show ?thesis by simp
  qed
qed

end

section \<open>Byte sinks\<close>

fun append_all_chunks :: "('s \<Rightarrow> 'b list \<Rightarrow> (int \<times> 's) res) \<Rightarrow> 's \<Rightarrow> 'b list list \<Rightarrow> (int \<times> 's) res" where
  "append_all_chunks f s [] = Inr (0, s)"
| "append_all_chunks f s (bs # bss) =
     res_bind (f s bs) (\<lambda>(rc, s). if rc = 0 then append_all_chunks f s bss else Inr (rc, s))"

text \<open>A growing buffer to which chunks are appended: return code zero when the chunk was taken.
  The contract holds for contents of fewer than \<open>most\<close> bytes.\<close>

locale byte_sink =
  fixes append_chunk :: "'s \<Rightarrow> 'b list \<Rightarrow> (int \<times> 's) res"
    and bytes_in :: "'s \<Rightarrow> 'b list"
    and sink_ok :: "'s \<Rightarrow> bool"
    and most :: nat
  assumes append_taken: "sink_ok s \<Longrightarrow> bs \<noteq> [] \<Longrightarrow> length (bytes_in s) + length bs < most \<Longrightarrow>
      \<exists>rc s'. append_chunk s bs = Inr (rc, s') \<and>
        (rc = 0 \<longrightarrow> sink_ok s' \<and> bytes_in s' = bytes_in s @ bs) \<and> (rc \<noteq> 0 \<longrightarrow> rc = 1)"
begin

text \<open>Appending the chunks up to the first that is refused.\<close>

lemma append_chunks:
  "sink_ok s \<Longrightarrow> (\<And>bs. bs \<in> set bss \<Longrightarrow> bs \<noteq> []) \<Longrightarrow> length (bytes_in s) + length (concat bss) < most \<Longrightarrow>
    \<exists>rc s'. append_all_chunks append_chunk s bss = Inr (rc, s') \<and>
      (rc = 0 \<longrightarrow> sink_ok s' \<and> bytes_in s' = bytes_in s @ concat bss) \<and> (rc \<noteq> 0 \<longrightarrow> rc = 1)"
proof (induction bss arbitrary: s)
  case Nil
  then show ?case by simp
next
  case (Cons bs bss)
  then obtain rc s1 where s1: "append_chunk s bs = Inr (rc, s1)"
      "rc = 0 \<longrightarrow> sink_ok s1 \<and> bytes_in s1 = bytes_in s @ bs" "rc \<noteq> 0 \<longrightarrow> rc = 1"
    using append_taken [of s bs] by auto
  show ?case
  proof (cases "rc = 0")
    case True
    with s1 Cons.prems Cons.IH [of s1] show ?thesis by auto
  next
    case False
    with s1 show ?thesis by simp
  qed
qed

text \<open>A sink that refuses nothing takes all of them.\<close>

lemma append_chunks_reliable:
  assumes "\<And>s bs rc s'. sink_ok s \<Longrightarrow> bs \<noteq> [] \<Longrightarrow> length (bytes_in s) + length bs < most \<Longrightarrow>
      append_chunk s bs = Inr (rc, s') \<Longrightarrow> rc = 0"
  shows "sink_ok s \<Longrightarrow> (\<And>bs. bs \<in> set bss \<Longrightarrow> bs \<noteq> []) \<Longrightarrow> length (bytes_in s) + length (concat bss) < most \<Longrightarrow>
    \<exists>s'. append_all_chunks append_chunk s bss = Inr (0, s') \<and> sink_ok s' \<and> bytes_in s' = bytes_in s @ concat bss"
proof (induction bss arbitrary: s)
  case Nil
  then show ?case by simp
next
  case (Cons bs bss)
  then obtain rc s1 where s1: "append_chunk s bs = Inr (rc, s1)" "rc = 0 \<longrightarrow> sink_ok s1 \<and> bytes_in s1 = bytes_in s @ bs"
    using append_taken [of s bs] by auto
  moreover have "rc = 0" using assms [OF _ _ _ s1(1)] Cons.prems by simp
  ultimately show ?case using Cons.prems Cons.IH [of s1] by auto
qed

end

section \<open>Codecs\<close>

locale codec =
  fixes enc :: "'a \<Rightarrow> 'b" and dec :: "'b \<Rightarrow> 'a option" and valid :: "'a \<Rightarrow> bool"
  assumes dec_enc: "valid x \<Longrightarrow> dec (enc x) = Some x"
begin

lemma enc_inj: "valid x \<Longrightarrow> valid y \<Longrightarrow> enc x = enc y \<Longrightarrow> x = y"
  by (metis dec_enc option.inject)

lemma dec_onto: "valid x \<Longrightarrow> \<exists>w. dec w = Some x"
  using dec_enc by blast

end

section \<open>Transition systems\<close>

text \<open>
  A machine that starts in one of the states \<open>initial\<close> and moves by a fallible step that
  depends on an input; \<open>inv\<close> holds at the start and every step that returns keeps it.
\<close>

inductive reach :: "('s \<Rightarrow> bool) \<Rightarrow> ('i \<Rightarrow> 's \<Rightarrow> 's res) \<Rightarrow> 's \<Rightarrow> bool"
  for initial step where
  reach_start: "initial s \<Longrightarrow> reach initial step s"
| reach_step: "reach initial step s \<Longrightarrow> step i s = Inr t \<Longrightarrow> reach initial step t"

locale transition_system =
  fixes initial :: "'s \<Rightarrow> bool" and step :: "'i \<Rightarrow> 's \<Rightarrow> 's res" and inv :: "'s \<Rightarrow> bool"
  assumes inv_initial: "initial s \<Longrightarrow> inv s"
    and inv_step: "inv s \<Longrightarrow> step i s = Inr t \<Longrightarrow> inv t"
begin

lemma reach_inv: "reach initial step s \<Longrightarrow> inv s"
  by (induction rule: reach.induct) (auto intro: inv_initial inv_step)

lemma run_inv: "inv s \<Longrightarrow> fold_res (\<lambda>s i. step i s) s is = Inr t \<Longrightarrow> inv t"
proof (induction "is" arbitrary: s)
  case Nil
  then show ?case by simp
next
  case (Cons i "is")
  then show ?case by (auto simp: res_bind_Inr_iff intro: inv_step)
qed

end

section \<open>Simulations\<close>

text \<open>
  A transition system that implements an abstract one, step by step: in states with the invariant, for inputs that are
  \<open>enabled\<close>, it takes the step of the abstract system, and fails exactly when that has none. Whole runs then agree, and every
  state that is reached stands for one that the abstract system reaches.
\<close>

fun abstract_run :: "('i \<Rightarrow> 'a \<Rightarrow> 'a option) \<Rightarrow> 'a \<Rightarrow> 'i list \<Rightarrow> 'a option" where
  "abstract_run astep a [] = Some a"
| "abstract_run astep a (i # is) = (case astep i a of None \<Rightarrow> None | Some b \<Rightarrow> abstract_run astep b is)"

inductive abstract_reach :: "('a \<Rightarrow> bool) \<Rightarrow> ('i \<Rightarrow> 'a \<Rightarrow> 'a option) \<Rightarrow> 'a \<Rightarrow> bool"
  for initial astep where
  abstract_start: "initial a \<Longrightarrow> abstract_reach initial astep a"
| abstract_step: "abstract_reach initial astep a \<Longrightarrow> astep i a = Some b \<Longrightarrow> abstract_reach initial astep b"

locale simulation = transition_system +
  fixes astep :: "'i \<Rightarrow> 'a \<Rightarrow> 'a option" and abs :: "'s \<Rightarrow> 'a" and enabled :: "'i \<Rightarrow> bool"
  assumes sim_fails: "\<lbrakk>inv s; enabled i; astep i (abs s) = None\<rbrakk> \<Longrightarrow> \<exists>e. step i s = Inl e"
    and sim_steps: "\<lbrakk>inv s; enabled i; astep i (abs s) = Some a\<rbrakk> \<Longrightarrow> \<exists>t. step i s = Inr t \<and> abs t = a"
    and returns_enabled: "\<lbrakk>inv s; step i s = Inr t\<rbrakk> \<Longrightarrow> enabled i"
begin

lemma sim_run:
  "\<lbrakk>inv s; list_all enabled is\<rbrakk> \<Longrightarrow>
    (case fold_res (\<lambda>s i. step i s) s is of Inl e \<Rightarrow> None | Inr t \<Rightarrow> Some (abs t)) = abstract_run astep (abs s) is"
proof (induction "is" arbitrary: s)
  case Nil
  then show ?case by simp
next
  case (Cons i "is")
  show ?case
  proof (cases "astep i (abs s)")
    case None
    with sim_fails [of s i] Cons.prems show ?thesis by auto
  next
    case (Some a)
    with sim_steps [of s i a] Cons.prems obtain t where t: "step i s = Inr t" "abs t = a" by auto
    with inv_step [of s i t] Cons.IH [of t] Cons.prems Some show ?thesis by simp
  qed
qed

lemma sim_step_abs: "\<lbrakk>inv s; step i s = Inr t\<rbrakk> \<Longrightarrow> astep i (abs s) = Some (abs t)"
  using sim_fails [of s i] sim_steps [of s i] returns_enabled [of s i t] by (cases "astep i (abs s)") auto

lemma sim_reach:
  "reach initial step s \<Longrightarrow> abstract_reach (\<lambda>a. \<exists>s. initial s \<and> abs s = a) astep (abs s)"
proof (induction rule: reach.induct)
  case (reach_start s)
  then show ?case by (blast intro: abstract_start)
next
  case (reach_step s i t)
  then show ?case by (blast intro: abstract_step sim_step_abs reach_inv)
qed

end

end
