(* ===== verification/Instruction.thy ===== *)
theory Instruction
  imports Opcode Interfaces
begin

text \<open>
  The CHIP-8 instruction set as data. The sources have no such type: \<open>cpu.c\<close> and
  \<open>disassembler.c\<close> each test the opcode against a chain of masks. \<open>instr\<close> is the
  specification both are compared with, \<open>encode\<close> gives every instruction its opcode and
  \<open>decode\<close> reads an opcode back by its hexadecimal digits. The interpretation \<open>isa\<close> of the
  locale \<open>codec\<close> shows that decoding inverts encoding, so that no two instructions share an
  opcode.
\<close>

section \<open>Instructions\<close>

datatype alu =
    Alu_Mov | Alu_Or | Alu_And | Alu_Xor | Alu_Plus | Alu_Minus | Alu_Shr | Alu_Rev_Minus | Alu_Shl

datatype misc =
    Get_Delay | Wait_Key | Set_Delay | Set_Sound | Add_I | Sprite_Addr | Store_Bcd | Dump | Load

datatype instr =
    Clear
  | Return
  | Call u16
  | Goto u16
  | Call_Sub u16
  | If_Eq u8 u8
  | If_Neq u8 u8
  | If_Eq_Reg u8 u8
  | Set_Reg u8 u8
  | Add_Const u8 u8
  | Alu alu u8 u8
  | If_Neq_Reg u8 u8
  | Set_I u16
  | Jump_V0 u16
  | Rand u8 u8
  | Draw u8 u8 u8
  | If_Key u8
  | If_Not_Key u8
  | Misc misc u8

section \<open>Encoding\<close>

fun alu_code :: "alu \<Rightarrow> nat" where
  "alu_code Alu_Mov = 0x0"
| "alu_code Alu_Or = 0x1"
| "alu_code Alu_And = 0x2"
| "alu_code Alu_Xor = 0x3"
| "alu_code Alu_Plus = 0x4"
| "alu_code Alu_Minus = 0x5"
| "alu_code Alu_Shr = 0x6"
| "alu_code Alu_Rev_Minus = 0x7"
| "alu_code Alu_Shl = 0xE"

fun misc_code :: "misc \<Rightarrow> nat" where
  "misc_code Get_Delay = 0x07"
| "misc_code Wait_Key = 0x0A"
| "misc_code Set_Delay = 0x15"
| "misc_code Set_Sound = 0x18"
| "misc_code Add_I = 0x1E"
| "misc_code Sprite_Addr = 0x29"
| "misc_code Store_Bcd = 0x33"
| "misc_code Dump = 0x55"
| "misc_code Load = 0x65"

definition op_addr :: "nat \<Rightarrow> u16 \<Rightarrow> u16" where
  "op_addr d a = word_of_nat (4096 * d + unat a)"

definition op_xk :: "nat \<Rightarrow> u8 \<Rightarrow> nat \<Rightarrow> u16" where
  "op_xk d x k = word_of_nat (4096 * d + 256 * unat x + k)"

definition op_xyn :: "nat \<Rightarrow> u8 \<Rightarrow> u8 \<Rightarrow> nat \<Rightarrow> u16" where
  "op_xyn d x y n = word_of_nat (4096 * d + 256 * unat x + 16 * unat y + n)"

fun encode :: "instr \<Rightarrow> u16" where
  "encode Clear = 0x00E0"
| "encode Return = 0x00EE"
| "encode (Call a) = op_addr 0x0 a"
| "encode (Goto a) = op_addr 0x1 a"
| "encode (Call_Sub a) = op_addr 0x2 a"
| "encode (If_Eq x k) = op_xk 0x3 x (unat k)"
| "encode (If_Neq x k) = op_xk 0x4 x (unat k)"
| "encode (If_Eq_Reg x y) = op_xyn 0x5 x y 0"
| "encode (Set_Reg x k) = op_xk 0x6 x (unat k)"
| "encode (Add_Const x k) = op_xk 0x7 x (unat k)"
| "encode (Alu f x y) = op_xyn 0x8 x y (alu_code f)"
| "encode (If_Neq_Reg x y) = op_xyn 0x9 x y 0"
| "encode (Set_I a) = op_addr 0xA a"
| "encode (Jump_V0 a) = op_addr 0xB a"
| "encode (Rand x k) = op_xk 0xC x (unat k)"
| "encode (Draw x y n) = op_xyn 0xD x y (unat n)"
| "encode (If_Key x) = op_xk 0xE x 0x9E"
| "encode (If_Not_Key x) = op_xk 0xE x 0xA1"
| "encode (Misc f x) = op_xk 0xF x (misc_code f)"

section \<open>Decoding\<close>

definition decode_alu :: "nat \<Rightarrow> alu option" where
  "decode_alu n =
     (if n = 0x0 then Some Alu_Mov else if n = 0x1 then Some Alu_Or
      else if n = 0x2 then Some Alu_And else if n = 0x3 then Some Alu_Xor
      else if n = 0x4 then Some Alu_Plus else if n = 0x5 then Some Alu_Minus
      else if n = 0x6 then Some Alu_Shr else if n = 0x7 then Some Alu_Rev_Minus
      else if n = 0xE then Some Alu_Shl else None)"

definition decode_misc :: "nat \<Rightarrow> misc option" where
  "decode_misc k =
     (if k = 0x07 then Some Get_Delay else if k = 0x0A then Some Wait_Key
      else if k = 0x15 then Some Set_Delay else if k = 0x18 then Some Set_Sound
      else if k = 0x1E then Some Add_I else if k = 0x29 then Some Sprite_Addr
      else if k = 0x33 then Some Store_Bcd else if k = 0x55 then Some Dump
      else if k = 0x65 then Some Load else None)"

text \<open>\<open>decode_digits d n k\<close> chooses by the first digit \<open>d\<close>, the last digit \<open>n\<close> and the last
  two digits \<open>k\<close>.\<close>

definition decode :: "u16 \<Rightarrow> instr option" where
  "decode w =
     (let d = unat w div 4096; k = unat w mod 256; n = unat w mod 16;
          a = opcode_decode_address w;
          x = opcode_decode_register_x w;
          y = opcode_decode_register_y w;
          kk = opcode_decode_const_8bit w in
      if d = 0x0 then
        Some (if w = 0x00E0 then Clear else if w = 0x00EE then Return else Call a)
      else if d = 0x1 then Some (Goto a)
      else if d = 0x2 then Some (Call_Sub a)
      else if d = 0x3 then Some (If_Eq x kk)
      else if d = 0x4 then Some (If_Neq x kk)
      else if d = 0x5 then (if n = 0 then Some (If_Eq_Reg x y) else None)
      else if d = 0x6 then Some (Set_Reg x kk)
      else if d = 0x7 then Some (Add_Const x kk)
      else if d = 0x8 then map_option (\<lambda>f. Alu f x y) (decode_alu n)
      else if d = 0x9 then (if n = 0 then Some (If_Neq_Reg x y) else None)
      else if d = 0xA then Some (Set_I a)
      else if d = 0xB then Some (Jump_V0 a)
      else if d = 0xC then Some (Rand x kk)
      else if d = 0xD then Some (Draw x y (opcode_decode_const_4bit w))
      else if d = 0xE then
        (if k = 0x9E then Some (If_Key x) else if k = 0xA1 then Some (If_Not_Key x) else None)
      else map_option (\<lambda>f. Misc f x) (decode_misc k))"

text \<open>The operands that fit their fields.\<close>

fun instr_valid :: "instr \<Rightarrow> bool" where
  "instr_valid Clear = True"
| "instr_valid Return = True"
| "instr_valid (Call a) = (unat a < 4096 \<and> a \<noteq> 0x00E0 \<and> a \<noteq> 0x00EE)"
| "instr_valid (Goto a) = (unat a < 4096)"
| "instr_valid (Call_Sub a) = (unat a < 4096)"
| "instr_valid (If_Eq x k) = (unat x < 16)"
| "instr_valid (If_Neq x k) = (unat x < 16)"
| "instr_valid (If_Eq_Reg x y) = (unat x < 16 \<and> unat y < 16)"
| "instr_valid (Set_Reg x k) = (unat x < 16)"
| "instr_valid (Add_Const x k) = (unat x < 16)"
| "instr_valid (Alu f x y) = (unat x < 16 \<and> unat y < 16)"
| "instr_valid (If_Neq_Reg x y) = (unat x < 16 \<and> unat y < 16)"
| "instr_valid (Set_I a) = (unat a < 4096)"
| "instr_valid (Jump_V0 a) = (unat a < 4096)"
| "instr_valid (Rand x k) = (unat x < 16)"
| "instr_valid (Draw x y n) = (unat x < 16 \<and> unat y < 16 \<and> unat n < 16)"
| "instr_valid (If_Key x) = (unat x < 16)"
| "instr_valid (If_Not_Key x) = (unat x < 16)"
| "instr_valid (Misc f x) = (unat x < 16)"

section \<open>Round trips\<close>

lemma decode_alu_code [simp]: "decode_alu (alu_code f) = Some f"
  by (cases f) (simp_all add: decode_alu_def)

lemma decode_misc_code [simp]: "decode_misc (misc_code f) = Some f"
  by (cases f) (simp_all add: decode_misc_def)

lemma alu_code_less [simp]: "alu_code f < 16"
  by (cases f) simp_all

lemma misc_code_less [simp]: "misc_code f < 256"
  by (cases f) simp_all

lemma decode_alu_Some: "decode_alu n = Some f \<Longrightarrow> alu_code f = n"
  by (auto simp: decode_alu_def split: if_splits)

lemma decode_misc_Some: "decode_misc n = Some f \<Longrightarrow> misc_code f = n"
  by (auto simp: decode_misc_def split: if_splits)

text \<open>The fields of an encoded opcode.\<close>

lemma fields_op_addr:
  assumes "d < 16" and "unat a < 4096"
  shows "unat (op_addr d a) div 4096 = d" "opcode_decode_address (op_addr d a) = a"
proof -
  have "unat (op_addr d a) = 4096 * d + unat a"
    using assms unfolding op_addr_def by (intro unat_word_of_nat_u16) simp
  then show "unat (op_addr d a) div 4096 = d" "opcode_decode_address (op_addr d a) = a"
    using assms by (simp_all add: word_unat_eq_iff unat_decode)
qed

lemma fields_op_xk:
  assumes "d < 16" and "unat x < 16" and "k < 256"
  shows "unat (op_xk d x k) div 4096 = d" "unat (op_xk d x k) mod 256 = k"
    "opcode_decode_register_x (op_xk d x k) = x"
    "opcode_decode_const_8bit (op_xk d x k) = word_of_nat k"
proof -
  have "unat (op_xk d x k) = 4096 * d + 256 * unat x + k"
    using assms unfolding op_xk_def by (intro unat_word_of_nat_u16) simp
  then have w: "unat (op_xk d x k) = (d * 16 + unat x) * 256 + k" by simp
  have "unat (op_xk d x k) = d * 4096 + (unat x * 256 + k)"
    using w by simp
  moreover have "unat x * 256 + k < 4096" using assms by simp
  ultimately show "unat (op_xk d x k) div 4096 = d"
    by (metis add.commute add.left_neutral div_less div_mult_self1 zero_neq_numeral)
  have low: "unat (op_xk d x k) mod 256 = k" "unat (op_xk d x k) div 256 = d * 16 + unat x"
    using assms(3) by (simp_all only: w mod_mult_self3 div_mult_self3 mod_less div_less add_0_right)
  then show "unat (op_xk d x k) mod 256 = k" "opcode_decode_register_x (op_xk d x k) = x"
    "opcode_decode_const_8bit (op_xk d x k) = word_of_nat k"
    using assms by (simp_all add: word_unat_eq_iff unat_decode unat_of_nat)
qed

lemma fields_op_xyn:
  assumes "d < 16" and "unat x < 16" and "unat y < 16" and "n < 16"
  shows "unat (op_xyn d x y n) div 4096 = d" "unat (op_xyn d x y n) mod 16 = n"
    "opcode_decode_register_x (op_xyn d x y n) = x"
    "opcode_decode_register_y (op_xyn d x y n) = y"
    "opcode_decode_const_4bit (op_xyn d x y n) = word_of_nat n"
proof -
  have "16 * unat y + n < 256" using assms by simp
  then have xk: "op_xyn d x y n = op_xk d x (16 * unat y + n)"
    by (simp add: op_xyn_def op_xk_def add.assoc)
  note f = fields_op_xk [OF assms(1,2) \<open>16 * unat y + n < 256\<close>, folded xk]
  from f(1,3) show "unat (op_xyn d x y n) div 4096 = d"
    "opcode_decode_register_x (op_xyn d x y n) = x" by simp_all
  have low: "unat (op_xyn d x y n) mod 16 = unat (op_xyn d x y n) mod 256 mod 16"
    "unat (op_xyn d x y n) div 16 mod 16 = unat (op_xyn d x y n) mod 256 div 16"
    using mod_mult2_eq [of "unat (op_xyn d x y n)" 16 16] by (simp_all add: mod_mod_cancel)
  from low f(2) assms show "unat (op_xyn d x y n) mod 16 = n"
    "opcode_decode_register_y (op_xyn d x y n) = y"
    "opcode_decode_const_4bit (op_xyn d x y n) = word_of_nat n"
    by (simp_all add: word_unat_eq_iff unat_decode unat_of_nat)
qed

lemma op_addr_0: "op_addr 0 a = a"
  by (simp add: op_addr_def)

lemma decode_encode: "instr_valid i \<Longrightarrow> decode (encode i) = Some i"
  by (cases i)
    (simp_all add: decode_def Let_def fields_op_addr fields_op_xk fields_op_xyn op_addr_0 word_unat_eq_iff
      unat_decode_address unat_word_of_nat_u8)

lemma op_addr_fields: "unat w div 4096 = d \<Longrightarrow> op_addr d (opcode_decode_address w) = w"
  using mult_div_mod_eq [of 4096 "unat w"] by (auto simp: op_addr_def unat_decode)

lemma op_xk_fields:
  assumes "unat w div 4096 = d" and "unat w mod 256 = k"
  shows "op_xk d (opcode_decode_register_x w) k = w"
proof -
  have "4096 * d + 256 * (unat w div 256 mod 16) + k = unat w"
    using assms div_mult2_eq [of "unat w" 256 16, simplified] mult_div_mod_eq [of 256 "unat w"]
      mult_div_mod_eq [of 16 "unat w div 256"] by linarith
  then show ?thesis
    by (simp only: op_xk_def unat_decode) simp
qed

lemma op_xyn_fields:
  assumes "unat w div 4096 = d" and "unat w mod 16 = n"
  shows "op_xyn d (opcode_decode_register_x w) (opcode_decode_register_y w) n = w"
proof -
  have "unat w mod 256 = 16 * (unat w div 16 mod 16) + n"
    using assms(2) mod_mult2_eq [of "unat w" 16 16] by simp
  with op_xk_fields [OF assms(1), of "unat w mod 256"] show ?thesis
    by (simp only: op_xyn_def op_xk_def unat_decode add.assoc)
qed

lemma digit_cases:
  assumes "d < (16 :: nat)"
  obtains "d = 0" | "d = 1" | "d = 2" | "d = 3" | "d = 4" | "d = 5" | "d = 6" | "d = 7"
    | "d = 8" | "d = 9" | "d = 10" | "d = 11" | "d = 12" | "d = 13" | "d = 14" | "d = 15"
proof -
  from assms have "d \<in> set [0..<16]" by simp
  then have "d \<in> {0, 1, 2, 3, 4, 5, 6, 7, 8, 9, 10, 11, 12, 13, 14, 15}"
    by (simp add: upt_rec numeral_eq_Suc)
  with that show ?thesis by blast
qed

lemma decode_address_small: "unat w div 4096 = 0 \<Longrightarrow> opcode_decode_address w = w"
  using op_addr_fields [of w 0] by (simp add: op_addr_0)

lemma top_digit_less [simp]: "unat (w :: u16) div 4096 < 16"
  using unat_u16_less [of w] by (simp add: less_mult_imp_div_less)

lemma encode_decode:
  assumes "decode w = Some i"
  shows "encode i = w" and "instr_valid i"
proof -
  have "unat w div 4096 < 16" by simp
  then have "encode i = w \<and> instr_valid i"
    using assms
    by (cases rule: digit_cases)
      (auto simp: decode_def Let_def op_addr_fields op_xk_fields op_xyn_fields unat_decode
        decode_address_small op_addr_0 div_eq_0_iff
        split: if_splits dest!: decode_alu_Some decode_misc_Some)
  then show "encode i = w" and "instr_valid i" by simp_all
qed

interpretation isa: codec encode decode instr_valid
  by unfold_locales (rule decode_encode)

text \<open>C16: Decoding and encoding are inverse. An opcode decodes to an instruction, read off with the
  functions of \<open>opcode.c\<close>, exactly when the operands of the instruction fit their fields and
  the opcode is its encoding; so no opcode means two instructions and no operand is lost.\<close>

theorem decode_iff_encode: "decode w = Some i \<longleftrightarrow> instr_valid i \<and> encode i = w"
  using encode_decode isa.dec_enc by blast

end
