(* ===== verification/Memory.thy ===== *)
theory Memory
  imports Prelude
begin

text \<open>
  The 4 KB memory of the emulated machine (\<open>memory.h\<close>, \<open>memory.c\<close>): its size, the place of
  programs, the font sprites, \<open>memory_init\<close> and the address of a sprite. The memory is the
  list of its bytes.
\<close>

section \<open>Constants and operations\<close>

definition MEMORY_SIZE :: nat where
  "MEMORY_SIZE = 4 * 1024"

definition MEMORY_PROGRAM_STARTING_ADDRESS :: u16 where
  "MEMORY_PROGRAM_STARTING_ADDRESS = 0x0200"

definition FONT_SPRITE_SIZE :: nat where
  "FONT_SPRITE_SIZE = 5"

definition FONT_MEM_ADDRESS :: nat where
  "FONT_MEM_ADDRESS = 0x0000"

definition FONT_COUNT :: nat where
  "FONT_COUNT = 16"

definition font_sprites :: "u8 list" where
  "font_sprites =
    [0xF0, 0x90, 0x90, 0x90, 0xF0,
     0x20, 0x60, 0x20, 0x20, 0x70,
     0xF0, 0x10, 0xF0, 0x80, 0xF0,
     0xF0, 0x10, 0xF0, 0x10, 0xF0,
     0x90, 0x90, 0xF0, 0x10, 0x10,
     0xF0, 0x80, 0xF0, 0x10, 0xF0,
     0xF0, 0x80, 0xF0, 0x90, 0xF0,
     0xF0, 0x10, 0x20, 0x40, 0x40,
     0xF0, 0x90, 0xF0, 0x90, 0xF0,
     0xF0, 0x90, 0xF0, 0x10, 0xF0,
     0xF0, 0x90, 0xF0, 0x90, 0x90,
     0xE0, 0x90, 0xE0, 0x90, 0xE0,
     0xF0, 0x80, 0x80, 0x80, 0xF0,
     0xE0, 0x90, 0x90, 0x90, 0xE0,
     0xF0, 0x80, 0xF0, 0x80, 0xF0,
     0xF0, 0x80, 0xF0, 0x80, 0x80]"

definition load_font_sprites :: "u8 list \<Rightarrow> u8 list res" where
  "load_font_sprites mem = arr_copy mem FONT_MEM_ADDRESS font_sprites"

definition memory_init :: "u8 list \<Rightarrow> u8 list res" where
  "memory_init mem =
     res_bind (arr_copy mem 0 (replicate MEMORY_SIZE 0)) (\<lambda>mem.
     load_font_sprites mem)"

definition memory_address_from_sprite_value :: "u8 \<Rightarrow> u16" where
  "memory_address_from_sprite_value sprite_value =
     word_of_nat (FONT_MEM_ADDRESS + unat sprite_value * FONT_SPRITE_SIZE)"

section \<open>Properties\<close>

lemma length_font_sprites [simp]: "length font_sprites = 80"
  by (simp add: font_sprites_def)

text \<open>The assertion of \<open>load_font_sprites\<close> at compile time.\<close>

lemma font_sprites_size: "length font_sprites = FONT_COUNT * FONT_SPRITE_SIZE"
  by (simp add: FONT_COUNT_def FONT_SPRITE_SIZE_def)

lemma memory_init_eq:
  "length mem = MEMORY_SIZE \<Longrightarrow>
     memory_init mem = Inr (font_sprites @ replicate (MEMORY_SIZE - 80) 0)"
  by (simp add: memory_init_def load_font_sprites_def arr_copy_def FONT_MEM_ADDRESS_def
      MEMORY_SIZE_def)

lemma unat_sprite_address:
  "unat (memory_address_from_sprite_value v) = 5 * unat v"
proof -
  have "5 * unat v < 2 ^ 16"
  proof -
    have "unat v < 256" by simp
    then have "5 * unat v < 65536" by linarith
    then show ?thesis by simp
  qed
  then show ?thesis
    by (simp add: memory_address_from_sprite_value_def FONT_MEM_ADDRESS_def
        FONT_SPRITE_SIZE_def unat_word_ariths mult.commute)
qed

text \<open>For each of the sixteen digits the address is that of the five bytes of its sprite.\<close>

lemma sprite_bytes_in_font:
  assumes "length mem = MEMORY_SIZE" and "memory_init mem = Inr mem'"
    and "unat v < FONT_COUNT" and "k < FONT_SPRITE_SIZE"
  shows "unat (memory_address_from_sprite_value v) + k < length mem'"
    and "mem' ! (unat (memory_address_from_sprite_value v) + k) = font_sprites ! (5 * unat v + k)"
proof -
  have mem': "mem' = font_sprites @ replicate (MEMORY_SIZE - 80) 0"
    using assms(1,2) by (simp add: memory_init_eq)
  have bound: "5 * unat v + k < 80"
    using assms(3,4) by (simp add: FONT_COUNT_def FONT_SPRITE_SIZE_def)
  then show "unat (memory_address_from_sprite_value v) + k < length mem'"
    by (simp add: mem' unat_sprite_address MEMORY_SIZE_def)
  show "mem' ! (unat (memory_address_from_sprite_value v) + k) = font_sprites ! (5 * unat v + k)"
    using bound by (simp add: mem' unat_sprite_address nth_append)
qed

end
