(* ===== verification/Timer.thy ===== *)
theory Timer
  imports Prelude
begin

text \<open>
  The delay and sound timers (\<open>timer.h\<close>, \<open>timer.c\<close>). The clock \<open>SDL_GetTicks64\<close> is an
  input: each operation that reads it takes the milliseconds it returns. The loop of
  \<open>timer_update\<close> that ticks \<open>ticks_count\<close> times is \<open>timer_ticks\<close>.
\<close>

section \<open>State and operations\<close>

record timer =
  last_tick_timestamp_ms :: u64
  timer_value :: u8

definition CLOCK_FREQUENCY_HZ :: u64 where
  "CLOCK_FREQUENCY_HZ = 60"

definition CLOCK_TIMEUP_DURATION_MS :: u64 where
  "CLOCK_TIMEUP_DURATION_MS = 1 * 1000 div CLOCK_FREQUENCY_HZ"

definition timer_init :: timer where
  "timer_init = \<lparr>last_tick_timestamp_ms = 0, timer_value = 0\<rparr>"

definition timer_start :: "u64 \<Rightarrow> timer \<Rightarrow> timer" where
  "timer_start now t = t\<lparr>last_tick_timestamp_ms := now\<rparr>"

definition timer_is_active :: "timer \<Rightarrow> bool" where
  "timer_is_active t \<longleftrightarrow> timer_value t > 0"

definition timer_tick :: "timer \<Rightarrow> timer" where
  "timer_tick t = (if timer_value t > 0 then t\<lparr>timer_value := timer_value t - 1\<rparr> else t)"

fun timer_ticks :: "nat \<Rightarrow> timer \<Rightarrow> timer" where
  "timer_ticks 0 t = t"
| "timer_ticks (Suc ticks_count) t = timer_ticks ticks_count (timer_tick t)"

definition timer_update :: "u64 \<Rightarrow> timer \<Rightarrow> timer" where
  "timer_update now t =
     (if \<not> timer_is_active t then t
      else let elapsed_time_ms = now - last_tick_timestamp_ms t in
        if elapsed_time_ms < CLOCK_TIMEUP_DURATION_MS then t
        else timer_ticks (unat (elapsed_time_ms div CLOCK_TIMEUP_DURATION_MS)) t)"

definition timer_get_value :: "timer \<Rightarrow> u8" where
  "timer_get_value t = timer_value t"

definition timer_set_value :: "timer \<Rightarrow> u8 \<Rightarrow> timer" where
  "timer_set_value t v = t\<lparr>timer_value := v\<rparr>"

section \<open>Properties\<close>

lemma timeup_is_16 [simp]: "CLOCK_TIMEUP_DURATION_MS = 16"
  by (simp add: CLOCK_TIMEUP_DURATION_MS_def CLOCK_FREQUENCY_HZ_def)

lemma unat_timer_tick: "unat (timer_value (timer_tick t)) = unat (timer_value t) - 1"
proof (cases "timer_value t > 0")
  case True
  then show ?thesis
    by (simp add: timer_tick_def unat_minus_one word_neq_0_conv)
next
  case False
  then have "timer_value t = 0"
    by (metis word_neq_0_conv)
  then show ?thesis by (simp add: timer_tick_def)
qed

lemma timer_tick_timestamp [simp]:
  "last_tick_timestamp_ms (timer_tick t) = last_tick_timestamp_ms t"
  by (simp add: timer_tick_def)

lemma timer_ticks_timestamp [simp]:
  "last_tick_timestamp_ms (timer_ticks n t) = last_tick_timestamp_ms t"
  by (induction n arbitrary: t) simp_all

lemma unat_timer_ticks: "unat (timer_value (timer_ticks n t)) = unat (timer_value t) - n"
  by (induction n arbitrary: t) (simp_all add: unat_timer_tick)

lemma timer_update_timestamp [simp]:
  "last_tick_timestamp_ms (timer_update now t) = last_tick_timestamp_ms t"
  by (simp add: timer_update_def Let_def)

text \<open>An update subtracts one for each whole period of 16 ms since the timer was started,
  stopping at zero.\<close>

lemma unat_timer_update:
  "unat (timer_value (timer_update now t)) =
     unat (timer_value t) - unat (now - last_tick_timestamp_ms t) div 16"
proof (cases "timer_is_active t")
  case True
  then show ?thesis
    by (auto simp: timer_update_def Let_def unat_timer_ticks unat_div word_less_nat_alt)
next
  case False
  then have "timer_value t = 0"
    by (metis timer_is_active_def word_neq_0_conv)
  with False show ?thesis
    by (simp add: timer_update_def)
qed

text \<open>C15: What \<open>timer_update\<close> computes, and its flaw. Called \<open>n\<close> times at one moment, it
  subtracts \<open>n\<close> times the number of whole periods of 16 ms since the timer was started,
  stopping at zero, because it never moves the time stamp: the timer runs down by the number of
  calls instead of with time.\<close>

theorem timer_updates_at_one_moment:
  "unat (timer_value ((timer_update now ^^ n) t)) =
     unat (timer_value t) - n * (unat (now - last_tick_timestamp_ms t) div 16)"
proof -
  have "unat (timer_value ((timer_update now ^^ n) t)) =
        unat (timer_value t) - n * (unat (now - last_tick_timestamp_ms t) div 16) \<and>
      last_tick_timestamp_ms ((timer_update now ^^ n) t) = last_tick_timestamp_ms t"
    by (induction n) (simp_all add: unat_timer_update)
  then show ?thesis ..
qed

end
