(* ===== verification/Keyboard.thy ===== *)
theory Keyboard
  imports Prelude
begin

text \<open>
  The sixteen-key keyboard (\<open>keyboard.h\<close>, \<open>keyboard.c\<close>). The array that
  \<open>SDL_GetKeyboardState\<close> returns is an input of every operation: the state, zero or one, of
  each of the scan codes the key map names. A key value past the end of \<open>keymap\<close> is a read
  out of bounds.
\<close>

section \<open>State and operations\<close>

datatype scancode =
    SDL_SCANCODE_1 | SDL_SCANCODE_2 | SDL_SCANCODE_3 | SDL_SCANCODE_4
  | SDL_SCANCODE_Q | SDL_SCANCODE_W | SDL_SCANCODE_E | SDL_SCANCODE_R
  | SDL_SCANCODE_A | SDL_SCANCODE_S | SDL_SCANCODE_D | SDL_SCANCODE_F
  | SDL_SCANCODE_Z | SDL_SCANCODE_X | SDL_SCANCODE_C | SDL_SCANCODE_V

type_synonym keyboard_state = "scancode \<Rightarrow> u8"

definition KEYBOARD_KEYS_COUNT :: nat where
  "KEYBOARD_KEYS_COUNT = 16"

definition keymap :: "scancode list" where
  "keymap =
    [SDL_SCANCODE_X, SDL_SCANCODE_1, SDL_SCANCODE_2, SDL_SCANCODE_3,
     SDL_SCANCODE_Q, SDL_SCANCODE_W, SDL_SCANCODE_E,
     SDL_SCANCODE_A, SDL_SCANCODE_S, SDL_SCANCODE_D,
     SDL_SCANCODE_Z, SDL_SCANCODE_C, SDL_SCANCODE_4,
     SDL_SCANCODE_R, SDL_SCANCODE_F, SDL_SCANCODE_V]"

definition keyboard_is_key_pressed :: "keyboard_state \<Rightarrow> u8 \<Rightarrow> bool res" where
  "keyboard_is_key_pressed keyboard_state kb_value =
     res_bind (arr_get keymap (unat kb_value)) (\<lambda>key_scan_code.
     Inr (keyboard_state key_scan_code = 1))"

text \<open>The loop over the key values, \<open>n\<close> of which are still to be tried; \<open>None\<close> is the
  result \<open>false\<close>, where the out parameter is not written.\<close>

fun get_pressed_key_loop :: "keyboard_state \<Rightarrow> nat \<Rightarrow> nat \<Rightarrow> u8 option res" where
  "get_pressed_key_loop keyboard_state k 0 = Inr None"
| "get_pressed_key_loop keyboard_state k (Suc n) =
     res_bind (arr_get keymap k) (\<lambda>key_scan_code.
     if keyboard_state key_scan_code = 1 then Inr (Some (word_of_nat k))
     else get_pressed_key_loop keyboard_state (Suc k) n)"

definition keyboard_get_pressed_key :: "keyboard_state \<Rightarrow> u8 option res" where
  "keyboard_get_pressed_key keyboard_state =
     get_pressed_key_loop keyboard_state 0 KEYBOARD_KEYS_COUNT"

section \<open>Properties\<close>

lemma length_keymap [simp]: "length keymap = 16"
  by (simp add: keymap_def)

lemma distinct_keymap: "distinct keymap"
  by (simp add: keymap_def)

lemma keymap_onto: "c \<in> set keymap"
  by (cases c) (simp_all add: keymap_def)

text \<open>The sixteen keys and the sixteen scan codes correspond one to one.\<close>

lemma keymap_bij: "\<exists>!k. k < 16 \<and> keymap ! k = c"
proof -
  obtain k where k: "k < 16" "keymap ! k = c"
    using keymap_onto [of c] by (auto simp: in_set_conv_nth)
  show ?thesis
  proof (rule ex1I [of _ k])
    show "k < 16 \<and> keymap ! k = c" using k by simp
  next
    fix j
    assume "j < 16 \<and> keymap ! j = c"
    with k show "j = k"
      using nth_eq_iff_index_eq [OF distinct_keymap, of j k] by simp
  qed
qed

lemma wp_is_key_pressed [wp_simps]:
  "wp (keyboard_is_key_pressed ks v) Q E =
     ((unat v < 16 \<longrightarrow> Q (ks (keymap ! unat v) = 1)) \<and> (16 \<le> unat v \<longrightarrow> E Out_Of_Bounds))"
  by (auto simp: keyboard_is_key_pressed_def wp_rules)

lemma get_pressed_key_loop_spec:
  "k + n = 16 \<Longrightarrow>
     (case get_pressed_key_loop ks k n of
        Inl e \<Rightarrow> False
      | Inr None \<Rightarrow> (\<forall>j. k \<le> j \<and> j < 16 \<longrightarrow> ks (keymap ! j) \<noteq> 1)
      | Inr (Some v) \<Rightarrow> k \<le> unat v \<and> unat v < 16 \<and> ks (keymap ! unat v) = 1 \<and>
          (\<forall>j. k \<le> j \<and> j < unat v \<longrightarrow> ks (keymap ! j) \<noteq> 1))"
proof (induction n arbitrary: k)
  case 0
  then show ?case by auto
next
  case (Suc n)
  then have k: "k < 16" by simp
  then have "unat (word_of_nat k :: u8) = k"
    by (simp add: unat_of_nat)
  moreover have "k \<le> j \<longleftrightarrow> j = k \<or> Suc k \<le> j" for j
    by auto
  ultimately show ?case
    using Suc.IH [of "Suc k"] Suc.prems k
    by (auto split: sum.splits option.splits simp: le_Suc_eq)
qed

lemma keyboard_get_pressed_key_spec:
  "case keyboard_get_pressed_key ks of
     Inl e \<Rightarrow> False
   | Inr None \<Rightarrow> \<forall>j<16. ks (keymap ! j) \<noteq> 1
   | Inr (Some v) \<Rightarrow> unat v < 16 \<and> ks (keymap ! unat v) = 1 \<and>
       (\<forall>j<unat v. ks (keymap ! j) \<noteq> 1)"
  using get_pressed_key_loop_spec [of 0 16 ks]
  by (simp add: keyboard_get_pressed_key_def KEYBOARD_KEYS_COUNT_def split: sum.splits option.splits)

lemma wp_get_pressed_key:
  "(\<And>v. unat v < 16 \<Longrightarrow> Q (Some v)) \<Longrightarrow> Q None \<Longrightarrow> wp (keyboard_get_pressed_key ks) Q E"
  using keyboard_get_pressed_key_spec [of ks]
  by (cases "keyboard_get_pressed_key ks") (auto split: option.splits)

end
