(* ===== verification/Display.thy ===== *)
theory Display
  imports Opcode
begin

text \<open>
  The display (\<open>display.h\<close>, \<open>display.c\<close>): the buffer of 64 by 32 pixels, \<open>display_clear\<close>,
  \<open>display_draw_sprite\<close> and \<open>display_render\<close>, whose calls to SDL are listed in order. The
  window and the renderer are SDL objects and are not part of the state.

  A sprite is read through a pointer into the memory: the model takes the memory and the
  index the pointer stands for, and each byte read is checked against the end of the memory.
\<close>

section \<open>State and operations\<close>

definition DISPLAY_WIDTH :: nat where
  "DISPLAY_WIDTH = 64"

definition DISPLAY_HEIGHT :: nat where
  "DISPLAY_HEIGHT = 32"

definition DISPLAY_SCALE :: nat where
  "DISPLAY_SCALE = 10"

type_synonym pixels = "bool list list"

definition pixel_get :: "pixels \<Rightarrow> nat \<Rightarrow> nat \<Rightarrow> bool res" where
  "pixel_get buffer i j = res_bind (arr_get buffer i) (\<lambda>column. arr_get column j)"

definition pixel_set :: "pixels \<Rightarrow> nat \<Rightarrow> nat \<Rightarrow> bool \<Rightarrow> pixels res" where
  "pixel_set buffer i j p =
     res_bind (arr_get buffer i) (\<lambda>column.
     res_bind (arr_set column j p) (\<lambda>column.
     arr_set buffer i column))"

definition display_clear :: "pixels \<Rightarrow> pixels" where
  "display_clear buffer = replicate DISPLAY_WIDTH (replicate DISPLAY_HEIGHT False)"

text \<open>Whether \<open>SDL_Init\<close> and \<open>SDL_CreateWindowAndRenderer\<close> succeed is an input.\<close>

definition init_sdl :: "bool \<Rightarrow> bool \<Rightarrow> pixels \<Rightarrow> pixels res" where
  "init_sdl sdl_init_ok create_ok buffer =
     (if \<not> sdl_init_ok then c_exit ''error: sdl2: init failed''
      else if \<not> create_ok
        then c_exit ''error: machine: failed to create SDL window and renderer''
      else Inr (display_clear buffer))"

definition display_init :: "bool \<Rightarrow> bool \<Rightarrow> pixels \<Rightarrow> pixels res" where
  "display_init sdl_init_ok create_ok buffer =
     res_bind (init_sdl sdl_init_ok create_ok buffer) (\<lambda>buffer.
     Inr (display_clear buffer))"

text \<open>The inner loop of \<open>display_draw_sprite\<close>: \<open>Suc b\<close> bits of the byte are left, the
  next one of order \<open>b\<close>.\<close>

fun draw_bits :: "u8 \<Rightarrow> nat \<Rightarrow> nat \<Rightarrow> nat \<Rightarrow> nat \<Rightarrow> pixels \<Rightarrow> bool \<Rightarrow> (pixels \<times> bool) res" where
  "draw_bits sprite_byte pixel_x pixel_y offset_x 0 buffer pixel_erased = Inr (buffer, pixel_erased)"
| "draw_bits sprite_byte pixel_x pixel_y offset_x (Suc b) buffer pixel_erased =
     res_bind (bit_is_set sprite_byte b) (\<lambda>new_pixel.
     res_bind (pixel_get buffer ((pixel_x + offset_x) mod DISPLAY_WIDTH) pixel_y) (\<lambda>current_pixel.
     res_bind (pixel_set buffer ((pixel_x + offset_x) mod DISPLAY_WIDTH) pixel_y
         (current_pixel \<noteq> new_pixel)) (\<lambda>buffer.
     draw_bits sprite_byte pixel_x pixel_y (Suc offset_x) b buffer
       (pixel_erased \<or> current_pixel \<and> \<not> new_pixel))))"

text \<open>The outer loop: \<open>n\<close> bytes of the sprite are left, the next one at index \<open>addr\<close>.\<close>

fun draw_rows :: "u8 list \<Rightarrow> nat \<Rightarrow> nat \<Rightarrow> nat \<Rightarrow> nat \<Rightarrow> pixels \<Rightarrow> bool \<Rightarrow> (pixels \<times> bool) res" where
  "draw_rows mem addr pixel_x pixel_y 0 buffer pixel_erased = Inr (buffer, pixel_erased)"
| "draw_rows mem addr pixel_x pixel_y (Suc n) buffer pixel_erased =
     res_bind (arr_get mem addr) (\<lambda>sprite_byte.
     res_bind (draw_bits sprite_byte pixel_x pixel_y 0 8 buffer pixel_erased)
       (\<lambda>(buffer, pixel_erased).
     draw_rows mem (Suc addr) pixel_x ((pixel_y + 1) mod DISPLAY_HEIGHT) n buffer pixel_erased))"

definition display_draw_sprite ::
    "pixels \<Rightarrow> u8 \<Rightarrow> u8 \<Rightarrow> u8 list \<Rightarrow> nat \<Rightarrow> u8 \<Rightarrow> (pixels \<times> bool) res" where
  "display_draw_sprite buffer x y mem sprite sprite_len =
     draw_rows mem sprite (unat x mod DISPLAY_WIDTH) (unat y mod DISPLAY_HEIGHT)
       (unat sprite_len) buffer False"

text \<open>The rendering calls: set a colour, clear, and fill the rectangle at a position whose
  sides are \<open>DISPLAY_SCALE\<close> long.\<close>

datatype alpha = Alpha nat | SDL_ALPHA_OPAQUE

datatype render_call =
    SetRenderDrawColor nat nat nat alpha
  | RenderClear
  | RenderFillRect nat nat nat nat

definition render_pixel :: "pixels \<Rightarrow> nat \<Rightarrow> nat \<Rightarrow> render_call list res" where
  "render_pixel buffer i j =
     res_bind (pixel_get buffer i j) (\<lambda>pixel.
     let rect = RenderFillRect (i * DISPLAY_SCALE + 0 * DISPLAY_SCALE) (j * DISPLAY_SCALE)
                  DISPLAY_SCALE DISPLAY_SCALE in
     Inr (if pixel then [SetRenderDrawColor 255 255 255 SDL_ALPHA_OPAQUE, rect]
          else [SetRenderDrawColor 0 0 0 SDL_ALPHA_OPAQUE, rect]))"

fun render_loop :: "pixels \<Rightarrow> (nat \<times> nat) list \<Rightarrow> render_call list res" where
  "render_loop buffer [] = Inr []"
| "render_loop buffer ((i, j) # ps) =
     res_bind (render_pixel buffer i j) (\<lambda>cs.
     res_bind (render_loop buffer ps) (\<lambda>cs'. Inr (cs @ cs')))"

definition display_render :: "pixels \<Rightarrow> render_call list res" where
  "display_render buffer =
     res_bind (render_loop buffer (List.product [0..<DISPLAY_WIDTH] [0..<DISPLAY_HEIGHT]))
       (\<lambda>cs. Inr ([SetRenderDrawColor 0 0 0 (Alpha 0), RenderClear] @ cs))"

text \<open>All calls to SDL that the emulator makes after its start. Presenting shows what was drawn since the last
  time; the three calls of \<open>display_free\<close> release the window.\<close>

datatype sdl_call =
    Rendering render_call
  | RenderPresent
  | Delay u32
  | DestroyRenderer
  | DestroyWindow
  | Quit_SDL

definition display_render_flush :: "sdl_call list" where
  "display_render_flush = [RenderPresent]"

definition display_free :: "sdl_call list" where
  "display_free = [DestroyRenderer, DestroyWindow, Quit_SDL]"

text \<open>Well-formed buffers, and the pixel of a buffer.\<close>

definition display_wf :: "pixels \<Rightarrow> bool" where
  "display_wf buffer \<longleftrightarrow>
     length buffer = DISPLAY_WIDTH \<and> (\<forall>column \<in> set buffer. length column = DISPLAY_HEIGHT)"

definition px :: "pixels \<Rightarrow> nat \<Rightarrow> nat \<Rightarrow> bool" where
  "px buffer c r = buffer ! c ! r"

text \<open>What a sprite puts on the screen. Drawn at \<open>(x, y)\<close>, its bit for column \<open>c\<close> and row
  \<open>r\<close> is that of the column and the row as many steps from \<open>(x, y)\<close>, wrapped around both
  edges.\<close>

definition col_offset :: "nat \<Rightarrow> nat \<Rightarrow> nat" where
  "col_offset x c = (c + 64 - x) mod 64"

definition row_offset :: "nat \<Rightarrow> nat \<Rightarrow> nat" where
  "row_offset y r = (r + 32 - y) mod 32"

definition sprite_covers :: "nat \<Rightarrow> nat \<Rightarrow> nat \<Rightarrow> nat \<Rightarrow> nat \<Rightarrow> bool" where
  "sprite_covers x y len c r \<longleftrightarrow> col_offset x c < 8 \<and> row_offset y r < len"

definition sprite_bit :: "u8 list \<Rightarrow> nat \<Rightarrow> nat \<Rightarrow> nat \<Rightarrow> nat \<Rightarrow> nat \<Rightarrow> nat \<Rightarrow> bool" where
  "sprite_bit mem addr x y len c r \<longleftrightarrow>
     sprite_covers x y len c r \<and> bit (mem ! (addr + row_offset y r)) (7 - col_offset x c)"

section \<open>Pixels\<close>

lemmas display_dims = DISPLAY_WIDTH_def DISPLAY_HEIGHT_def

lemma display_wf_column: "display_wf b \<Longrightarrow> c < 64 \<Longrightarrow> length (b ! c) = 32"
  by (simp add: display_wf_def display_dims)

lemma display_wf_length: "display_wf b \<Longrightarrow> length b = 64"
  by (simp add: display_wf_def display_dims)

lemma display_clear_wf [simp]: "display_wf (display_clear b)"
  by (simp add: display_wf_def display_clear_def)

lemma px_clear: "c < 64 \<Longrightarrow> r < 32 \<Longrightarrow> \<not> px (display_clear b) c r"
  by (simp add: px_def display_clear_def display_dims)

lemma pixel_get_ok: "display_wf b \<Longrightarrow> c < 64 \<Longrightarrow> r < 32 \<Longrightarrow> pixel_get b c r = Inr (px b c r)"
  by (simp add: pixel_get_def px_def display_wf_length display_wf_column)

lemma pixel_set_ok:
  assumes "display_wf b" and "c < 64" and "r < 32"
  shows "\<exists>b'. pixel_set b c r v = Inr b' \<and> display_wf b' \<and>
    (\<forall>c' r'. c' < 64 \<longrightarrow> r' < 32 \<longrightarrow> px b' c' r' = (if c' = c \<and> r' = r then v else px b c' r'))"
proof -
  have "pixel_set b c r v = Inr (b[c := (b ! c)[r := v]])"
    using assms by (simp add: pixel_set_def display_wf_length display_wf_column)
  moreover have "display_wf (b[c := (b ! c)[r := v]])"
    using assms set_update_subset_insert [of b c "(b ! c)[r := v]"]
    by (auto simp: display_wf_def display_dims)
  moreover have "px (b[c := (b ! c)[r := v]]) c' r' = (if c' = c \<and> r' = r then v else px b c' r')"
    if "c' < 64" "r' < 32" for c' r'
    using assms that by (auto simp: px_def nth_list_update display_wf_length display_wf_column)
  ultimately show ?thesis by blast
qed

lemma px_eqI:
  assumes "display_wf a" and "display_wf b" and "\<And>c r. c < 64 \<Longrightarrow> r < 32 \<Longrightarrow> px a c r = px b c r"
  shows "a = b"
proof (rule nth_equalityI)
  show "length a = length b" using assms by (simp add: display_wf_length)
next
  fix c assume "c < length a"
  then have c: "c < 64" using assms(1) by (simp add: display_wf_length)
  show "a ! c = b ! c"
  proof (rule nth_equalityI)
    show "length (a ! c) = length (b ! c)" using assms c by (simp add: display_wf_column)
  next
    fix r assume "r < length (a ! c)"
    then have "r < 32" using assms(1) c by (simp add: display_wf_column)
    with assms(3) [OF c] show "a ! c ! r = b ! c ! r" by (simp add: px_def)
  qed
qed

section \<open>Drawing\<close>

lemma wrap_offset:
  assumes "x < m" and "off < m"
  shows "((x + off) mod m + m - x) mod m = (off :: nat)"
proof (cases "x + off < m")
  case True
  then show ?thesis using assms by simp
next
  case False
  then have "(x + off) mod m = x + off - m"
    using assms by (simp add: mod_if)
  with False assms show ?thesis by simp
qed

lemma wrap_offset_iff:
  assumes "x < m" and "off < m" and "c < m"
  shows "(c + m - x) mod m = off \<longleftrightarrow> c = (x + off) mod (m :: nat)"
proof
  assume off: "(c + m - x) mod m = off"
  show "c = (x + off) mod m"
  proof (cases "x \<le> c")
    case True
    then have "(c + m - x) mod m = c - x" using assms by (simp add: mod_if)
    with off True assms show ?thesis by simp
  next
    case False
    then have "(c + m - x) mod m = c + m - x" using assms by simp
    with off False assms have "x + off = c + m" by simp
    with assms show ?thesis by simp
  qed
next
  assume "c = (x + off) mod m"
  with wrap_offset [OF assms(1,2)] show "(c + m - x) mod m = off" by simp
qed

lemma col_offset_iff:
  "x < 64 \<Longrightarrow> off < 64 \<Longrightarrow> c < 64 \<Longrightarrow> col_offset x c = off \<longleftrightarrow> c = (x + off) mod 64"
  by (simp add: col_offset_def wrap_offset_iff)

lemma row_offset_iff:
  "y < 32 \<Longrightarrow> off < 32 \<Longrightarrow> r < 32 \<Longrightarrow> row_offset y r = off \<longleftrightarrow> r = (y + off) mod 32"
  by (simp add: row_offset_def wrap_offset_iff)

text \<open>One bit: it is XORed into the pixel it falls on.\<close>

lemma draw_bits_Suc:
  assumes "x < 64" and "y < 32" and "display_wf buf" and "off + Suc n = 8"
  obtains buf1 where
    "draw_bits byte x y off (Suc n) buf er =
       draw_bits byte x y (Suc off) n buf1 (er \<or> px buf ((x + off) mod 64) y \<and> \<not> bit byte n)"
    and "display_wf buf1"
    and "\<And>c r. c < 64 \<Longrightarrow> r < 32 \<Longrightarrow>
       px buf1 c r = (px buf c r \<noteq> (r = y \<and> col_offset x c = off \<and> bit byte n))"
proof -
  let ?c0 = "(x + off) mod 64"
  let ?new = "px buf ?c0 y \<noteq> bit byte n"
  obtain buf1 where buf1: "pixel_set buf ?c0 y ?new = Inr buf1" "display_wf buf1"
      and px1: "\<And>c r. c < 64 \<Longrightarrow> r < 32 \<Longrightarrow>
        px buf1 c r = (if c = ?c0 \<and> r = y then ?new else px buf c r)"
    using pixel_set_ok [OF assms(3) _ assms(2), of ?c0 ?new] by auto
  have "draw_bits byte x y off (Suc n) buf er =
      draw_bits byte x y (Suc off) n buf1 (er \<or> px buf ?c0 y \<and> \<not> bit byte n)"
    using buf1(1) assms(4) pixel_get_ok [OF assms(3) _ assms(2), of ?c0]
    by (simp add: bit_is_set_iff DISPLAY_WIDTH_def)
  moreover have "px buf1 c r = (px buf c r \<noteq> (r = y \<and> col_offset x c = off \<and> bit byte n))"
    if "c < 64" "r < 32" for c r
    using px1 [OF that] col_offset_iff [of x off c] assms that by auto
  ultimately show thesis
    using buf1(2) by (intro that)
qed

text \<open>One byte: the pixels of row \<open>y\<close> from the offset on are XORed with the bits of the byte,
  the most significant first.\<close>

lemma draw_bits_spec:
  assumes "x < 64" and "y < 32"
  shows "display_wf buf \<Longrightarrow> off + n = 8 \<Longrightarrow>
    \<exists>buf'. draw_bits byte x y off n buf er =
        Inr (buf', er \<or> (\<exists>c<64. off \<le> col_offset x c \<and> col_offset x c < 8 \<and>
               px buf c y \<and> \<not> bit byte (7 - col_offset x c))) \<and>
      display_wf buf' \<and>
      (\<forall>c r. c < 64 \<longrightarrow> r < 32 \<longrightarrow> px buf' c r =
         (px buf c r \<noteq> (r = y \<and> off \<le> col_offset x c \<and> col_offset x c < 8 \<and>
            bit byte (7 - col_offset x c))))"
proof (induction n arbitrary: off buf er)
  case 0
  then show ?case by auto
next
  case (Suc n)
  let ?c0 = "(x + off) mod 64"
  let ?er = "er \<or> px buf ?c0 y \<and> \<not> bit byte n"
  have n: "n = 7 - off" "off < 8" using Suc.prems(2) by simp_all
  obtain buf1 where
      rec: "draw_bits byte x y off (Suc n) buf er = draw_bits byte x y (Suc off) n buf1 ?er"
      and wf1: "display_wf buf1"
      and px1: "\<And>c r. c < 64 \<Longrightarrow> r < 32 \<Longrightarrow>
        px buf1 c r = (px buf c r \<noteq> (r = y \<and> col_offset x c = off \<and> bit byte n))"
    using draw_bits_Suc [OF assms Suc.prems] by blast
  have k0: "col_offset x ?c0 = off" using col_offset_iff [of x off ?c0] assms(1) n(2) by simp
  have le: "off \<le> k \<longleftrightarrow> k = off \<or> Suc off \<le> k" for k by auto
  from Suc.IH [of buf1 "Suc off" ?er] wf1 Suc.prems(2) obtain buf' where
      ih: "draw_bits byte x y (Suc off) n buf1 ?er =
        Inr (buf', ?er \<or> (\<exists>c<64. Suc off \<le> col_offset x c \<and> col_offset x c < 8 \<and>
          px buf1 c y \<and> \<not> bit byte (7 - col_offset x c)))" "display_wf buf'"
    and px': "\<And>c r. c < 64 \<Longrightarrow> r < 32 \<Longrightarrow> px buf' c r =
         (px buf1 c r \<noteq> (r = y \<and> Suc off \<le> col_offset x c \<and> col_offset x c < 8 \<and>
            bit byte (7 - col_offset x c)))"
    by auto
  have "(?er \<or> (\<exists>c<64. Suc off \<le> col_offset x c \<and> col_offset x c < 8 \<and>
          px buf1 c y \<and> \<not> bit byte (7 - col_offset x c))) =
      (er \<or> (\<exists>c<64. off \<le> col_offset x c \<and> col_offset x c < 8 \<and>
               px buf c y \<and> \<not> bit byte (7 - col_offset x c)))"
    using px1 [OF _ assms(2)] col_offset_iff [OF assms(1), of off] k0 n le
    by (auto; metis mod_less_divisor n_not_Suc_n not_less_eq_eq zero_less_numeral)
  moreover have "px buf' c r = (px buf c r \<noteq> (r = y \<and> off \<le> col_offset x c \<and>
      col_offset x c < 8 \<and> bit byte (7 - col_offset x c)))"
    if c: "c < 64" and r: "r < 32" for c r
    using px' [OF c r] px1 [OF c r] n le by auto
  ultimately show ?case
    using rec ih by auto
qed

text \<open>The rows of a sprite, from its first one on.\<close>

lemma row_offset_next:
  assumes "y < 32" and "r < 32"
  shows "row_offset ((y + 1) mod 32) r = (if row_offset y r = 0 then 31 else row_offset y r - 1)"
proof -
  define k where "k = row_offset y r"
  have k: "k < 32" by (simp add: k_def row_offset_def)
  have r: "r = (y + k) mod 32"
    using row_offset_iff [of y k r] assms k by (simp add: k_def)
  let ?k = "if k = 0 then 31 else k - 1"
  have "((y + 1) mod 32 + ?k) mod 32 = (y + 1 + ?k) mod 32"
    by (rule mod_add_left_eq)
  also have "\<dots> = r"
    using r assms by auto
  finally show ?thesis
    using row_offset_iff [of "(y + 1) mod 32" ?k r] assms k by (auto simp: k_def)
qed

lemma row_offset_zero: "y < 32 \<Longrightarrow> r < 32 \<Longrightarrow> row_offset y r = 0 \<longleftrightarrow> r = y"
  using row_offset_iff [of y 0 r] by simp

lemma sprite_covers_Suc:
  assumes "n < 32" and "y < 32" and "r < 32"
  shows "sprite_covers x y (Suc n) c r \<longleftrightarrow>
    (r = y \<and> col_offset x c < 8) \<or> sprite_covers x ((y + 1) mod 32) n c r"
  using assms row_offset_next [OF assms(2,3)] row_offset_zero [OF assms(2,3)]
  by (auto simp: sprite_covers_def)

lemma sprite_bit_Suc:
  assumes "n < 32" and "y < 32" and "r < 32"
  shows "sprite_bit mem addr x y (Suc n) c r \<longleftrightarrow>
    (if r = y then col_offset x c < 8 \<and> bit (mem ! addr) (7 - col_offset x c)
     else sprite_bit mem (Suc addr) x ((y + 1) mod 32) n c r)"
  using assms row_offset_next [OF assms(2,3)] row_offset_zero [OF assms(2,3)]
  by (auto simp: sprite_bit_def sprite_covers_def)

lemma sprite_covers_first:
  "n < 32 \<Longrightarrow> y < 32 \<Longrightarrow> \<not> sprite_covers x ((y + 1) mod 32) n c y"
  using row_offset_next [of y y] row_offset_zero [of y y] by (simp add: sprite_covers_def)

lemma draw_rows_spec:
  assumes "x < 64"
  shows "display_wf buf \<Longrightarrow> y < 32 \<Longrightarrow> n \<le> 32 \<Longrightarrow> addr + n \<le> length mem \<Longrightarrow>
    \<exists>buf'. draw_rows mem addr x y n buf er =
        Inr (buf', er \<or> (\<exists>c<64. \<exists>r<32. sprite_covers x y n c r \<and> px buf c r \<and>
                \<not> sprite_bit mem addr x y n c r)) \<and>
      display_wf buf' \<and>
      (\<forall>c r. c < 64 \<longrightarrow> r < 32 \<longrightarrow> px buf' c r = (px buf c r \<noteq> sprite_bit mem addr x y n c r))"
proof (induction n arbitrary: addr y buf er)
  case 0
  then show ?case by (auto simp: sprite_covers_def sprite_bit_def)
next
  case (Suc n)
  let ?y = "(y + 1) mod 32"
  let ?er = "er \<or> (\<exists>c<64. col_offset x c < 8 \<and> px buf c y \<and> \<not> bit (mem ! addr) (7 - col_offset x c))"
  have "n < 32" using Suc.prems(3) by simp
  note Suc_rules = sprite_covers_Suc [OF this Suc.prems(2)] sprite_bit_Suc [OF this Suc.prems(2)]
  obtain buf1 where one: "draw_bits (mem ! addr) x y 0 8 buf er = Inr (buf1, ?er)" "display_wf buf1"
    and px1: "\<And>c r. c < 64 \<Longrightarrow> r < 32 \<Longrightarrow> px buf1 c r =
      (px buf c r \<noteq> (r = y \<and> col_offset x c < 8 \<and> bit (mem ! addr) (7 - col_offset x c)))"
    using draw_bits_spec [OF assms Suc.prems(2,1), of 0 8 "mem ! addr" er] by auto
  from Suc.IH [of buf1 ?y "Suc addr" ?er] one(2) Suc.prems obtain buf' where
      rest: "draw_rows mem (Suc addr) x ?y n buf1 ?er =
        Inr (buf', ?er \<or> (\<exists>c<64. \<exists>r<32. sprite_covers x ?y n c r \<and> px buf1 c r \<and>
          \<not> sprite_bit mem (Suc addr) x ?y n c r))" "display_wf buf'"
    and px': "\<And>c r. c < 64 \<Longrightarrow> r < 32 \<Longrightarrow>
      px buf' c r = (px buf1 c r \<noteq> sprite_bit mem (Suc addr) x ?y n c r)"
    by auto
  have first: "\<not> sprite_covers x ?y n c y" for c
    using sprite_covers_first Suc.prems by simp
  then have first_bit: "\<not> sprite_bit mem (Suc addr) x ?y n c y" for c
    by (simp add: sprite_bit_def)
  have point: "(sprite_covers x y (Suc n) c r \<and> px buf c r \<and> \<not> sprite_bit mem addr x y (Suc n) c r) =
      ((r = y \<and> col_offset x c < 8 \<and> px buf c r \<and> \<not> bit (mem ! addr) (7 - col_offset x c)) \<or>
       (sprite_covers x ?y n c r \<and> px buf1 c r \<and> \<not> sprite_bit mem (Suc addr) x ?y n c r))"
    if "c < 64" "r < 32" for c r
    using px1 [OF that] first [of c] that by (cases "r = y") (auto simp: Suc_rules)
  have "(?er \<or> (\<exists>c<64. \<exists>r<32. sprite_covers x ?y n c r \<and> px buf1 c r \<and>
          \<not> sprite_bit mem (Suc addr) x ?y n c r)) =
      (er \<or> (\<exists>c<64. \<exists>r<32. sprite_covers x y (Suc n) c r \<and> px buf c r \<and>
                \<not> sprite_bit mem addr x y (Suc n) c r))"
    using Suc.prems(2) by (simp add: point cong: conj_cong) blast
  moreover have "px buf' c r = (px buf c r \<noteq> sprite_bit mem addr x y (Suc n) c r)"
    if "c < 64" "r < 32" for c r
    using px' [OF that] px1 [OF that] first_bit [of c] that by (cases "r = y") (auto simp: Suc_rules)
  moreover have "draw_rows mem addr x y (Suc n) buf er = draw_rows mem (Suc addr) x ?y n buf1 ?er"
    using one(1) Suc.prems(4) by (simp add: DISPLAY_HEIGHT_def)
  ultimately show ?case
    using rest by auto
qed

lemma draw_rows_oob:
  "x < 64 \<Longrightarrow> display_wf buf \<Longrightarrow> y < 32 \<Longrightarrow> addr \<le> length mem \<or> 0 < n \<Longrightarrow>
     length mem < addr + n \<Longrightarrow> draw_rows mem addr x y n buf er = Inl Out_Of_Bounds"
proof (induction n arbitrary: addr y buf er)
  case 0
  then show ?case by simp
next
  case (Suc n)
  show ?case
  proof (cases "addr < length mem")
    case True
    obtain buf1 er1 where "draw_bits (mem ! addr) x y 0 8 buf er = Inr (buf1, er1)" "display_wf buf1"
      using draw_bits_spec [OF Suc.prems(1,3,2), of 0 8 "mem ! addr" er] by auto
    with True Suc.prems Suc.IH [of buf1 "(y + 1) mod 32" "Suc addr" er1] show ?thesis
      by (simp add: DISPLAY_HEIGHT_def)
  next
    case False
    then show ?thesis by (simp add: arr_get_def)
  qed
qed

section \<open>The sprite operation\<close>

lemma display_draw_sprite_ok:
  assumes "display_wf buf" and "unat len \<le> 32" and "a + unat len \<le> length mem"
  obtains buf' where
    "display_draw_sprite buf x y mem a len =
       Inr (buf', \<exists>c<64. \<exists>r<32. sprite_covers (unat x mod 64) (unat y mod 32) (unat len) c r \<and>
         px buf c r \<and> \<not> sprite_bit mem a (unat x mod 64) (unat y mod 32) (unat len) c r)"
    and "display_wf buf'"
    and "\<And>c r. c < 64 \<Longrightarrow> r < 32 \<Longrightarrow>
       px buf' c r = (px buf c r \<noteq> sprite_bit mem a (unat x mod 64) (unat y mod 32) (unat len) c r)"
  using draw_rows_spec [OF _ assms(1) _ assms(2,3), of "unat x mod 64" "unat y mod 32" False]
  by (auto simp: display_draw_sprite_def display_dims)

lemma wp_draw_sprite:
  assumes "display_wf buf" and "unat len \<le> 32"
    and "\<And>buf' er. display_wf buf' \<Longrightarrow> unat len = 0 \<or> a + unat len \<le> length mem \<Longrightarrow> Q (buf', er)"
    and "unat len \<noteq> 0 \<Longrightarrow> length mem < a + unat len \<Longrightarrow> E Out_Of_Bounds"
  shows "wp (display_draw_sprite buf x y mem a len) Q E"
proof (cases "a + unat len \<le> length mem")
  case True
  show ?thesis
    by (rule display_draw_sprite_ok [OF assms(1,2) True, of x y]) (simp add: assms(3) True)
next
  case False
  show ?thesis
  proof (cases "unat len = 0")
    case True
    then show ?thesis using assms by (simp add: display_draw_sprite_def)
  next
    case len: False
    then have "display_draw_sprite buf x y mem a len = Inl Out_Of_Bounds"
      using False assms(1) by (simp add: display_draw_sprite_def display_dims draw_rows_oob)
    with False len assms(4) show ?thesis by simp
  qed
qed

section \<open>Rendering\<close>

text \<open>What a list of rendering calls paints: the current colour and the window. A colour is its
  three components.\<close>

fun paint :: "render_call list \<Rightarrow> nat \<times> nat \<times> nat \<Rightarrow> (nat \<Rightarrow> nat \<Rightarrow> nat \<times> nat \<times> nat) \<Rightarrow>
    nat \<Rightarrow> nat \<Rightarrow> nat \<times> nat \<times> nat" where
  "paint [] colour window = window"
| "paint (SetRenderDrawColor r g b a # cs) colour window = paint cs (r, g, b) window"
| "paint (RenderClear # cs) colour window = paint cs colour (\<lambda>x y. colour)"
| "paint (RenderFillRect x y w h # cs) colour window =
     paint cs colour (\<lambda>x' y'.
       if x \<le> x' \<and> x' < x + w \<and> y \<le> y' \<and> y' < y + h then colour else window x' y')"

definition pixel_calls :: "pixels \<Rightarrow> nat \<times> nat \<Rightarrow> render_call list" where
  "pixel_calls b = (\<lambda>(i, j).
     [if px b i j then SetRenderDrawColor 255 255 255 SDL_ALPHA_OPAQUE
      else SetRenderDrawColor 0 0 0 SDL_ALPHA_OPAQUE,
      RenderFillRect (i * 10) (j * 10) 10 10])"

lemma render_loop_ok:
  "display_wf b \<Longrightarrow> \<forall>(i, j) \<in> set ps. i < 64 \<and> j < 32 \<Longrightarrow>
     render_loop b ps = Inr (concat (map (pixel_calls b) ps))"
proof (induction ps)
  case Nil
  then show ?case by simp
next
  case (Cons p ps)
  then show ?case
    by (cases p) (auto simp: render_pixel_def pixel_get_ok pixel_calls_def DISPLAY_SCALE_def)
qed

lemma display_render_ok:
  "display_wf b \<Longrightarrow> display_render b = Inr ([SetRenderDrawColor 0 0 0 (Alpha 0), RenderClear] @
     concat (map (pixel_calls b) (List.product [0..<64] [0..<32])))"
  by (simp add: display_render_def display_dims render_loop_ok del: upt_rec_numeral)

lemma cell_iff: "i * 10 \<le> x \<and> x < i * 10 + 10 \<longleftrightarrow> x div 10 = (i :: nat)"
  by auto

lemma paint_pixels:
  "paint (concat (map (pixel_calls b) ps)) colour window x y =
     (if (x div 10, y div 10) \<in> set ps
      then if px b (x div 10) (y div 10) then (255, 255, 255) else (0, 0, 0)
      else window x y)"
proof (induction ps arbitrary: colour window)
  case Nil
  then show ?case by simp
next
  case (Cons p ps)
  obtain i j where p: "p = (i, j)" by (cases p)
  have "i * 10 \<le> x \<and> x < i * 10 + 10 \<and> j * 10 \<le> y \<and> y < j * 10 + 10 \<longleftrightarrow> (x div 10, y div 10) = p"
    using cell_iff [of i x] cell_iff [of j y] p by auto
  then show ?case
    using Cons.IH p by (auto simp: pixel_calls_def)
qed

text \<open>\<open>display_render\<close> shows the screen. It never reads outside the buffer, and after its calls
  every pixel of the 640 by 320 window is white if the buffer pixel of its 10 by 10 cell is
  lit and black otherwise.\<close>

theorem display_render_shows_screen:
  assumes "display_wf b"
  shows "\<exists>calls. display_render b = Inr calls \<and>
    (\<forall>x<640. \<forall>y<320. paint calls colour window x y =
       (if px b (x div 10) (y div 10) then (255, 255, 255) else (0, 0, 0)))"
proof -
  have "(x div 10, y div 10) \<in> set (List.product [0..<64] [0..<32])" if "x < 640" "y < 320" for x y :: nat
    using that by auto
  then show ?thesis
    using assms by (simp add: display_render_ok paint_pixels del: upt_rec_numeral set_product)
qed

theorem display_render_shows_screen_witness:
  "\<exists>calls. display_render (display_clear []) = Inr calls \<and>
    (\<forall>x<640. \<forall>y<320. paint calls (1, 2, 3) (\<lambda>x y. (9, 9, 9)) x y = (0, 0, 0))"
  using display_render_shows_screen [of "display_clear []" "(1, 2, 3)" "\<lambda>x y. (9, 9, 9)"]
  by (auto simp: px_clear)

section \<open>Sprites\<close>

text \<open>C10: \<open>display_draw_sprite\<close> combines the sprite with the screen by exclusive or, wrapped around
  both edges. Every pixel of the new screen is the old pixel, inverted where the sprite has a
  one; the sprite is \<open>sprite_len\<close> rows of eight bits, the first at \<open>(x mod 64, y mod 32)\<close>. The
  result is whether a lit pixel lies under a zero of the sprite.\<close>

theorem display_draw_sprite_spec:
  assumes "display_wf b" and "unat n \<le> 15" and "a + unat n \<le> length mem"
  shows "\<exists>b'. display_draw_sprite b x y mem a n =
      Inr (b', \<exists>c<64. \<exists>r<32. sprite_covers (unat x mod 64) (unat y mod 32) (unat n) c r \<and>
        px b c r \<and> \<not> sprite_bit mem a (unat x mod 64) (unat y mod 32) (unat n) c r) \<and>
    display_wf b' \<and>
    (\<forall>c<64. \<forall>r<32. px b' c r =
       (px b c r \<noteq> sprite_bit mem a (unat x mod 64) (unat y mod 32) (unat n) c r))"
  by (rule display_draw_sprite_ok [of b n a mem x y]) (use assms in auto)

text \<open>The digit \<open>1\<close> drawn on an empty screen at the bottom right corner, where it wraps.\<close>

theorem display_draw_sprite_spec_witness:
  "\<exists>b' er. display_draw_sprite (display_clear []) 62 30 [0x20, 0x60, 0x20, 0x20, 0x70] 0 5 = Inr (b', er) \<and>
     px b' 0 30 \<and> \<not> px b' 1 30 \<and> px b' 63 31"
proof -
  let ?mem = "[0x20, 0x60, 0x20, 0x20, 0x70] :: u8 list"
  obtain b' er where b': "display_draw_sprite (display_clear []) 62 30 ?mem 0 5 = Inr (b', er)"
    and px: "\<forall>c<64. \<forall>r<32. px b' c r = (px (display_clear []) c r \<noteq>
      sprite_bit ?mem 0 (unat (62 :: u8) mod 64) (unat (30 :: u8) mod 32) (unat (5 :: u8)) c r)"
    using display_draw_sprite_spec [of "display_clear []" 5 0 ?mem 62 30, OF display_clear_wf] by force
  have "sprite_bit ?mem 0 62 30 5 0 30" "\<not> sprite_bit ?mem 0 62 30 5 1 30"
    "sprite_bit ?mem 0 62 30 5 63 31"
    by (simp_all add: sprite_bit_def sprite_covers_def col_offset_def row_offset_def bit_numeral_rec)
  then have "px b' 0 30" "\<not> px b' 1 30" "px b' 63 31"
    using px [rule_format, of 0 30] px [rule_format, of 1 30] px [rule_format, of 63 31]
    by (simp_all add: px_clear)
  with b' show ?thesis by blast
qed

text \<open>Drawing the same sprite twice restores the screen.\<close>

theorem draw_sprite_twice:
  assumes "display_wf b" and "unat n \<le> 15" and "a + unat n \<le> length mem"
  shows "\<exists>b' e e'. display_draw_sprite b x y mem a n = Inr (b', e) \<and>
    display_draw_sprite b' x y mem a n = Inr (b, e')"
proof -
  have n: "unat n \<le> 32" using assms(2) by simp
  obtain b1 e1 where b1: "display_draw_sprite b x y mem a n = Inr (b1, e1)" "display_wf b1"
      "\<And>c r. c < 64 \<Longrightarrow> r < 32 \<Longrightarrow>
         px b1 c r = (px b c r \<noteq> sprite_bit mem a (unat x mod 64) (unat y mod 32) (unat n) c r)"
    by (rule display_draw_sprite_ok [OF assms(1) n assms(3), of x y]) (rule that; assumption)
  obtain b2 e2 where b2: "display_draw_sprite b1 x y mem a n = Inr (b2, e2)" "display_wf b2"
      "\<And>c r. c < 64 \<Longrightarrow> r < 32 \<Longrightarrow>
         px b2 c r = (px b1 c r \<noteq> sprite_bit mem a (unat x mod 64) (unat y mod 32) (unat n) c r)"
    by (rule display_draw_sprite_ok [OF b1(2) n assms(3), of x y]) (rule that; assumption)
  have "b2 = b"
    using b1(3) b2(2,3) assms(1) by (intro px_eqI) auto
  with b1(1) b2(1) show ?thesis by blast
qed

theorem draw_sprite_twice_witness:
  "\<exists>b' e e'. display_draw_sprite (display_clear []) 3 4 [0xFF] 0 1 = Inr (b', e) \<and>
    display_draw_sprite b' 3 4 [0xFF] 0 1 = Inr (display_clear [], e')"
  by (rule draw_sprite_twice) simp_all

text \<open>The flag that \<open>display_draw_sprite\<close> returns, documented as set when pixels are erased,
  misses erasures: when every lit pixel under the sprite is under a one, all of them are
  erased and the flag is clear.\<close>

theorem draw_sprite_flag_misses_erasure:
  assumes "display_wf b" and "unat n \<le> 15" and "a + unat n \<le> length mem"
    and "\<forall>c<64. \<forall>r<32. sprite_covers (unat x mod 64) (unat y mod 32) (unat n) c r \<and> px b c r \<longrightarrow>
      sprite_bit mem a (unat x mod 64) (unat y mod 32) (unat n) c r"
  shows "\<exists>b'. display_draw_sprite b x y mem a n = Inr (b', False) \<and>
    (\<forall>c<64. \<forall>r<32. sprite_covers (unat x mod 64) (unat y mod 32) (unat n) c r \<and> px b c r \<longrightarrow>
      \<not> px b' c r)"
  by (rule display_draw_sprite_ok [of b n a mem x y]) (use assms in auto)

theorem draw_sprite_flag_misses_erasure_witness:
  "\<exists>b b'. display_wf b \<and> px b 0 0 \<and> display_draw_sprite b 0 0 [0x80] 0 1 = Inr (b', False) \<and> \<not> px b' 0 0"
proof -
  obtain b where b: "display_wf b" and px: "\<And>c r. c < 64 \<Longrightarrow> r < 32 \<Longrightarrow> px b c r = (c = 0 \<and> r = 0)"
    using pixel_set_ok [of "display_clear []" 0 0 True] by (auto simp: px_clear)
  have "sprite_covers 0 0 1 0 0" "sprite_bit [0x80] 0 0 0 1 0 0"
    by (simp_all add: sprite_bit_def sprite_covers_def col_offset_def row_offset_def bit_numeral_rec)
  with b show ?thesis
    using draw_sprite_flag_misses_erasure [of b 1 0 "[0x80]" 0 0] px by auto
qed

end
