(* ===== verification/Disassembler.thy ===== *)
theory Disassembler
  imports Opcode
begin

text \<open>
  The disassembler (\<open>disassembler.c\<close>): one definition for each \<open>disassemble_*\<close> function,
  giving the text it prints, and \<open>disassembler_disassemble\<close>, the chain of guards that chooses
  among them, with the text and the result it returns.
\<close>

section \<open>Operations\<close>

text \<open>The formats \<open>ADDRESS_FMT\<close>, \<open>OPCODE_FMT\<close>, \<open>CONST_FMT\<close> and \<open>REGISTER_FMT\<close>.\<close>

definition address_fmt :: "u16 \<Rightarrow> string" where
  "address_fmt a = ''0x'' @ fmt_04X a"

definition opcode_fmt :: "u16 \<Rightarrow> string" where
  "opcode_fmt w = ''0x'' @ fmt_04X w"

definition const_fmt :: "u8 \<Rightarrow> string" where
  "const_fmt c = ''0x'' @ fmt_02X c"

definition register_fmt :: "u8 \<Rightarrow> string" where
  "register_fmt x = ''V'' @ fmt_u (unat x)"

definition disassemble_display_clear :: "u16 \<Rightarrow> string" where
  "disassemble_display_clear opcode =
     ''Clear the screen\<newline>''"

definition disassemble_return :: "u16 \<Rightarrow> string" where
  "disassemble_return opcode =
     ''Return from a subroutine\<newline>''"

definition disassemble_call :: "u16 \<Rightarrow> string" where
  "disassemble_call opcode =
     (let address = opcode_decode_address opcode in
      ''Call machine code at address '' @ address_fmt address @ ''\<newline>'')"

definition disassemble_goto :: "u16 \<Rightarrow> string" where
  "disassemble_goto opcode =
     (let address = opcode_decode_address opcode in
      ''goto '' @ address_fmt address @ ''\<newline>'')"

definition disassemble_call_subroutine :: "u16 \<Rightarrow> string" where
  "disassemble_call_subroutine opcode =
     (let address = opcode_decode_address opcode in
      ''Call subroutine at address '' @ address_fmt address @ ''\<newline>'')"

definition disassemble_if_equals :: "u16 \<Rightarrow> string" where
  "disassemble_if_equals opcode =
     (let x = opcode_decode_register_x opcode;
       value = opcode_decode_const_8bit opcode in
      ''if ('' @ register_fmt x @ '' == '' @ const_fmt value @ '')\<newline>'')"

definition disassemble_if_not_equals :: "u16 \<Rightarrow> string" where
  "disassemble_if_not_equals opcode =
     (let x = opcode_decode_register_x opcode;
       value = opcode_decode_const_8bit opcode in
      ''if ('' @ register_fmt x @ '' != '' @ const_fmt value @ '')\<newline>'')"

definition disassemble_skip_next_if_vx_equals_vy :: "u16 \<Rightarrow> string" where
  "disassemble_skip_next_if_vx_equals_vy opcode =
     (let x = opcode_decode_register_x opcode;
       y = opcode_decode_register_y opcode in
      ''skip next if ('' @ register_fmt x @ '' == '' @ register_fmt y @ '')\<newline>'')"

definition disassemble_set_register :: "u16 \<Rightarrow> string" where
  "disassemble_set_register opcode =
     (let reg = opcode_decode_register_x opcode;
       value = opcode_decode_const_8bit opcode in
      register_fmt reg @ '' = '' @ const_fmt value @ ''\<newline>'')"

definition disassemble_add_to_vx :: "u16 \<Rightarrow> string" where
  "disassemble_add_to_vx opcode =
     (let reg = opcode_decode_register_x opcode;
       value = opcode_decode_const_8bit opcode in
      register_fmt reg @ '' += '' @ const_fmt value @ ''\<newline>'')"

definition disassemble_set_vx_from_vy :: "u16 \<Rightarrow> string" where
  "disassemble_set_vx_from_vy opcode =
     (let x = opcode_decode_register_x opcode;
       y = opcode_decode_register_y opcode in
      register_fmt x @ '' = '' @ register_fmt y @ ''\<newline>'')"

definition disassemble_set_vx_to_vx_or :: "u16 \<Rightarrow> string" where
  "disassemble_set_vx_to_vx_or opcode =
     (let x = opcode_decode_register_x opcode;
       y = opcode_decode_register_y opcode in
      register_fmt x @ '' |= '' @ register_fmt y @ ''\<newline>'')"

definition disassemble_set_vx_to_vx_and :: "u16 \<Rightarrow> string" where
  "disassemble_set_vx_to_vx_and opcode =
     (let x = opcode_decode_register_x opcode;
       y = opcode_decode_register_y opcode in
      register_fmt x @ '' &= '' @ register_fmt y @ ''\<newline>'')"

definition disassemble_set_vx_to_vx_xor :: "u16 \<Rightarrow> string" where
  "disassemble_set_vx_to_vx_xor opcode =
     (let x = opcode_decode_register_x opcode;
       y = opcode_decode_register_y opcode in
      register_fmt x @ '' ^= '' @ register_fmt y @ ''\<newline>'')"

definition disassemble_vx_plus_vy :: "u16 \<Rightarrow> string" where
  "disassemble_vx_plus_vy opcode =
     (let x = opcode_decode_register_x opcode;
       y = opcode_decode_register_y opcode in
      register_fmt x @ '' += '' @ register_fmt y @ ''\<newline>'')"

definition disassemble_vx_minus_vy :: "u16 \<Rightarrow> string" where
  "disassemble_vx_minus_vy opcode =
     (let x = opcode_decode_register_x opcode;
       y = opcode_decode_register_y opcode in
      register_fmt x @ '' -= '' @ register_fmt y @ ''\<newline>'')"

definition disassemble_set_vx_rshift_one :: "u16 \<Rightarrow> string" where
  "disassemble_set_vx_rshift_one opcode =
     (let x = opcode_decode_register_x opcode in
      register_fmt x @ '' >>= 1\<newline>'')"

definition disassemble_set_vx_vy_minus_vx :: "u16 \<Rightarrow> string" where
  "disassemble_set_vx_vy_minus_vx opcode =
     (let x = opcode_decode_register_x opcode;
       y = opcode_decode_register_y opcode in
      register_fmt x @ '' = '' @ register_fmt y @ '' - '' @ register_fmt x @ ''\<newline>'')"

definition disassemble_set_vx_lshift_one :: "u16 \<Rightarrow> string" where
  "disassemble_set_vx_lshift_one opcode =
     (let x = opcode_decode_register_x opcode in
      register_fmt x @ '' <<= 1\<newline>'')"

definition disassemble_if_vx_not_equals_to_vy :: "u16 \<Rightarrow> string" where
  "disassemble_if_vx_not_equals_to_vy opcode =
     (let x = opcode_decode_register_x opcode;
       y = opcode_decode_register_y opcode in
      ''if ('' @ register_fmt x @ '' != '' @ register_fmt y @ '')\<newline>'')"

definition disassemble_set_i_register :: "u16 \<Rightarrow> string" where
  "disassemble_set_i_register opcode =
     (let address = opcode_decode_address opcode in
      ''I = '' @ address_fmt address @ ''\<newline>'')"

definition disassemble_jump_to_addr_plus_v0 :: "u16 \<Rightarrow> string" where
  "disassemble_jump_to_addr_plus_v0 opcode =
     (let address = opcode_decode_address opcode in
      ''PC = V0 + '' @ address_fmt address @ ''\<newline>'')"

definition disassemble_set_vx_rand_and :: "u16 \<Rightarrow> string" where
  "disassemble_set_vx_rand_and opcode =
     (let x = opcode_decode_register_x opcode;
       value = opcode_decode_const_8bit opcode in
      register_fmt x @ '' = rand() & '' @ const_fmt value @ ''\<newline>'')"

definition disassemble_display_draw_sprite_at :: "u16 \<Rightarrow> string" where
  "disassemble_display_draw_sprite_at opcode =
     (let x = opcode_decode_register_x opcode;
       y = opcode_decode_register_y opcode;
       value = opcode_decode_const_4bit opcode in
      ''draw('' @ register_fmt x @ '', '' @ register_fmt y @ '', '' @ const_fmt value @ '')\<newline>'')"

definition disassemble_if_key_equals_to_vx :: "u16 \<Rightarrow> string" where
  "disassemble_if_key_equals_to_vx opcode =
     (let x = opcode_decode_register_x opcode in
      ''if (key() == '' @ register_fmt x @ '')\<newline>'')"

definition disassemble_if_key_not_equals_to_vx :: "u16 \<Rightarrow> string" where
  "disassemble_if_key_not_equals_to_vx opcode =
     (let x = opcode_decode_register_x opcode in
      ''if (key() != '' @ register_fmt x @ '')\<newline>'')"

definition disassemble_set_vx_from_delay_timer :: "u16 \<Rightarrow> string" where
  "disassemble_set_vx_from_delay_timer opcode =
     (let x = opcode_decode_register_x opcode in
      register_fmt x @ '' = get_delay()\<newline>'')"

definition disassemble_set_vx_from_key :: "u16 \<Rightarrow> string" where
  "disassemble_set_vx_from_key opcode =
     (let x = opcode_decode_register_x opcode in
      register_fmt x @ '' = get_key()\<newline>'')"

definition disassemble_set_delay_timer_from_vx :: "u16 \<Rightarrow> string" where
  "disassemble_set_delay_timer_from_vx opcode =
     (let x = opcode_decode_register_x opcode in
      ''delay_timer('' @ register_fmt x @ '')\<newline>'')"

definition disassemble_set_sound_timer :: "u16 \<Rightarrow> string" where
  "disassemble_set_sound_timer opcode =
     (let x = opcode_decode_register_x opcode in
      ''sound_timer('' @ register_fmt x @ '')\<newline>'')"

definition disassemble_add_vx_to_i :: "u16 \<Rightarrow> string" where
  "disassemble_add_vx_to_i opcode =
     (let x = opcode_decode_register_x opcode in
      ''I += '' @ register_fmt x @ ''\<newline>'')"

definition disassemble_set_i_to_sprite_addr :: "u16 \<Rightarrow> string" where
  "disassemble_set_i_to_sprite_addr opcode =
     (let x = opcode_decode_register_x opcode in
      ''I = sprite_addr['' @ register_fmt x @ '']\<newline>'')"

definition disassemble_set_bcd :: "u16 \<Rightarrow> string" where
  "disassemble_set_bcd opcode =
     (let x = opcode_decode_register_x opcode in
      ''set_bcd('' @ register_fmt x @ '')\<newline>'')"

definition disassemble_reg_dump :: "u16 \<Rightarrow> string" where
  "disassemble_reg_dump opcode =
     (let x = opcode_decode_register_x opcode in
      ''reg_dump('' @ register_fmt x @ '', &I)\<newline>'')"

definition disassemble_reg_load :: "u16 \<Rightarrow> string" where
  "disassemble_reg_load opcode =
     (let x = opcode_decode_register_x opcode in
      ''reg_load('' @ register_fmt x @ '', &I)\<newline>'')"

definition disassembler_disassemble :: "u16 \<Rightarrow> string \<times> bool" where
  "disassembler_disassemble opcode =
     (if opcode = 0x00E0 then (disassemble_display_clear opcode, True) else
      if opcode = 0x00EE then (disassemble_return opcode, True) else
      if opcode AND 0xF000 = 0x0000 then (disassemble_call opcode, True) else
      if opcode AND 0xF000 = 0x1000 then (disassemble_goto opcode, True) else
      if opcode AND 0xF000 = 0x2000 then (disassemble_call_subroutine opcode, True) else
      if opcode AND 0xF000 = 0x3000 then (disassemble_if_equals opcode, True) else
      if opcode AND 0xF000 = 0x4000 then (disassemble_if_not_equals opcode, True) else
      if opcode AND 0xF00F = 0x5000 then (disassemble_skip_next_if_vx_equals_vy opcode, True) else
      if opcode AND 0xF000 = 0x6000 then (disassemble_set_register opcode, True) else
      if opcode AND 0xF000 = 0x7000 then (disassemble_add_to_vx opcode, True) else
      if opcode AND 0xF00F = 0x8000 then (disassemble_set_vx_from_vy opcode, True) else
      if opcode AND 0xF00F = 0x8001 then (disassemble_set_vx_to_vx_or opcode, True) else
      if opcode AND 0xF00F = 0x8002 then (disassemble_set_vx_to_vx_and opcode, True) else
      if opcode AND 0xF00F = 0x8003 then (disassemble_set_vx_to_vx_xor opcode, True) else
      if opcode AND 0xF00F = 0x8004 then (disassemble_vx_plus_vy opcode, True) else
      if opcode AND 0xF00F = 0x8005 then (disassemble_vx_minus_vy opcode, True) else
      if opcode AND 0xF00F = 0x8006 then (disassemble_set_vx_rshift_one opcode, True) else
      if opcode AND 0xF00F = 0x8007 then (disassemble_set_vx_vy_minus_vx opcode, True) else
      if opcode AND 0xF00F = 0x800E then (disassemble_set_vx_lshift_one opcode, True) else
      if opcode AND 0xF00F = 0x9000 then (disassemble_if_vx_not_equals_to_vy opcode, True) else
      if opcode AND 0xF000 = 0xA000 then (disassemble_set_i_register opcode, True) else
      if opcode AND 0xF000 = 0xB000 then (disassemble_jump_to_addr_plus_v0 opcode, True) else
      if opcode AND 0xF000 = 0xC000 then (disassemble_set_vx_rand_and opcode, True) else
      if opcode AND 0xF000 = 0xD000 then (disassemble_display_draw_sprite_at opcode, True) else
      if opcode AND 0xF0FF = 0xE09E then (disassemble_if_key_equals_to_vx opcode, True) else
      if opcode AND 0xF0FF = 0xE0A1 then (disassemble_if_key_not_equals_to_vx opcode, True) else
      if opcode AND 0xF0FF = 0xF007 then (disassemble_set_vx_from_delay_timer opcode, True) else
      if opcode AND 0xF0FF = 0xF00A then (disassemble_set_vx_from_key opcode, True) else
      if opcode AND 0xF0FF = 0xF015 then (disassemble_set_delay_timer_from_vx opcode, True) else
      if opcode AND 0xF0FF = 0xF018 then (disassemble_set_sound_timer opcode, True) else
      if opcode AND 0xF0FF = 0xF01E then (disassemble_add_vx_to_i opcode, True) else
      if opcode AND 0xF0FF = 0xF029 then (disassemble_set_i_to_sprite_addr opcode, True) else
      if opcode AND 0xF0FF = 0xF033 then (disassemble_set_bcd opcode, True) else
      if opcode AND 0xF0FF = 0xF055 then (disassemble_reg_dump opcode, True) else
      if opcode AND 0xF0FF = 0xF065 then (disassemble_reg_load opcode, True) else
      (''error: unsupported opcode. opcode='' @ opcode_fmt opcode @ ''\<newline>'', False))"

end
