(* ===== verification/Cpu.thy ===== *)
theory Cpu
  imports Instruction Memory Timer Keyboard Display Disassembler
begin

text \<open>
  The processor (\<open>cpu.h\<close>, \<open>cpu.c\<close>): its state, \<open>cpu_init\<close>, the call stack, one definition for
  each \<open>exec_*\<close> function, the chain of guards that chooses among them, and \<open>cpu_step\<close>.

  The C structure holds pointers to the memory, the display and the timers of the machine it
  belongs to, and the \<open>exec_*\<close> functions write through them; here they are fields of the record
  \<open>machine\<close>, and an \<open>exec_*\<close> function maps a machine to a machine or to a fault. Two inputs come
  from outside: the keyboard state and the value of \<open>rand()\<close>. \<open>trace\<close> is what \<open>cpu_step\<close> and
  the disassembler it calls print on \<open>stderr\<close>; log records are left out of it (the obsolete
  instruction warning of \<open>exec_call\<close>). \<open>log_fatal\<close> ends the program.
\<close>

section \<open>State\<close>

definition REGISTER_COUNT :: nat where
  "REGISTER_COUNT = 16"

definition VF :: u8 where
  "VF = 15"

definition STACK_CAPACITY :: nat where
  "STACK_CAPACITY = 12"

record cpu =
  registers :: "u8 list"
  pc :: u16
  i_reg :: u16
  stack :: "u16 list"
  stack_count :: nat

record machine =
  memory :: "u8 list"
  cpu :: cpu
  display :: pixels
  delay_timer :: timer
  sound_timer :: timer
  trace :: string

record env =
  keyboard :: keyboard_state
  rand_value :: nat

definition cpu_init :: cpu where
  "cpu_init =
     \<lparr>registers = replicate REGISTER_COUNT 0,
      pc = MEMORY_PROGRAM_STARTING_ADDRESS,
      i_reg = MEMORY_PROGRAM_STARTING_ADDRESS,
      stack = replicate STACK_CAPACITY 0,
      stack_count = 0\<rparr>"

section \<open>Helpers\<close>

definition random_u8 :: "nat \<Rightarrow> u8" where
  "random_u8 x = word_of_nat (x mod (255 + 1))"

definition fatal_vf :: "machine res" where
  "fatal_vf = c_exit ''programs should not operate on VF register''"

definition reg :: "machine \<Rightarrow> u8 \<Rightarrow> u8 res" where
  "reg m x = arr_get (registers (cpu m)) (unat x)"

definition set_reg :: "machine \<Rightarrow> u8 \<Rightarrow> u8 \<Rightarrow> machine res" where
  "set_reg m x v =
     res_bind (arr_set (registers (cpu m)) (unat x) v) (\<lambda>rs.
     Inr (m\<lparr>cpu := cpu m\<lparr>registers := rs\<rparr>\<rparr>))"

definition mem_set :: "machine \<Rightarrow> nat \<Rightarrow> u8 \<Rightarrow> machine res" where
  "mem_set m a v = res_bind (arr_set (memory m) a v) (\<lambda>mem. Inr (m\<lparr>memory := mem\<rparr>))"

definition fetch_opcode :: "machine \<Rightarrow> u16 res" where
  "fetch_opcode m =
     res_bind (arr_get (memory m) (unat (pc (cpu m)))) (\<lambda>hi.
     res_bind (arr_get (memory m) (unat (pc (cpu m)) + 1)) (\<lambda>lo.
     Inr (push_bit 8 (ucast hi) OR ucast lo)))"

definition cpu_pc_advance :: "machine \<Rightarrow> machine" where
  "cpu_pc_advance m = m\<lparr>cpu := cpu m\<lparr>pc := pc (cpu m) + 2\<rparr>\<rparr>"

definition cpu_pc_advance_back :: "machine \<Rightarrow> machine" where
  "cpu_pc_advance_back m = m\<lparr>cpu := cpu m\<lparr>pc := pc (cpu m) - 2\<rparr>\<rparr>"

definition cpu_goto_address :: "u16 \<Rightarrow> machine \<Rightarrow> machine" where
  "cpu_goto_address address m = m\<lparr>cpu := cpu m\<lparr>pc := address\<rparr>\<rparr>"

definition cpu_stack_push :: "cpu \<Rightarrow> u16 \<Rightarrow> cpu res" where
  "cpu_stack_push c address =
     (if stack_count c \<ge> STACK_CAPACITY then c_exit ''error: cpu: runtime: stack overflow''
      else res_bind (arr_set (stack c) (stack_count c) address) (\<lambda>st.
        Inr (c\<lparr>stack := st, stack_count := stack_count c + 1\<rparr>)))"

definition cpu_stack_pop :: "cpu \<Rightarrow> (u16 \<times> cpu) res" where
  "cpu_stack_pop c =
     (if stack_count c = 0 then c_exit ''error: cpu: runtime: stack underflow''
      else let c = c\<lparr>stack_count := stack_count c - 1\<rparr> in
        res_bind (arr_get (stack c) (stack_count c)) (\<lambda>address. Inr (address, c)))"

section \<open>Instructions\<close>

definition exec_display_clear :: "u16 \<Rightarrow> machine \<Rightarrow> machine res" where
  "exec_display_clear opcode m = Inr (m\<lparr>display := display_clear (display m)\<rparr>)"

definition exec_return :: "u16 \<Rightarrow> machine \<Rightarrow> machine res" where
  "exec_return opcode m =
     res_bind (cpu_stack_pop (cpu m)) (\<lambda>(ret_addr, c).
     Inr (cpu_goto_address ret_addr (m\<lparr>cpu := c\<rparr>)))"

definition exec_call :: "u16 \<Rightarrow> machine \<Rightarrow> machine res" where
  "exec_call opcode m =
     (let address = opcode_decode_address opcode in
      res_bind (cpu_stack_push (cpu m) (pc (cpu m))) (\<lambda>c.
      Inr (cpu_goto_address address (m\<lparr>cpu := c\<rparr>))))"

definition exec_goto :: "u16 \<Rightarrow> machine \<Rightarrow> machine res" where
  "exec_goto opcode m =
     (let address = opcode_decode_address opcode in
      Inr (cpu_goto_address address m))"

definition exec_call_subroutine :: "u16 \<Rightarrow> machine \<Rightarrow> machine res" where
  "exec_call_subroutine opcode m =
     (let address = opcode_decode_address opcode in
      res_bind (cpu_stack_push (cpu m) (pc (cpu m))) (\<lambda>c.
      Inr (cpu_goto_address address (m\<lparr>cpu := c\<rparr>))))"

definition exec_if_equals :: "u16 \<Rightarrow> machine \<Rightarrow> machine res" where
  "exec_if_equals opcode m =
     (let x = opcode_decode_register_x opcode;
          k = opcode_decode_const_8bit opcode in
      res_bind (reg m x) (\<lambda>vx.
      Inr (if vx = k then cpu_pc_advance m else m)))"

definition exec_if_not_equals :: "u16 \<Rightarrow> machine \<Rightarrow> machine res" where
  "exec_if_not_equals opcode m =
     (let x = opcode_decode_register_x opcode;
          k = opcode_decode_const_8bit opcode in
      res_bind (reg m x) (\<lambda>vx.
      Inr (if vx \<noteq> k then cpu_pc_advance m else m)))"

definition exec_skip_next_if_vx_equals_vy :: "u16 \<Rightarrow> machine \<Rightarrow> machine res" where
  "exec_skip_next_if_vx_equals_vy opcode m =
     (let x = opcode_decode_register_x opcode;
          y = opcode_decode_register_y opcode in
      res_bind (reg m x) (\<lambda>vx. res_bind (reg m y) (\<lambda>vy.
      Inr (if vx = vy then cpu_pc_advance m else m))))"

definition exec_set_register :: "u16 \<Rightarrow> machine \<Rightarrow> machine res" where
  "exec_set_register opcode m =
     (let x = opcode_decode_register_x opcode;
          k = opcode_decode_const_8bit opcode in
      set_reg m x k)"

definition exec_add_to_vx :: "u16 \<Rightarrow> machine \<Rightarrow> machine res" where
  "exec_add_to_vx opcode m =
     (let x = opcode_decode_register_x opcode;
          k = opcode_decode_const_8bit opcode in
      res_bind (reg m x) (\<lambda>vx. set_reg m x (vx + k)))"

definition exec_set_vx_from_vy :: "u16 \<Rightarrow> machine \<Rightarrow> machine res" where
  "exec_set_vx_from_vy opcode m =
     (let x = opcode_decode_register_x opcode;
          y = opcode_decode_register_y opcode in
      res_bind (reg m y) (\<lambda>vy. set_reg m x vy))"

definition exec_set_vx_to_vx_or :: "u16 \<Rightarrow> machine \<Rightarrow> machine res" where
  "exec_set_vx_to_vx_or opcode m =
     (let x = opcode_decode_register_x opcode;
          y = opcode_decode_register_y opcode in
      res_bind (reg m x) (\<lambda>vx. res_bind (reg m y) (\<lambda>vy.
      set_reg m x (vx OR vy))))"

definition exec_set_vx_to_vx_and :: "u16 \<Rightarrow> machine \<Rightarrow> machine res" where
  "exec_set_vx_to_vx_and opcode m =
     (let x = opcode_decode_register_x opcode;
          y = opcode_decode_register_y opcode in
      res_bind (reg m x) (\<lambda>vx. res_bind (reg m y) (\<lambda>vy.
      set_reg m x (vx AND vy))))"

definition exec_set_vx_to_vx_xor :: "u16 \<Rightarrow> machine \<Rightarrow> machine res" where
  "exec_set_vx_to_vx_xor opcode m =
     (let x = opcode_decode_register_x opcode;
          y = opcode_decode_register_y opcode in
      res_bind (reg m x) (\<lambda>vx. res_bind (reg m y) (\<lambda>vy.
      set_reg m x (vx XOR vy))))"

definition exec_vx_plus_vy :: "u16 \<Rightarrow> machine \<Rightarrow> machine res" where
  "exec_vx_plus_vy opcode m =
     (let x = opcode_decode_register_x opcode;
          y = opcode_decode_register_y opcode in
      if x = VF \<or> y = VF then fatal_vf
      else res_bind (reg m x) (\<lambda>vx. res_bind (reg m y) (\<lambda>vy.
        let sum = unat vx + unat vy in
        res_bind (set_reg m VF (if sum > 255 then 0x01 else 0x00)) (\<lambda>m.
        set_reg m x (word_of_nat sum)))))"

definition exec_vx_minus_vy :: "u16 \<Rightarrow> machine \<Rightarrow> machine res" where
  "exec_vx_minus_vy opcode m =
     (let x = opcode_decode_register_x opcode;
          y = opcode_decode_register_y opcode in
      if x = VF \<or> y = VF then fatal_vf
      else res_bind (reg m x) (\<lambda>vx. res_bind (reg m y) (\<lambda>vy.
        res_bind (set_reg m VF (if vx > vy then 0x01 else 0x00)) (\<lambda>m.
        set_reg m x (vx - vy)))))"

definition exec_set_vx_rshift_one :: "u16 \<Rightarrow> machine \<Rightarrow> machine res" where
  "exec_set_vx_rshift_one opcode m =
     (let x = opcode_decode_register_x opcode in
      if x = VF then fatal_vf
      else res_bind (reg m x) (\<lambda>vx.
        res_bind (bit_is_set vx 0) (\<lambda>b.
        res_bind (set_reg m VF (if b then 0x01 else 0x00)) (\<lambda>m.
        set_reg m x (drop_bit 1 vx)))))"

definition exec_set_vx_vy_minus_vx :: "u16 \<Rightarrow> machine \<Rightarrow> machine res" where
  "exec_set_vx_vy_minus_vx opcode m =
     (let x = opcode_decode_register_x opcode;
          y = opcode_decode_register_y opcode in
      if x = VF \<or> y = VF then fatal_vf
      else res_bind (reg m x) (\<lambda>vx. res_bind (reg m y) (\<lambda>vy.
        res_bind (set_reg m VF (if vy > vx then 0x01 else 0x00)) (\<lambda>m.
        set_reg m x (vy - vx)))))"

definition exec_set_vx_lshift_one :: "u16 \<Rightarrow> machine \<Rightarrow> machine res" where
  "exec_set_vx_lshift_one opcode m =
     (let x = opcode_decode_register_x opcode in
      if x = VF then fatal_vf
      else res_bind (reg m x) (\<lambda>vx.
        res_bind (bit_is_set vx 7) (\<lambda>b.
        res_bind (set_reg m VF (if b then 0x01 else 0x00)) (\<lambda>m.
        set_reg m x (push_bit 1 vx)))))"

definition exec_if_vx_not_equals_to_vy :: "u16 \<Rightarrow> machine \<Rightarrow> machine res" where
  "exec_if_vx_not_equals_to_vy opcode m =
     (let x = opcode_decode_register_x opcode;
          y = opcode_decode_register_y opcode in
      res_bind (reg m x) (\<lambda>vx. res_bind (reg m y) (\<lambda>vy.
      Inr (if vx \<noteq> vy then cpu_pc_advance m else m))))"

definition exec_set_i_register :: "u16 \<Rightarrow> machine \<Rightarrow> machine res" where
  "exec_set_i_register opcode m =
     (let address = opcode_decode_address opcode in
      Inr (m\<lparr>cpu := cpu m\<lparr>i_reg := address\<rparr>\<rparr>))"

definition exec_jump_to_addr_plus_v0 :: "u16 \<Rightarrow> machine \<Rightarrow> machine res" where
  "exec_jump_to_addr_plus_v0 opcode m =
     (let address = opcode_decode_address opcode in
      res_bind (reg m 0) (\<lambda>v0.
      Inr (cpu_goto_address (address + ucast v0) m)))"

definition exec_set_vx_rand_and :: "env \<Rightarrow> u16 \<Rightarrow> machine \<Rightarrow> machine res" where
  "exec_set_vx_rand_and en opcode m =
     (let x = opcode_decode_register_x opcode;
          k = opcode_decode_const_8bit opcode in
      set_reg m x (random_u8 (rand_value en) AND k))"

definition exec_display_draw_sprite_at :: "u16 \<Rightarrow> machine \<Rightarrow> machine res" where
  "exec_display_draw_sprite_at opcode m =
     (let x = opcode_decode_register_x opcode;
          y = opcode_decode_register_y opcode;
          k = opcode_decode_const_4bit opcode in
      res_bind (reg m x) (\<lambda>vx. res_bind (reg m y) (\<lambda>vy.
      res_bind (display_draw_sprite (display m) vx vy (memory m) (unat (i_reg (cpu m))) k)
        (\<lambda>(buffer, pixel_erased).
      set_reg (m\<lparr>display := buffer\<rparr>) VF (if pixel_erased then 1 else 0)))))"

definition exec_if_key_equals_to_vx :: "env \<Rightarrow> u16 \<Rightarrow> machine \<Rightarrow> machine res" where
  "exec_if_key_equals_to_vx en opcode m =
     (let x = opcode_decode_register_x opcode in
      res_bind (reg m x) (\<lambda>vx.
      res_bind (keyboard_is_key_pressed (keyboard en) vx) (\<lambda>pressed.
      Inr (if pressed then cpu_pc_advance m else m))))"

definition exec_if_key_not_equals_to_vx :: "env \<Rightarrow> u16 \<Rightarrow> machine \<Rightarrow> machine res" where
  "exec_if_key_not_equals_to_vx en opcode m =
     (let x = opcode_decode_register_x opcode in
      res_bind (reg m x) (\<lambda>vx.
      res_bind (keyboard_is_key_pressed (keyboard en) vx) (\<lambda>pressed.
      Inr (if \<not> pressed then cpu_pc_advance m else m))))"

definition exec_set_vx_from_delay_timer :: "u16 \<Rightarrow> machine \<Rightarrow> machine res" where
  "exec_set_vx_from_delay_timer opcode m =
     (let x = opcode_decode_register_x opcode in
      set_reg m x (timer_get_value (delay_timer m)))"

definition exec_set_vx_from_key :: "env \<Rightarrow> u16 \<Rightarrow> machine \<Rightarrow> machine res" where
  "exec_set_vx_from_key en opcode m =
     (let x = opcode_decode_register_x opcode in
      res_bind (keyboard_get_pressed_key (keyboard en)) (\<lambda>pressed.
      case pressed of
        Some key \<Rightarrow> set_reg m x key
      | None \<Rightarrow> Inr (cpu_pc_advance_back m)))"

definition exec_set_delay_timer_from_vx :: "u16 \<Rightarrow> machine \<Rightarrow> machine res" where
  "exec_set_delay_timer_from_vx opcode m =
     (let x = opcode_decode_register_x opcode in
      res_bind (reg m x) (\<lambda>vx.
      Inr (m\<lparr>delay_timer := timer_set_value (delay_timer m) vx\<rparr>)))"

definition exec_set_sound_timer :: "u16 \<Rightarrow> machine \<Rightarrow> machine res" where
  "exec_set_sound_timer opcode m =
     (let x = opcode_decode_register_x opcode in
      res_bind (reg m x) (\<lambda>vx.
      Inr (m\<lparr>sound_timer := timer_set_value (sound_timer m) vx\<rparr>)))"

definition exec_add_vx_to_i :: "u16 \<Rightarrow> machine \<Rightarrow> machine res" where
  "exec_add_vx_to_i opcode m =
     (let x = opcode_decode_register_x opcode in
      res_bind (reg m x) (\<lambda>vx.
      Inr (m\<lparr>cpu := cpu m\<lparr>i_reg := i_reg (cpu m) + ucast vx\<rparr>\<rparr>)))"

definition exec_set_i_to_sprite_addr :: "u16 \<Rightarrow> machine \<Rightarrow> machine res" where
  "exec_set_i_to_sprite_addr opcode m =
     (let x = opcode_decode_register_x opcode in
      res_bind (reg m x) (\<lambda>sprite_value.
      let sprite_addr = memory_address_from_sprite_value sprite_value in
      Inr (m\<lparr>cpu := cpu m\<lparr>i_reg := sprite_addr\<rparr>\<rparr>)))"

definition exec_set_bcd :: "u16 \<Rightarrow> machine \<Rightarrow> machine res" where
  "exec_set_bcd opcode m =
     (let x = opcode_decode_register_x opcode in
      res_bind (reg m x) (\<lambda>vx.
      let hundreds = word_of_nat (unat vx mod 1000 div 100);
          tens = word_of_nat (unat vx mod 100 div 10);
          ones = word_of_nat (unat vx mod 10 div 1);
          a = unat (i_reg (cpu m)) in
      res_bind (mem_set m a hundreds) (\<lambda>m.
      res_bind (mem_set m (a + 1) tens) (\<lambda>m.
      mem_set m (a + 2) ones))))"

text \<open>The loops of \<open>exec_reg_dump\<close> and \<open>exec_reg_load\<close>: \<open>n\<close> registers are left, \<open>i\<close> is the
  next one and \<open>addr\<close> its place in memory.\<close>

fun reg_dump_loop :: "u8 \<Rightarrow> u16 \<Rightarrow> nat \<Rightarrow> machine \<Rightarrow> machine res" where
  "reg_dump_loop i addr 0 m = Inr m"
| "reg_dump_loop i addr (Suc n) m =
     res_bind (reg m i) (\<lambda>v.
     res_bind (mem_set m (unat addr) v) (\<lambda>m.
     reg_dump_loop (i + 1) (addr + 1) n m))"

definition exec_reg_dump :: "u16 \<Rightarrow> machine \<Rightarrow> machine res" where
  "exec_reg_dump opcode m =
     (let x = opcode_decode_register_x opcode in
      reg_dump_loop 0 (i_reg (cpu m)) (unat x + 1) m)"

fun reg_load_loop :: "u8 \<Rightarrow> u16 \<Rightarrow> nat \<Rightarrow> machine \<Rightarrow> machine res" where
  "reg_load_loop i addr 0 m = Inr m"
| "reg_load_loop i addr (Suc n) m =
     res_bind (arr_get (memory m) (unat addr)) (\<lambda>v.
     res_bind (set_reg m i v) (\<lambda>m.
     reg_load_loop (i + 1) (addr + 1) n m))"

definition exec_reg_load :: "u16 \<Rightarrow> machine \<Rightarrow> machine res" where
  "exec_reg_load opcode m =
     (let x = opcode_decode_register_x opcode in
      reg_load_loop 0 (i_reg (cpu m)) (unat x + 1) m)"

section \<open>The fetch, decode and execute cycle\<close>

definition cpu_decode_and_exec_opcode :: "env \<Rightarrow> u16 \<Rightarrow> machine \<Rightarrow> machine res" where
  "cpu_decode_and_exec_opcode en opcode m =
     (if opcode = 0x00E0 then exec_display_clear opcode m else
      if opcode = 0x00EE then exec_return opcode m else
      if opcode AND 0xF000 = 0x0000 then exec_call opcode m else
      if opcode AND 0xF000 = 0x1000 then exec_goto opcode m else
      if opcode AND 0xF000 = 0x2000 then exec_call_subroutine opcode m else
      if opcode AND 0xF000 = 0x3000 then exec_if_equals opcode m else
      if opcode AND 0xF000 = 0x4000 then exec_if_not_equals opcode m else
      if opcode AND 0xF00F = 0x5000 then exec_skip_next_if_vx_equals_vy opcode m else
      if opcode AND 0xF000 = 0x6000 then exec_set_register opcode m else
      if opcode AND 0xF000 = 0x7000 then exec_add_to_vx opcode m else
      if opcode AND 0xF00F = 0x8000 then exec_set_vx_from_vy opcode m else
      if opcode AND 0xF00F = 0x8001 then exec_set_vx_to_vx_or opcode m else
      if opcode AND 0xF00F = 0x8002 then exec_set_vx_to_vx_and opcode m else
      if opcode AND 0xF00F = 0x8003 then exec_set_vx_to_vx_xor opcode m else
      if opcode AND 0xF00F = 0x8004 then exec_vx_plus_vy opcode m else
      if opcode AND 0xF00F = 0x8005 then exec_vx_minus_vy opcode m else
      if opcode AND 0xF00F = 0x8006 then exec_set_vx_rshift_one opcode m else
      if opcode AND 0xF00F = 0x8007 then exec_set_vx_vy_minus_vx opcode m else
      if opcode AND 0xF00F = 0x800E then exec_set_vx_lshift_one opcode m else
      if opcode AND 0xF00F = 0x9000 then exec_if_vx_not_equals_to_vy opcode m else
      if opcode AND 0xF000 = 0xA000 then exec_set_i_register opcode m else
      if opcode AND 0xF000 = 0xB000 then exec_jump_to_addr_plus_v0 opcode m else
      if opcode AND 0xF000 = 0xC000 then exec_set_vx_rand_and en opcode m else
      if opcode AND 0xF000 = 0xD000 then exec_display_draw_sprite_at opcode m else
      if opcode AND 0xF0FF = 0xE09E then exec_if_key_equals_to_vx en opcode m else
      if opcode AND 0xF0FF = 0xE0A1 then exec_if_key_not_equals_to_vx en opcode m else
      if opcode AND 0xF0FF = 0xF007 then exec_set_vx_from_delay_timer opcode m else
      if opcode AND 0xF0FF = 0xF00A then exec_set_vx_from_key en opcode m else
      if opcode AND 0xF0FF = 0xF015 then exec_set_delay_timer_from_vx opcode m else
      if opcode AND 0xF0FF = 0xF018 then exec_set_sound_timer opcode m else
      if opcode AND 0xF0FF = 0xF01E then exec_add_vx_to_i opcode m else
      if opcode AND 0xF0FF = 0xF029 then exec_set_i_to_sprite_addr opcode m else
      if opcode AND 0xF0FF = 0xF033 then exec_set_bcd opcode m else
      if opcode AND 0xF0FF = 0xF055 then exec_reg_dump opcode m else
      if opcode AND 0xF0FF = 0xF065 then exec_reg_load opcode m else
      c_exit (''unsupported opcode. opcode='' @ opcode_fmt opcode))"

definition cpu_step :: "env \<Rightarrow> machine \<Rightarrow> machine res" where
  "cpu_step en m =
     (if unat (pc (cpu m)) \<ge> MEMORY_SIZE then c_exit ''error: program counter (PC) overflow''
      else res_bind (fetch_opcode m) (\<lambda>opcode.
        let m = m\<lparr>trace := trace m @ address_fmt (pc (cpu m)) @ '': OPCODE['' @
                  opcode_fmt opcode @ '']: ''\<rparr> in
        res_bind (c_assert (opcode \<noteq> 0)) (\<lambda>_.
        let m = cpu_pc_advance m;
            m = m\<lparr>trace := trace m @ fst (disassembler_disassemble opcode)\<rparr> in
        cpu_decode_and_exec_opcode en opcode m)))"

text \<open>The function that carries out an instruction. The chain of guards of
  \<open>cpu_decode_and_exec_opcode\<close> selects it by \<open>decode\<close>: no guard hides a later one wrongly.\<close>

fun exec_instr :: "env \<Rightarrow> instr \<Rightarrow> u16 \<Rightarrow> machine \<Rightarrow> machine res" where
  "exec_instr en Clear opcode m = exec_display_clear opcode m"
| "exec_instr en Return opcode m = exec_return opcode m"
| "exec_instr en (Call a) opcode m = exec_call opcode m"
| "exec_instr en (Goto a) opcode m = exec_goto opcode m"
| "exec_instr en (Call_Sub a) opcode m = exec_call_subroutine opcode m"
| "exec_instr en (If_Eq x k) opcode m = exec_if_equals opcode m"
| "exec_instr en (If_Neq x k) opcode m = exec_if_not_equals opcode m"
| "exec_instr en (If_Eq_Reg x y) opcode m = exec_skip_next_if_vx_equals_vy opcode m"
| "exec_instr en (Set_Reg x k) opcode m = exec_set_register opcode m"
| "exec_instr en (Add_Const x k) opcode m = exec_add_to_vx opcode m"
| "exec_instr en (Alu Alu_Mov x y) opcode m = exec_set_vx_from_vy opcode m"
| "exec_instr en (Alu Alu_Or x y) opcode m = exec_set_vx_to_vx_or opcode m"
| "exec_instr en (Alu Alu_And x y) opcode m = exec_set_vx_to_vx_and opcode m"
| "exec_instr en (Alu Alu_Xor x y) opcode m = exec_set_vx_to_vx_xor opcode m"
| "exec_instr en (Alu Alu_Plus x y) opcode m = exec_vx_plus_vy opcode m"
| "exec_instr en (Alu Alu_Minus x y) opcode m = exec_vx_minus_vy opcode m"
| "exec_instr en (Alu Alu_Shr x y) opcode m = exec_set_vx_rshift_one opcode m"
| "exec_instr en (Alu Alu_Rev_Minus x y) opcode m = exec_set_vx_vy_minus_vx opcode m"
| "exec_instr en (Alu Alu_Shl x y) opcode m = exec_set_vx_lshift_one opcode m"
| "exec_instr en (If_Neq_Reg x y) opcode m = exec_if_vx_not_equals_to_vy opcode m"
| "exec_instr en (Set_I a) opcode m = exec_set_i_register opcode m"
| "exec_instr en (Jump_V0 a) opcode m = exec_jump_to_addr_plus_v0 opcode m"
| "exec_instr en (Rand x k) opcode m = exec_set_vx_rand_and en opcode m"
| "exec_instr en (Draw x y n) opcode m = exec_display_draw_sprite_at opcode m"
| "exec_instr en (If_Key x) opcode m = exec_if_key_equals_to_vx en opcode m"
| "exec_instr en (If_Not_Key x) opcode m = exec_if_key_not_equals_to_vx en opcode m"
| "exec_instr en (Misc Get_Delay x) opcode m = exec_set_vx_from_delay_timer opcode m"
| "exec_instr en (Misc Wait_Key x) opcode m = exec_set_vx_from_key en opcode m"
| "exec_instr en (Misc Set_Delay x) opcode m = exec_set_delay_timer_from_vx opcode m"
| "exec_instr en (Misc Set_Sound x) opcode m = exec_set_sound_timer opcode m"
| "exec_instr en (Misc Add_I x) opcode m = exec_add_vx_to_i opcode m"
| "exec_instr en (Misc Sprite_Addr x) opcode m = exec_set_i_to_sprite_addr opcode m"
| "exec_instr en (Misc Store_Bcd x) opcode m = exec_set_bcd opcode m"
| "exec_instr en (Misc Dump x) opcode m = exec_reg_dump opcode m"
| "exec_instr en (Misc Load x) opcode m = exec_reg_load opcode m"

lemma decode_by_digit:
  "unat (w :: u16) div 4096 = d \<Longrightarrow> 0 < d \<Longrightarrow> w \<noteq> 0x00E0 \<and> w \<noteq> 0x00EE"
  by (auto simp: word_unat_eq_iff)

lemma cpu_exec_by_decode:
  "cpu_decode_and_exec_opcode en w m =
     (case decode w of
        None \<Rightarrow> c_exit (''unsupported opcode. opcode='' @ opcode_fmt w)
      | Some i \<Rightarrow> exec_instr en i w m)"
proof -
  have "unat w div 4096 < 16" by simp
  then show ?thesis
    by (cases rule: digit_cases)
      (simp_all add: cpu_decode_and_exec_opcode_def decode_def Let_def opcode_mask_iff
        decode_by_digit decode_alu_def decode_misc_def)
qed

section \<open>Well-formed machines\<close>

definition machine_wf :: "machine \<Rightarrow> bool" where
  "machine_wf m \<longleftrightarrow>
     length (memory m) = MEMORY_SIZE \<and>
     length (registers (cpu m)) = REGISTER_COUNT \<and>
     length (stack (cpu m)) = STACK_CAPACITY \<and>
     stack_count (cpu m) \<le> STACK_CAPACITY \<and>
     display_wf (display m)"

text \<open>The operands of an instruction that the code uses as an index without a check: the
  bytes of a sprite, of a BCD number, of a register dump or load, and a key value.\<close>

fun access_ok :: "instr \<Rightarrow> machine \<Rightarrow> bool" where
  "access_ok (Draw x y n) m \<longleftrightarrow> n = 0 \<or> unat (i_reg (cpu m)) + unat n \<le> MEMORY_SIZE"
| "access_ok (If_Key x) m \<longleftrightarrow> unat (registers (cpu m) ! unat x) < KEYBOARD_KEYS_COUNT"
| "access_ok (If_Not_Key x) m \<longleftrightarrow> unat (registers (cpu m) ! unat x) < KEYBOARD_KEYS_COUNT"
| "access_ok (Misc Store_Bcd x) m \<longleftrightarrow> unat (i_reg (cpu m)) + 2 < MEMORY_SIZE"
| "access_ok (Misc Dump x) m \<longleftrightarrow> unat (i_reg (cpu m)) + unat x < MEMORY_SIZE"
| "access_ok (Misc Load x) m \<longleftrightarrow> unat (i_reg (cpu m)) + unat x < MEMORY_SIZE"
| "access_ok _ m \<longleftrightarrow> True"

text \<open>The messages with which an instruction may end the program.\<close>

definition exits :: "fault \<Rightarrow> bool" where
  "exits e \<longleftrightarrow>
     e = Exit_Failure ''programs should not operate on VF register'' \<or>
     e = Exit_Failure ''error: cpu: runtime: stack overflow'' \<or>
     e = Exit_Failure ''error: cpu: runtime: stack underflow''"

lemma exits_Out_Of_Bounds [simp]: "\<not> exits Out_Of_Bounds"
  by (simp add: exits_def)

lemma exitsD: "exits e \<Longrightarrow> \<exists>msg. e = Exit_Failure msg"
  by (auto simp: exits_def)

lemmas machine_sizes =
  MEMORY_SIZE_def REGISTER_COUNT_def STACK_CAPACITY_def KEYBOARD_KEYS_COUNT_def

lemma unat_VF [simp]: "unat VF = 15"
  by (simp add: VF_def)

lemma machine_wf_sizes:
  assumes "machine_wf m"
  shows "length (memory m) = 4096" "length (registers (cpu m)) = 16"
    "length (stack (cpu m)) = 12" "stack_count (cpu m) \<le> 12" "display_wf (display m)"
  using assms by (simp_all add: machine_wf_def machine_sizes)

text \<open>Updates that keep a machine well formed.\<close>

lemma machine_wf_updates [simp]:
  "machine_wf (m\<lparr>trace := t\<rparr>) = machine_wf m"
  "machine_wf (m\<lparr>delay_timer := d\<rparr>) = machine_wf m"
  "machine_wf (m\<lparr>sound_timer := d\<rparr>) = machine_wf m"
  "machine_wf (m\<lparr>cpu := cpu m\<lparr>pc := a\<rparr>\<rparr>) = machine_wf m"
  "machine_wf (m\<lparr>cpu := cpu m\<lparr>i_reg := a\<rparr>\<rparr>) = machine_wf m"
  "machine_wf (m\<lparr>cpu := cpu m\<lparr>registers := (registers (cpu m))[k := v]\<rparr>\<rparr>) = machine_wf m"
  "machine_wf (m\<lparr>memory := (memory m)[k := v]\<rparr>) = machine_wf m"
  by (simp_all add: machine_wf_def)

lemma machine_wf_display [simp]:
  "machine_wf m \<Longrightarrow> machine_wf (m\<lparr>display := b\<rparr>) = display_wf b"
  by (simp add: machine_wf_def)

lemma machine_wf_display_reg [simp]:
  "machine_wf m \<Longrightarrow> display_wf b \<Longrightarrow>
     machine_wf (m\<lparr>display := b, cpu := cpu m\<lparr>registers := (registers (cpu m))[k := v]\<rparr>\<rparr>)"
  by (simp add: machine_wf_def)

lemma machine_wf_pc [simp]:
  "machine_wf (cpu_pc_advance m) = machine_wf m"
  "machine_wf (cpu_pc_advance_back m) = machine_wf m"
  "machine_wf (cpu_goto_address a m) = machine_wf m"
  by (simp_all add: cpu_pc_advance_def cpu_pc_advance_back_def cpu_goto_address_def)

lemma wp_reg [wp_simps]:
  "wp (reg m x) Q E =
     ((unat x < length (registers (cpu m)) \<longrightarrow> Q (registers (cpu m) ! unat x)) \<and>
      (length (registers (cpu m)) \<le> unat x \<longrightarrow> E Out_Of_Bounds))"
  by (simp add: reg_def wp_rules)

lemma wp_set_reg [wp_simps]:
  "wp (set_reg m x v) Q E =
     ((unat x < length (registers (cpu m)) \<longrightarrow>
        Q (m\<lparr>cpu := cpu m\<lparr>registers := (registers (cpu m))[unat x := v]\<rparr>\<rparr>)) \<and>
      (length (registers (cpu m)) \<le> unat x \<longrightarrow> E Out_Of_Bounds))"
  by (simp add: set_reg_def wp_rules)

lemma wp_mem_set [wp_simps]:
  "wp (mem_set m a v) Q E =
     ((a < length (memory m) \<longrightarrow> Q (m\<lparr>memory := (memory m)[a := v]\<rparr>)) \<and>
      (length (memory m) \<le> a \<longrightarrow> E Out_Of_Bounds))"
  by (simp add: mem_set_def wp_rules)

section \<open>The call stack\<close>

definition cpu_stack_contents :: "cpu \<Rightarrow> u16 list" where
  "cpu_stack_contents c = take (stack_count c) (stack c)"

definition cpu_stack_ok :: "cpu \<Rightarrow> bool" where
  "cpu_stack_ok c \<longleftrightarrow> length (stack c) = STACK_CAPACITY \<and> stack_count c \<le> STACK_CAPACITY"

interpretation call_stack: bounded_stack
  cpu_stack_push cpu_stack_contents STACK_CAPACITY cpu_stack_ok cpu_stack_pop
proof (unfold_locales, goal_cases)
  case (1 s x)
  then show ?case
    by (auto simp: cpu_stack_push_def cpu_stack_contents_def cpu_stack_ok_def take_Suc_conv_app_nth)
next
  case (2 s x)
  then show ?case
    by (auto simp: cpu_stack_push_def cpu_stack_contents_def cpu_stack_ok_def c_exit_def)
next
  case (3 s)
  then show ?case by (simp add: cpu_stack_contents_def cpu_stack_ok_def)
next
  case (4 s)
  then show ?case
    by (cases "stack_count s")
      (auto simp: cpu_stack_pop_def cpu_stack_contents_def cpu_stack_ok_def Let_def
        take_Suc_conv_app_nth)
next
  case (5 s)
  then show ?case
    by (auto simp: cpu_stack_pop_def cpu_stack_contents_def cpu_stack_ok_def c_exit_def)
qed

lemma machine_wf_stack_ok: "machine_wf m \<Longrightarrow> cpu_stack_ok (cpu m)"
  by (simp add: machine_wf_def cpu_stack_ok_def)


section \<open>Every instruction keeps the machine well formed\<close>

text \<open>
  For every instruction, from a well-formed machine: it returns a well-formed machine or it
  ends the program with a message (\<open>exec_safe\<close>); those that index memory or the keyboard do so
  out of bounds exactly when a condition on their operands fails (\<open>exec_index\<close>).
\<close>

abbreviation exec_safe :: "machine res \<Rightarrow> bool" where
  "exec_safe r \<equiv> wp r machine_wf exits"

abbreviation exec_index :: "bool \<Rightarrow> machine res \<Rightarrow> bool" where
  "exec_index ok r \<equiv> wp r (\<lambda>m'. machine_wf m' \<and> ok) (\<lambda>e. e = Out_Of_Bounds \<and> \<not> ok)"

lemmas exec_reg_defs =
  exec_if_equals_def exec_if_not_equals_def exec_skip_next_if_vx_equals_vy_def
  exec_set_register_def exec_add_to_vx_def exec_set_vx_from_vy_def exec_set_vx_to_vx_or_def
  exec_set_vx_to_vx_and_def exec_set_vx_to_vx_xor_def exec_vx_plus_vy_def exec_vx_minus_vy_def
  exec_set_vx_rshift_one_def exec_set_vx_vy_minus_vx_def exec_set_vx_lshift_one_def
  exec_if_vx_not_equals_to_vy_def exec_set_vx_rand_and_def exec_set_vx_from_delay_timer_def
  fatal_vf_def

lemmas exec_state_defs =
  exec_display_clear_def exec_goto_def exec_set_i_register_def exec_jump_to_addr_plus_v0_def
  exec_set_delay_timer_from_vx_def exec_set_sound_timer_def exec_add_vx_to_i_def
  exec_set_i_to_sprite_addr_def

lemma machine_wf_set_stack:
  "machine_wf m \<Longrightarrow> cpu_stack_ok c \<Longrightarrow> registers c = registers (cpu m) \<Longrightarrow>
     machine_wf (m\<lparr>cpu := c\<rparr>)"
  by (simp add: machine_wf_def cpu_stack_ok_def)

lemma wp_stack_push:
  assumes "machine_wf m"
    and "\<And>c. machine_wf (m\<lparr>cpu := c\<rparr>) \<Longrightarrow> Q c"
    and "E (Exit_Failure ''error: cpu: runtime: stack overflow'')"
  shows "wp (cpu_stack_push (cpu m) a) Q E"
  using assms
  by (auto simp: cpu_stack_push_def wp_rules machine_wf_def machine_sizes)

lemma wp_stack_pop:
  assumes "machine_wf m"
    and "\<And>a c. machine_wf (m\<lparr>cpu := c\<rparr>) \<Longrightarrow> Q (a, c)"
    and "E (Exit_Failure ''error: cpu: runtime: stack underflow'')"
  shows "wp (cpu_stack_pop (cpu m)) Q E"
  using assms
  by (auto simp: cpu_stack_pop_def wp_rules machine_wf_def machine_sizes)

lemma exec_return_safe: "machine_wf m \<Longrightarrow> exec_safe (exec_return opcode m)"
  by (auto simp: exec_return_def exits_def wp_simps intro!: wp_stack_pop)

lemma exec_call_safe: "machine_wf m \<Longrightarrow> exec_safe (exec_call opcode m)"
  by (auto simp: exec_call_def exits_def wp_simps Let_def intro!: wp_stack_push)

lemma exec_call_subroutine_safe:
  "machine_wf m \<Longrightarrow> exec_safe (exec_call_subroutine opcode m)"
  by (auto simp: exec_call_subroutine_def exits_def wp_simps Let_def intro!: wp_stack_push)

lemma exec_reg_safe:
  assumes "machine_wf m"
  shows "exec_safe (exec_if_equals opcode m)"
    "exec_safe (exec_if_not_equals opcode m)"
    "exec_safe (exec_skip_next_if_vx_equals_vy opcode m)"
    "exec_safe (exec_set_register opcode m)"
    "exec_safe (exec_add_to_vx opcode m)"
    "exec_safe (exec_set_vx_from_vy opcode m)"
    "exec_safe (exec_set_vx_to_vx_or opcode m)"
    "exec_safe (exec_set_vx_to_vx_and opcode m)"
    "exec_safe (exec_set_vx_to_vx_xor opcode m)"
    "exec_safe (exec_vx_plus_vy opcode m)"
    "exec_safe (exec_vx_minus_vy opcode m)"
    "exec_safe (exec_set_vx_rshift_one opcode m)"
    "exec_safe (exec_set_vx_vy_minus_vx opcode m)"
    "exec_safe (exec_set_vx_lshift_one opcode m)"
    "exec_safe (exec_if_vx_not_equals_to_vy opcode m)"
    "exec_safe (exec_set_vx_rand_and en opcode m)"
    "exec_safe (exec_set_vx_from_delay_timer opcode m)"
  using assms
  by (simp_all add: exec_reg_defs exits_def wp_simps machine_wf_sizes Let_def not_le)

lemma exec_state_safe:
  assumes "machine_wf m"
  shows "exec_safe (exec_display_clear opcode m)"
    "exec_safe (exec_goto opcode m)"
    "exec_safe (exec_set_i_register opcode m)"
    "exec_safe (exec_jump_to_addr_plus_v0 opcode m)"
    "exec_safe (exec_set_delay_timer_from_vx opcode m)"
    "exec_safe (exec_set_sound_timer opcode m)"
    "exec_safe (exec_add_vx_to_i opcode m)"
    "exec_safe (exec_set_i_to_sprite_addr opcode m)"
  using assms
  by (simp_all add: exec_state_defs wp_simps machine_wf_sizes Let_def not_le)

lemma exec_set_vx_from_key_safe:
  assumes "machine_wf m"
  shows "exec_safe (exec_set_vx_from_key en opcode m)"
  using assms
  by (auto simp: exec_set_vx_from_key_def wp_simps machine_wf_sizes Let_def
      intro!: wp_get_pressed_key)


subsection \<open>Register dumps and loads\<close>

lemma unat_inc_u8: "unat (i :: u8) < 255 \<Longrightarrow> unat (i + 1) = Suc (unat i)"
  by (simp add: unat_word_ariths)

lemma unat_inc_u16: "unat (a :: u16) < 65535 \<Longrightarrow> unat (a + 1) = Suc (unat a)"
  by (simp add: unat_word_ariths)

lemma splice_step:
  assumes "a < length xs" and "k < length ys"
  shows "take (Suc a) (xs[a := ys ! k]) @ take n (drop (Suc k) ys) @ drop (Suc a + n) (xs[a := ys ! k]) =
    take a xs @ take (Suc n) (drop k ys) @ drop (a + Suc n) xs"
proof -
  have "take (Suc a) (xs[a := ys ! k]) = take a xs @ [ys ! k]"
    using assms by (simp add: take_Suc_conv_app_nth)
  moreover have "take (Suc n) (drop k ys) = ys ! k # take n (drop (Suc k) ys)"
    using assms by (simp add: Cons_nth_drop_Suc [symmetric])
  moreover have "drop (Suc a + n) (xs[a := ys ! k]) = drop (a + Suc n) xs"
    by simp
  ultimately show ?thesis by simp
qed

lemma reg_dump_loop_ok:
  "length (memory m) = 4096 \<Longrightarrow> length (registers (cpu m)) = 16 \<Longrightarrow>
     unat i + n \<le> 16 \<Longrightarrow> unat addr + n \<le> 4096 \<Longrightarrow>
     reg_dump_loop i addr n m =
       Inr (m\<lparr>memory := take (unat addr) (memory m) @ take n (drop (unat i) (registers (cpu m))) @
              drop (unat addr + n) (memory m)\<rparr>)"
proof (induction n arbitrary: i addr m)
  case 0
  then show ?case by simp
next
  case (Suc n)
  let ?v = "registers (cpu m) ! unat i"
  have "reg_dump_loop i addr (Suc n) m =
      reg_dump_loop (i + 1) (addr + 1) n (m\<lparr>memory := (memory m)[unat addr := ?v]\<rparr>)"
    using Suc.prems by (simp add: reg_def mem_set_def)
  also have "\<dots> = Inr (m\<lparr>memory := take (Suc (unat addr)) ((memory m)[unat addr := ?v]) @
       take n (drop (Suc (unat i)) (registers (cpu m))) @
       drop (Suc (unat addr) + n) ((memory m)[unat addr := ?v])\<rparr>)"
    using Suc.prems by (subst Suc.IH) (simp_all add: unat_inc_u8 unat_inc_u16)
  finally show ?case
    using Suc.prems by (simp only: splice_step)
qed

lemma reg_dump_loop_oob:
  "length (memory m) = 4096 \<Longrightarrow> length (registers (cpu m)) = 16 \<Longrightarrow>
     unat i + n \<le> 16 \<Longrightarrow> 4096 < unat addr + n \<Longrightarrow> 0 < n \<Longrightarrow>
     reg_dump_loop i addr n m = Inl Out_Of_Bounds"
proof (induction n arbitrary: i addr m)
  case 0
  then show ?case by simp
next
  case (Suc n)
  then show ?case
    by (cases "unat addr < 4096")
      (auto simp: reg_def mem_set_def arr_set_def unat_inc_u8 unat_inc_u16)
qed

lemma reg_load_loop_ok:
  "length (memory m) = 4096 \<Longrightarrow> length (registers (cpu m)) = 16 \<Longrightarrow>
     unat i + n \<le> 16 \<Longrightarrow> unat addr + n \<le> 4096 \<Longrightarrow>
     reg_load_loop i addr n m =
       Inr (m\<lparr>cpu := cpu m\<lparr>registers := take (unat i) (registers (cpu m)) @
              take n (drop (unat addr) (memory m)) @ drop (unat i + n) (registers (cpu m))\<rparr>\<rparr>)"
proof (induction n arbitrary: i addr m)
  case 0
  then show ?case by simp
next
  case (Suc n)
  let ?v = "memory m ! unat addr"
  have "reg_load_loop i addr (Suc n) m =
      reg_load_loop (i + 1) (addr + 1) n
        (m\<lparr>cpu := cpu m\<lparr>registers := (registers (cpu m))[unat i := ?v]\<rparr>\<rparr>)"
    using Suc.prems by (simp add: set_reg_def)
  also have "\<dots> = Inr (m\<lparr>cpu := cpu m\<lparr>registers :=
       take (Suc (unat i)) ((registers (cpu m))[unat i := ?v]) @
       take n (drop (Suc (unat addr)) (memory m)) @
       drop (Suc (unat i) + n) ((registers (cpu m))[unat i := ?v])\<rparr>\<rparr>)"
    using Suc.prems by (subst Suc.IH) (simp_all add: unat_inc_u8 unat_inc_u16)
  finally show ?case
    using Suc.prems by (simp only: splice_step)
qed

lemma reg_load_loop_oob:
  "length (memory m) = 4096 \<Longrightarrow> length (registers (cpu m)) = 16 \<Longrightarrow>
     unat i + n \<le> 16 \<Longrightarrow> 4096 < unat addr + n \<Longrightarrow> 0 < n \<Longrightarrow>
     reg_load_loop i addr n m = Inl Out_Of_Bounds"
proof (induction n arbitrary: i addr m)
  case 0
  then show ?case by simp
next
  case (Suc n)
  then show ?case
    by (cases "unat addr < 4096")
      (auto simp: set_reg_def arr_get_def unat_inc_u8 unat_inc_u16)
qed

text \<open>A machine whose registers or memory are replaced by lists of the same length.\<close>

lemma machine_wf_memory:
  "machine_wf m \<Longrightarrow> length mem = 4096 \<Longrightarrow> machine_wf (m\<lparr>memory := mem\<rparr>)"
  by (simp add: machine_wf_def machine_sizes)

lemma machine_wf_registers:
  "machine_wf m \<Longrightarrow> length rs = 16 \<Longrightarrow> machine_wf (m\<lparr>cpu := cpu m\<lparr>registers := rs\<rparr>\<rparr>)"
  by (simp add: machine_wf_def machine_sizes)

subsection \<open>Instructions that index memory or the keyboard\<close>

text \<open>Each of these is out of bounds exactly when its operands are not \<open>access_ok\<close>.\<close>

lemma exec_reg_dump_eq:
  assumes "machine_wf m"
  shows "exec_reg_dump opcode m =
    (let a = unat (i_reg (cpu m)); n = unat (opcode_decode_register_x opcode) + 1 in
     if a + n \<le> 4096
     then Inr (m\<lparr>memory := take a (memory m) @ take n (registers (cpu m)) @ drop (a + n) (memory m)\<rparr>)
     else Inl Out_Of_Bounds)"
proof -
  define n where "n = unat (opcode_decode_register_x opcode) + 1"
  have n: "0 < n" "n \<le> 16"
    using decode_register_x_less [of opcode] unfolding n_def by linarith+
  have "exec_reg_dump opcode m = reg_dump_loop 0 (i_reg (cpu m)) n m"
    by (simp only: exec_reg_dump_def Let_def n_def)
  with assms n show ?thesis
    unfolding Let_def n_def [symmetric]
    by (simp add: reg_dump_loop_ok reg_dump_loop_oob machine_wf_sizes not_le)
qed

lemma exec_reg_load_eq:
  assumes "machine_wf m"
  shows "exec_reg_load opcode m =
    (let a = unat (i_reg (cpu m)); n = unat (opcode_decode_register_x opcode) + 1 in
     if a + n \<le> 4096
     then Inr (m\<lparr>cpu := cpu m\<lparr>registers :=
            take n (drop a (memory m)) @ drop n (registers (cpu m))\<rparr>\<rparr>)
     else Inl Out_Of_Bounds)"
proof -
  define n where "n = unat (opcode_decode_register_x opcode) + 1"
  have n: "0 < n" "n \<le> 16"
    using decode_register_x_less [of opcode] unfolding n_def by linarith+
  have "exec_reg_load opcode m = reg_load_loop 0 (i_reg (cpu m)) n m"
    by (simp only: exec_reg_load_def Let_def n_def)
  with assms n show ?thesis
    unfolding Let_def n_def [symmetric]
    by (simp add: reg_load_loop_ok reg_load_loop_oob machine_wf_sizes not_le)
qed

lemma exec_reg_dump_safe:
  "machine_wf m \<Longrightarrow>
     exec_index (unat (i_reg (cpu m)) + unat (opcode_decode_register_x opcode) < 4096)
       (exec_reg_dump opcode m)"
  by (auto simp: exec_reg_dump_eq Let_def machine_wf_sizes min_absorb2 Suc_le_eq
      intro!: machine_wf_memory)

lemma exec_reg_load_safe:
  "machine_wf m \<Longrightarrow>
     exec_index (unat (i_reg (cpu m)) + unat (opcode_decode_register_x opcode) < 4096)
       (exec_reg_load opcode m)"
  by (auto simp: exec_reg_load_eq Let_def machine_wf_sizes min_absorb2 Suc_le_eq
      intro!: machine_wf_registers)

lemma exec_set_bcd_safe:
  "machine_wf m \<Longrightarrow> exec_index (unat (i_reg (cpu m)) + 2 < 4096) (exec_set_bcd opcode m)"
  by (auto simp: exec_set_bcd_def Let_def wp_simps machine_wf_sizes)

lemma exec_key_safe:
  assumes "machine_wf m"
  shows "exec_index (unat (registers (cpu m) ! unat (opcode_decode_register_x opcode)) < 16)
      (exec_if_key_equals_to_vx en opcode m)"
    and "exec_index (unat (registers (cpu m) ! unat (opcode_decode_register_x opcode)) < 16)
      (exec_if_key_not_equals_to_vx en opcode m)"
  using assms
  by (auto simp: exec_if_key_equals_to_vx_def exec_if_key_not_equals_to_vx_def Let_def wp_simps
      machine_wf_sizes)

lemma exec_draw_safe:
  assumes "machine_wf m"
  shows "exec_index (opcode_decode_const_4bit opcode = 0 \<or>
       unat (i_reg (cpu m)) + unat (opcode_decode_const_4bit opcode) \<le> 4096)
     (exec_display_draw_sprite_at opcode m)"
proof -
  have "unat (opcode_decode_const_4bit opcode) \<le> 32"
    using decode_const_4bit_less [of opcode] by linarith
  with assms show ?thesis
    by (auto simp: exec_display_draw_sprite_at_def Let_def wp_simps machine_wf_sizes unat_eq_0
        intro!: wp_draw_sprite)
qed

subsection \<open>All instructions\<close>

lemmas exec_safe_rules =
  exec_reg_safe exec_state_safe exec_return_safe exec_call_safe exec_call_subroutine_safe
  exec_set_vx_from_key_safe

lemmas exec_index_rules =
  exec_draw_safe exec_key_safe exec_set_bcd_safe exec_reg_dump_safe exec_reg_load_safe

lemma decode_operands:
  "decode w = Some (Draw x y n) \<Longrightarrow> n = opcode_decode_const_4bit w"
  "decode w = Some (If_Key x) \<Longrightarrow> x = opcode_decode_register_x w"
  "decode w = Some (If_Not_Key x) \<Longrightarrow> x = opcode_decode_register_x w"
  "decode w = Some (Misc f x) \<Longrightarrow> x = opcode_decode_register_x w"
  by (auto simp: decode_def Let_def split: if_splits)

lemma decode_alu_operands:
  "decode w = Some (Alu f x y) \<Longrightarrow> x = opcode_decode_register_x w \<and> y = opcode_decode_register_y w"
  by (auto simp: decode_def Let_def split: if_splits)

lemma exec_instr_safe:
  assumes "machine_wf m" and "decode w = Some i"
  shows "wp (exec_instr en i w m) (\<lambda>m'. machine_wf m' \<and> access_ok i m)
    (\<lambda>e. (access_ok i m \<longrightarrow> exits e) \<and> (\<not> access_ok i m \<longrightarrow> e = Out_Of_Bounds))"
proof -
  have safe: "exec_safe r \<Longrightarrow> wp r (\<lambda>m'. machine_wf m' \<and> True)
      (\<lambda>e. (True \<longrightarrow> exits e) \<and> (\<not> True \<longrightarrow> e = Out_Of_Bounds))" for r
    by simp
  have index: "exec_index ok r \<Longrightarrow> wp r (\<lambda>m'. machine_wf m' \<and> ok)
      (\<lambda>e. (ok \<longrightarrow> exits e) \<and> (\<not> ok \<longrightarrow> e = Out_Of_Bounds))" for ok r
    by (erule wp_mono) simp_all
  note rules = exec_safe_rules [OF assms(1), THEN safe] exec_index_rules [OF assms(1), THEN index]
  show ?thesis
  proof (cases i)
    case (Alu f x y)
    then show ?thesis using rules by (cases f) simp_all
  next
    case (Misc f x)
    then show ?thesis
      using rules assms(2) by (cases f) (auto simp: machine_sizes dest!: decode_operands)
  qed (use rules assms(2) in \<open>auto simp: machine_sizes dest!: decode_operands\<close>)
qed

section \<open>One step\<close>

text \<open>The opcode at an address: two bytes, the first one the more significant.\<close>

definition opcode_at :: "u8 list \<Rightarrow> nat \<Rightarrow> u16" where
  "opcode_at mem a = word_of_nat (256 * unat (mem ! a) + unat (mem ! (a + 1)))"

lemma big_endian: "push_bit 8 (ucast hi) OR ucast lo = (word_of_nat (256 * unat hi + unat lo) :: u16)"
  for hi lo :: u8
proof -
  have "push_bit 8 (ucast hi) OR ucast lo = (push_bit 8 (ucast hi) + ucast lo :: u16)"
    by (rule disjunctive_add [symmetric])
      (auto simp: bit_push_bit_iff bit_ucast_iff dest: bit_imp_le_length)
  also have "\<dots> = 256 * ucast hi + ucast lo"
    by (simp add: push_bit_eq_mult)
  finally show ?thesis by simp
qed

lemma fetch_opcode_ok:
  "unat (pc (cpu m)) + 1 < length (memory m) \<Longrightarrow>
     fetch_opcode m = Inr (opcode_at (memory m) (unat (pc (cpu m))))"
  by (simp add: fetch_opcode_def opcode_at_def big_endian)

lemma fetch_opcode_oob:
  "unat (pc (cpu m)) + 1 = length (memory m) \<Longrightarrow> fetch_opcode m = Inl Out_Of_Bounds"
  by (simp add: fetch_opcode_def arr_get_def)

lemma access_ok_cong:
  assumes "registers (cpu m') = registers (cpu m)" and "i_reg (cpu m') = i_reg (cpu m)"
  shows "access_ok i m' = access_ok i m"
proof (cases i)
  case (Misc f x)
  then show ?thesis using assms by (cases f) simp_all
qed (use assms in simp_all)

text \<open>The machine that an instruction finds: the program counter is past it, and it has been
  printed.\<close>

definition fetched :: "u16 \<Rightarrow> machine \<Rightarrow> machine" where
  "fetched opcode m =
     (let m = m\<lparr>trace := trace m @ address_fmt (pc (cpu m)) @ '': OPCODE['' @
                opcode_fmt opcode @ '']: ''\<rparr>;
          m = cpu_pc_advance m in
      m\<lparr>trace := trace m @ fst (disassembler_disassemble opcode)\<rparr>)"

lemma fetched_wf [simp]: "machine_wf (fetched opcode m) = machine_wf m"
  by (simp add: fetched_def Let_def)

lemma fetched_access_ok [simp]: "access_ok i (fetched opcode m) = access_ok i m"
  by (rule access_ok_cong) (simp_all add: fetched_def Let_def cpu_pc_advance_def)

lemma cpu_step_eq:
  assumes "machine_wf m"
  shows "cpu_step en m =
    (let a = unat (pc (cpu m)); opcode = opcode_at (memory m) a in
     if a \<ge> 4096 then c_exit ''error: program counter (PC) overflow''
     else if a = 4095 then Inl Out_Of_Bounds
     else if opcode = 0 then Inl Assert_Failure
     else cpu_decode_and_exec_opcode en opcode (fetched opcode m))"
  using assms
  by (auto simp: cpu_step_def fetch_opcode_ok fetch_opcode_oob machine_wf_sizes machine_sizes Let_def
      c_assert_def fetched_def)

lemma cpu_exec_wp:
  assumes "machine_wf m"
  shows "wp (cpu_decode_and_exec_opcode en w m) machine_wf
    (\<lambda>e. e = Exit_Failure (''unsupported opcode. opcode='' @ opcode_fmt w) \<and> decode w = None \<or>
         exits e \<and> (\<exists>i. decode w = Some i \<and> access_ok i m) \<or>
         e = Out_Of_Bounds \<and> (\<exists>i. decode w = Some i \<and> \<not> access_ok i m))"
proof (cases "decode w")
  case None
  then show ?thesis by (simp add: cpu_exec_by_decode wp_exit)
next
  case (Some i)
  then show ?thesis
    using exec_instr_safe [OF assms Some, of en]
    by (simp add: cpu_exec_by_decode) (erule wp_mono; auto)
qed

section \<open>How a step ends\<close>

text \<open>The fault of an instruction in a state, if it has one: a return without a call, a call when the stack is full, arithmetic
  with the flag register as an operand where the result sets the flag, and an access outside an array.\<close>

fun instr_fault :: "instr \<Rightarrow> machine \<Rightarrow> fault option" where
  "instr_fault Return m =
     (if stack_count (cpu m) = 0 then Some (Exit_Failure ''error: cpu: runtime: stack underflow'') else None)"
| "instr_fault (Call a) m =
     (if stack_count (cpu m) = 12 then Some (Exit_Failure ''error: cpu: runtime: stack overflow'') else None)"
| "instr_fault (Call_Sub a) m =
     (if stack_count (cpu m) = 12 then Some (Exit_Failure ''error: cpu: runtime: stack overflow'') else None)"
| "instr_fault (Alu f x y) m =
     (if f \<in> {Alu_Plus, Alu_Minus, Alu_Rev_Minus} \<and> (x = VF \<or> y = VF) \<or> f \<in> {Alu_Shr, Alu_Shl} \<and> x = VF
      then Some (Exit_Failure ''programs should not operate on VF register'') else None)"
| "instr_fault i m = (if access_ok i m then None else Some Out_Of_Bounds)"

text \<open>The fault of a step: the program counter is outside memory, or at its last byte, so that the second byte of the opcode is
  outside; the opcode is zero, which an assertion excludes, or encodes no instruction; or the instruction has a
  fault.\<close>

definition step_fault :: "machine \<Rightarrow> fault option" where
  "step_fault m =
     (let a = unat (pc (cpu m)); opcode = opcode_at (memory m) a in
      if a \<ge> 4096 then Some (Exit_Failure ''error: program counter (PC) overflow'')
      else if a = 4095 then Some Out_Of_Bounds
      else if opcode = 0 then Some Assert_Failure
      else case decode opcode of
        None \<Rightarrow> Some (Exit_Failure (''unsupported opcode. opcode='' @ opcode_fmt opcode))
      | Some i \<Rightarrow> instr_fault i m)"

text \<open>The call stack after an instruction; \<open>ret\<close> is the address behind it.\<close>

fun stack_after :: "instr \<Rightarrow> u16 \<Rightarrow> u16 list \<Rightarrow> u16 list" where
  "stack_after Return ret st = butlast st"
| "stack_after (Call a) ret st = st @ [ret]"
| "stack_after (Call_Sub a) ret st = st @ [ret]"
| "stack_after _ ret st = st"

abbreviation exec_faults :: "fault option \<Rightarrow> machine res \<Rightarrow> bool" where
  "exec_faults flt r \<equiv> wp r (\<lambda>_. flt = None) (\<lambda>e. flt = Some e)"

lemma exec_reg_faults:
  fixes opcode :: u16
  assumes "machine_wf m"
  defines "vf \<equiv> \<lambda>b. if b then Some (Exit_Failure ''programs should not operate on VF register'') else None"
    and "x \<equiv> opcode_decode_register_x opcode" and "y \<equiv> opcode_decode_register_y opcode"
  shows "exec_faults None (exec_if_equals opcode m)"
    "exec_faults None (exec_if_not_equals opcode m)"
    "exec_faults None (exec_skip_next_if_vx_equals_vy opcode m)"
    "exec_faults None (exec_set_register opcode m)"
    "exec_faults None (exec_add_to_vx opcode m)"
    "exec_faults None (exec_set_vx_from_vy opcode m)"
    "exec_faults None (exec_set_vx_to_vx_or opcode m)"
    "exec_faults None (exec_set_vx_to_vx_and opcode m)"
    "exec_faults None (exec_set_vx_to_vx_xor opcode m)"
    "exec_faults (vf (x = VF \<or> y = VF)) (exec_vx_plus_vy opcode m)"
    "exec_faults (vf (x = VF \<or> y = VF)) (exec_vx_minus_vy opcode m)"
    "exec_faults (vf (x = VF)) (exec_set_vx_rshift_one opcode m)"
    "exec_faults (vf (x = VF \<or> y = VF)) (exec_set_vx_vy_minus_vx opcode m)"
    "exec_faults (vf (x = VF)) (exec_set_vx_lshift_one opcode m)"
    "exec_faults None (exec_if_vx_not_equals_to_vy opcode m)"
    "exec_faults None (exec_set_vx_rand_and en opcode m)"
    "exec_faults None (exec_set_vx_from_delay_timer opcode m)"
  using assms(1) unfolding vf_def x_def y_def
  by (simp_all add: exec_reg_defs wp_simps machine_wf_sizes Let_def not_le)

lemma exec_state_faults:
  assumes "machine_wf m"
  shows "exec_faults None (exec_display_clear opcode m)"
    "exec_faults None (exec_goto opcode m)"
    "exec_faults None (exec_set_i_register opcode m)"
    "exec_faults None (exec_jump_to_addr_plus_v0 opcode m)"
    "exec_faults None (exec_set_delay_timer_from_vx opcode m)"
    "exec_faults None (exec_set_sound_timer opcode m)"
    "exec_faults None (exec_add_vx_to_i opcode m)"
    "exec_faults None (exec_set_i_to_sprite_addr opcode m)"
    "exec_faults None (exec_set_vx_from_key en opcode m)"
  using assms
  by (auto simp: exec_state_defs exec_set_vx_from_key_def wp_simps machine_wf_sizes Let_def not_le intro!: wp_get_pressed_key)

lemma exec_stack_faults:
  assumes "machine_wf m"
  shows "exec_faults (instr_fault Return m) (exec_return opcode m)"
    "exec_faults (instr_fault (Call a) m) (exec_call opcode m)"
    "exec_faults (instr_fault (Call_Sub a) m) (exec_call_subroutine opcode m)"
  using machine_wf_sizes [OF assms]
  by (auto simp: exec_return_def exec_call_def exec_call_subroutine_def cpu_stack_push_def cpu_stack_pop_def wp_simps
      machine_sizes Let_def)

lemma exec_index_faults: "exec_index ok r \<Longrightarrow> exec_faults (if ok then None else Some Out_Of_Bounds) r"
  by (erule wp_mono) simp_all

lemma exec_instr_faults:
  assumes "machine_wf m" and "decode w = Some i"
  shows "exec_faults (instr_fault i m) (exec_instr en i w m)"
proof -
  note rules = exec_reg_faults [OF assms(1), where opcode = w] exec_state_faults [OF assms(1), where opcode = w]
    exec_stack_faults [OF assms(1), where opcode = w]
  note index = exec_draw_safe [OF assms(1), where opcode = w, THEN exec_index_faults]
    exec_key_safe [OF assms(1), where opcode = w and en = en, THEN exec_index_faults]
    exec_set_bcd_safe [OF assms(1), where opcode = w, THEN exec_index_faults]
    exec_reg_dump_safe [OF assms(1), where opcode = w, THEN exec_index_faults]
    exec_reg_load_safe [OF assms(1), where opcode = w, THEN exec_index_faults]
  show ?thesis
  proof (cases i)
    case (Alu f x y)
    then have "x = opcode_decode_register_x w" "y = opcode_decode_register_y w"
      using decode_alu_operands assms(2) by blast+
    with Alu show ?thesis using rules by (cases f) simp_all
  next
    case (Misc f x)
    then have "x = opcode_decode_register_x w" using decode_operands(4) assms(2) by blast
    with Misc show ?thesis using rules index by (cases f) (simp_all add: machine_sizes)
  next
    case (Draw x y n)
    with index(1) decode_operands(1) [of w x y n] assms(2) show ?thesis by (simp add: machine_sizes)
  next
    case (If_Key x)
    with index(2) decode_operands(2) [of w x] assms(2) show ?thesis by (simp add: machine_sizes)
  next
    case (If_Not_Key x)
    with index(3) decode_operands(3) [of w x] assms(2) show ?thesis by (simp add: machine_sizes)
  qed (use rules in simp_all)
qed

lemma stack_contents_updates [simp]:
  "cpu_stack_contents (c\<lparr>registers := rs\<rparr>) = cpu_stack_contents c"
  "cpu_stack_contents (c\<lparr>pc := a\<rparr>) = cpu_stack_contents c"
  "cpu_stack_contents (c\<lparr>i_reg := a\<rparr>) = cpu_stack_contents c"
  by (simp_all add: cpu_stack_contents_def)

lemma wp_any: "(\<And>x. Q x) \<Longrightarrow> wp r Q (\<lambda>_. True)"
  by (cases r) simp_all

abbreviation keeps_stack :: "u16 list \<Rightarrow> machine res \<Rightarrow> bool" where
  "keeps_stack st r \<equiv> wp r (\<lambda>m'. cpu_stack_contents (cpu m') = st) (\<lambda>_. True)"

lemma reg_loops_stack:
  "cpu_stack_contents (cpu m) = st \<Longrightarrow> keeps_stack st (reg_dump_loop i a n m)"
  "cpu_stack_contents (cpu m) = st \<Longrightarrow> keeps_stack st (reg_load_loop i a n m)"
  by (induction n arbitrary: i a m) (simp_all add: wp_simps)

lemma exec_stack_contents:
  assumes "machine_wf m"
  defines "st \<equiv> cpu_stack_contents (cpu m)"
  shows "keeps_stack (butlast st) (exec_return opcode m)"
    "keeps_stack (st @ [pc (cpu m)]) (exec_call opcode m)"
    "keeps_stack (st @ [pc (cpu m)]) (exec_call_subroutine opcode m)"
  using machine_wf_sizes [OF assms(1)] unfolding st_def
  by (auto simp: exec_return_def exec_call_def exec_call_subroutine_def cpu_stack_push_def cpu_stack_pop_def wp_simps
      machine_sizes Let_def cpu_goto_address_def cpu_stack_contents_def take_Suc_conv_app_nth butlast_take)

lemma exec_instr_stack:
  assumes "machine_wf m"
  shows "keeps_stack (stack_after i (pc (cpu m)) (cpu_stack_contents (cpu m))) (exec_instr en i w m)"
  using exec_stack_contents [OF assms]
proof (induction en i w m rule: exec_instr.induct)
qed (auto simp: exec_reg_defs exec_state_defs
    exec_display_draw_sprite_at_def exec_if_key_equals_to_vx_def exec_if_key_not_equals_to_vx_def exec_set_vx_from_key_def
    exec_set_bcd_def exec_reg_dump_def exec_reg_load_def reg_loops_stack wp_simps Let_def
    cpu_pc_advance_def cpu_pc_advance_back_def cpu_goto_address_def
    simp del: reg_dump_loop.simps reg_load_loop.simps intro!: wp_any split: option.splits)

text \<open>One step, from the lemmas on its instruction.\<close>

lemma fetched_simps [simp]:
  "stack_count (cpu (fetched w m)) = stack_count (cpu m)" "pc (cpu (fetched w m)) = pc (cpu m) + 2"
  "cpu_stack_contents (cpu (fetched w m)) = cpu_stack_contents (cpu m)" "memory (fetched w m) = memory m"
  by (simp_all add: fetched_def cpu_pc_advance_def Let_def cpu_stack_contents_def)

lemma instr_fault_cong:
  assumes "cpu m' = (cpu m)\<lparr>pc := a\<rparr>"
  shows "instr_fault i m' = instr_fault i m"
  using assms access_ok_cong [of m' m] by (cases i) simp_all

lemma fetched_instr_fault [simp]: "instr_fault i (fetched w m) = instr_fault i m"
  by (rule instr_fault_cong [where a = "pc (cpu m) + 2"]) (simp add: fetched_def cpu_pc_advance_def Let_def)

lemma step_outcome:
  assumes "machine_wf m"
  shows "wp (cpu_step en m)
    (\<lambda>m'. step_fault m = None \<and> machine_wf m' \<and>
       (\<exists>i. decode (opcode_at (memory m) (unat (pc (cpu m)))) = Some i \<and>
          cpu_stack_contents (cpu m') = stack_after i (pc (cpu m) + 2) (cpu_stack_contents (cpu m))))
    (\<lambda>e. step_fault m = Some e)"
proof -
  define w where "w = opcode_at (memory m) (unat (pc (cpu m)))"
  have wf: "machine_wf (fetched w m)" using assms by simp
  have exec: "wp (exec_instr en i w (fetched w m))
      (\<lambda>m'. instr_fault i m = None \<and> machine_wf m' \<and>
         cpu_stack_contents (cpu m') = stack_after i (pc (cpu m) + 2) (cpu_stack_contents (cpu m)))
      (\<lambda>e. instr_fault i m = Some e)"
    if "decode w = Some i" for i
    using exec_instr_faults [OF wf that, of en] exec_instr_safe [OF wf that, of en]
      exec_instr_stack [OF wf, where i = i and en = en and w = w]
    by (cases "exec_instr en i w (fetched w m)") simp_all
  show ?thesis
  proof (cases "unat (pc (cpu m)) < 4095 \<and> w \<noteq> 0")
    case True
    then have step: "cpu_step en m = (case decode w of None \<Rightarrow> c_exit (''unsupported opcode. opcode='' @ opcode_fmt w)
        | Some i \<Rightarrow> exec_instr en i w (fetched w m))"
      using cpu_step_eq [OF assms, of en] by (simp add: Let_def cpu_exec_by_decode flip: w_def)
    have flt: "step_fault m = (case decode w of None \<Rightarrow> Some (Exit_Failure (''unsupported opcode. opcode='' @ opcode_fmt w))
        | Some i \<Rightarrow> instr_fault i m)"
      using True unfolding step_fault_def Let_def w_def [symmetric] by simp
    show ?thesis
    proof (cases "decode w")
      case None
      then show ?thesis by (simp add: step flt c_exit_def)
    next
      case (Some i)
      with exec [OF Some] show ?thesis unfolding step flt w_def [symmetric] by simp
    qed
  next
    case False
    then show ?thesis
      using cpu_step_eq [OF assms, of en] by (auto simp: step_fault_def Let_def w_def c_exit_def)
  qed
qed

text \<open>A machine just switched on, for given memory: the state in which the examples below run.\<close>

definition power_on :: "u8 list \<Rightarrow> machine" where
  "power_on mem =
     \<lparr>memory = mem, cpu = cpu_init, display = display_clear [],
      delay_timer = timer_init, sound_timer = timer_init, trace = []\<rparr>"

lemma power_on_wf [simp]: "machine_wf (power_on mem) \<longleftrightarrow> length mem = 4096"
  by (simp add: machine_wf_def power_on_def cpu_init_def machine_sizes)

text \<open>C1: How a step of the processor ends, in every case. From a machine whose memory, registers, stack
  and screen have their sizes and whose stack count is within the stack, \<open>cpu_step\<close> stops exactly if \<open>step_fault\<close> names a
  fault, and with that fault: a program counter outside memory, an opcode that is cut off, zero or unknown, a
  return without a call, a thirteenth call inside twelve others, arithmetic on the flag register, or an access out of bounds. Otherwise it returns such a
  machine again. The call stack has then lost its last address if the instruction was a return, has the address behind the instruction
  at its end if it was a call, and is the same if it was another.\<close>

theorem cpu_step_outcome:
  assumes "machine_wf m"
  shows "case step_fault m of
      Some e \<Rightarrow> cpu_step en m = Inl e
    | None \<Rightarrow> \<exists>m' i. cpu_step en m = Inr m' \<and> machine_wf m' \<and>
        decode (opcode_at (memory m) (unat (pc (cpu m)))) = Some i \<and>
        cpu_stack_contents (cpu m') = stack_after i (pc (cpu m) + 2) (cpu_stack_contents (cpu m))"
  using step_outcome [OF assms, of en] by (cases "cpu_step en m") (auto split: option.splits)

theorem cpu_step_outcome_witness:
  "cpu_step \<lparr>keyboard = \<lambda>_. 0, rand_value = 7\<rparr> ((power_on (replicate 4096 0x22))\<lparr>cpu := cpu_init\<lparr>stack_count := 12\<rparr>\<rparr>) =
   Inl (Exit_Failure ''error: cpu: runtime: stack overflow'')"
proof -
  let ?m = "(power_on (replicate 4096 0x22))\<lparr>cpu := cpu_init\<lparr>stack_count := 12\<rparr>\<rparr>"
  have wf: "machine_wf ?m" by (simp add: machine_wf_def power_on_def cpu_init_def machine_sizes)
  have "opcode_at (memory ?m) (unat (pc (cpu ?m))) = 0x2222"
    by (simp add: opcode_at_def power_on_def cpu_init_def MEMORY_PROGRAM_STARTING_ADDRESS_def)
  then have "step_fault ?m = Some (Exit_Failure ''error: cpu: runtime: stack overflow'')"
    by (simp add: step_fault_def Let_def decode_def cpu_init_def MEMORY_PROGRAM_STARTING_ADDRESS_def)
  with cpu_step_outcome [OF wf, of "\<lparr>keyboard = \<lambda>_. 0, rand_value = 7\<rparr>"] show ?thesis by simp
qed

text \<open>C2: The exact conditions under which \<open>cpu_step\<close> accesses an array out of bounds: the
  program counter is at the last byte of memory, so that the second byte of the opcode is
  outside; or the instruction draws a sprite, stores a BCD number, dumps or loads registers
  past the end of memory, or tests a key whose number is above 15. All other instructions
  are free of it.\<close>

theorem cpu_step_out_of_bounds_iff:
  assumes "machine_wf m"
  shows "cpu_step en m = Inl Out_Of_Bounds \<longleftrightarrow>
    unat (pc (cpu m)) = 4095 \<or>
    unat (pc (cpu m)) < 4095 \<and>
      (\<exists>i. decode (opcode_at (memory m) (unat (pc (cpu m)))) = Some i \<and> \<not> access_ok i m)"
proof -
  define w where "w = opcode_at (memory m) (unat (pc (cpu m)))"
  have "cpu_decode_and_exec_opcode en w (fetched w m) = Inl Out_Of_Bounds \<longleftrightarrow>
      (\<exists>i. decode w = Some i \<and> \<not> access_ok i m)"
    using cpu_exec_wp [of "fetched w m" en w] exec_instr_safe [of "fetched w m" w _ en] assms
    by (cases "decode w"; cases "cpu_decode_and_exec_opcode en w (fetched w m)")
      (auto simp: cpu_exec_by_decode c_exit_def)
  moreover have "\<not> (\<exists>i. decode 0 = Some i \<and> \<not> access_ok i m)"
    by (simp add: decode_def Let_def)
  ultimately show ?thesis
    using assms by (auto simp: cpu_step_eq Let_def c_exit_def w_def)
qed

theorem cpu_step_out_of_bounds_iff_witness:
  "cpu_step \<lparr>keyboard = \<lambda>_. 0, rand_value = 7\<rparr>
     ((power_on (replicate 4096 0))\<lparr>cpu := cpu_init\<lparr>pc := 4095\<rparr>\<rparr>) = Inl Out_Of_Bounds"
  by (subst cpu_step_out_of_bounds_iff)
    (simp_all add: machine_wf_def power_on_def cpu_init_def machine_sizes)

end
