(* ===== verification/Isa.thy ===== *)
theory Isa
  imports Cpu
begin

text \<open>
  The meaning of the CHIP-8 instructions, independent of how \<open>cpu.c\<close> stores its state, and
  the proof that the C code implements it.

  The abstract state \<open>isa\<close> has registers, memory and screen as functions and the call stack
  as a list, innermost call first; \<open>isa_exec\<close> is one equation per instruction and \<open>None\<close>
  where the program stops. \<open>abs_machine\<close> reads an abstract state off a machine. The lemma
  \<open>exec_instr_refines\<close> shows, instruction by instruction, that the \<open>exec_*\<close> functions
  compute what \<open>isa_exec\<close> says on every branch.

  In two places the meaning is that of the code and not that of its comments: the flag of a drawn sprite (\<open>isa_draw\<close>), which
  \<open>cpu.c\<close> describes as \<open>pixels are flipped from set to unset\<close> and the code sets otherwise, and the flag of a subtraction
  (\<open>isa_alu\<close>), which is not set for equal operands. There the refinement says only that the code does the same as the
  definition.
\<close>

section \<open>The abstract machine\<close>

record isa =
  V :: "nat \<Rightarrow> u8"
  ram :: "nat \<Rightarrow> u8"
  screen :: "nat \<Rightarrow> nat \<Rightarrow> bool"
  calls :: "u16 list"
  ip :: u16
  index :: u16
  delay :: u8
  sound :: u8

definition skip_if :: "bool \<Rightarrow> isa \<Rightarrow> isa" where
  "skip_if b s = (if b then s\<lparr>ip := ip s + 2\<rparr> else s)"

definition set_V :: "u8 \<Rightarrow> u8 \<Rightarrow> isa \<Rightarrow> isa" where
  "set_V x v s = s\<lparr>V := (V s)(unat x := v)\<rparr>"

text \<open>Set a result and its flag; the operands must not be the flag register itself.\<close>

definition set_V_flag :: "u8 list \<Rightarrow> u8 \<Rightarrow> u8 \<Rightarrow> bool \<Rightarrow> isa \<Rightarrow> isa option" where
  "set_V_flag operands x v flag s =
     (if VF \<in> set operands then None
      else Some (set_V x v (set_V VF (if flag then 1 else 0) s)))"

definition call :: "u16 \<Rightarrow> isa \<Rightarrow> isa option" where
  "call a s = (if length (calls s) < 12 then Some (s\<lparr>calls := ip s # calls s, ip := a\<rparr>) else None)"

definition isa_alu :: "alu \<Rightarrow> u8 \<Rightarrow> u8 \<Rightarrow> isa \<Rightarrow> isa option" where
  "isa_alu f x y s =
     (let vx = V s (unat x); vy = V s (unat y) in
      case f of
        Alu_Mov \<Rightarrow> Some (set_V x vy s)
      | Alu_Or \<Rightarrow> Some (set_V x (vx OR vy) s)
      | Alu_And \<Rightarrow> Some (set_V x (vx AND vy) s)
      | Alu_Xor \<Rightarrow> Some (set_V x (vx XOR vy) s)
      | Alu_Plus \<Rightarrow> set_V_flag [x, y] x (vx + vy) (unat vx + unat vy \<ge> 256) s
      | Alu_Minus \<Rightarrow> set_V_flag [x, y] x (vx - vy) (vx > vy) s
      | Alu_Shr \<Rightarrow> set_V_flag [x] x (vx div 2) (odd vx) s
      | Alu_Rev_Minus \<Rightarrow> set_V_flag [x, y] x (vy - vx) (vy > vx) s
      | Alu_Shl \<Rightarrow> set_V_flag [x] x (vx + vx) (unat vx \<ge> 128) s)"

text \<open>The least pressed key, if any.\<close>

definition pressed :: "env \<Rightarrow> nat \<Rightarrow> bool" where
  "pressed en k \<longleftrightarrow> keyboard en (keymap ! k) = 1"

definition first_key :: "env \<Rightarrow> nat option" where
  "first_key en = find (pressed en) [0..<16]"

definition isa_misc :: "env \<Rightarrow> misc \<Rightarrow> u8 \<Rightarrow> isa \<Rightarrow> isa option" where
  "isa_misc en f x s =
     (let vx = V s (unat x); a = unat (index s) in
      case f of
        Get_Delay \<Rightarrow> Some (set_V x (delay s) s)
      | Wait_Key \<Rightarrow> Some (case first_key en of
            Some k \<Rightarrow> set_V x (word_of_nat k) s
          | None \<Rightarrow> s\<lparr>ip := ip s - 2\<rparr>)
      | Set_Delay \<Rightarrow> Some (s\<lparr>delay := vx\<rparr>)
      | Set_Sound \<Rightarrow> Some (s\<lparr>sound := vx\<rparr>)
      | Add_I \<Rightarrow> Some (s\<lparr>index := index s + ucast vx\<rparr>)
      | Sprite_Addr \<Rightarrow> Some (s\<lparr>index := 5 * ucast vx\<rparr>)
      | Store_Bcd \<Rightarrow>
          if a + 2 < 4096
          then Some (s\<lparr>ram := (ram s)(a := vx div 100, a + 1 := vx div 10 mod 10, a + 2 := vx mod 10)\<rparr>)
          else None
      | Dump \<Rightarrow>
          if a + unat x < 4096
          then Some (s\<lparr>ram := \<lambda>k. if a \<le> k \<and> k \<le> a + unat x then V s (k - a) else ram s k\<rparr>)
          else None
      | Load \<Rightarrow>
          if a + unat x < 4096
          then Some (s\<lparr>V := \<lambda>k. if k \<le> unat x then ram s (a + k) else V s k\<rparr>)
          else None)"

text \<open>The bit a sprite has at a pixel, and the flag. The flag follows the code, not the comment above it: it is set when a lit
  pixel is under the sprite where the sprite is dark, a pixel that stays lit, whereas the comment has it set when
  a pixel is switched off.\<close>

definition covers :: "isa \<Rightarrow> u8 \<Rightarrow> u8 \<Rightarrow> u8 \<Rightarrow> nat \<Rightarrow> nat \<Rightarrow> bool" where
  "covers s x y n c r \<longleftrightarrow>
     sprite_covers (unat (V s (unat x)) mod 64) (unat (V s (unat y)) mod 32) (unat n) c r"

definition sprite_pixel :: "isa \<Rightarrow> u8 \<Rightarrow> u8 \<Rightarrow> u8 \<Rightarrow> nat \<Rightarrow> nat \<Rightarrow> bool" where
  "sprite_pixel s x y n c r \<longleftrightarrow> covers s x y n c r \<and>
     bit (ram s (unat (index s) + row_offset (unat (V s (unat y)) mod 32) r))
       (7 - col_offset (unat (V s (unat x)) mod 64) c)"

definition isa_draw :: "u8 \<Rightarrow> u8 \<Rightarrow> u8 \<Rightarrow> isa \<Rightarrow> isa option" where
  "isa_draw x y n s =
     (if n = 0 \<or> unat (index s) + unat n \<le> 4096 then
        Some (set_V VF
          (if \<exists>c<64. \<exists>r<32. covers s x y n c r \<and> screen s c r \<and> \<not> sprite_pixel s x y n c r
           then 1 else 0)
          (s\<lparr>screen := \<lambda>c r. c < 64 \<and> r < 32 \<and> screen s c r \<noteq> sprite_pixel s x y n c r\<rparr>))
      else None)"

fun isa_exec :: "env \<Rightarrow> instr \<Rightarrow> isa \<Rightarrow> isa option" where
  "isa_exec en Clear s = Some (s\<lparr>screen := \<lambda>c r. False\<rparr>)"
| "isa_exec en Return s =
     (case calls s of [] \<Rightarrow> None | a # as \<Rightarrow> Some (s\<lparr>calls := as, ip := a\<rparr>))"
| "isa_exec en (Call a) s = call a s"
| "isa_exec en (Goto a) s = Some (s\<lparr>ip := a\<rparr>)"
| "isa_exec en (Call_Sub a) s = call a s"
| "isa_exec en (If_Eq x k) s = Some (skip_if (V s (unat x) = k) s)"
| "isa_exec en (If_Neq x k) s = Some (skip_if (V s (unat x) \<noteq> k) s)"
| "isa_exec en (If_Eq_Reg x y) s = Some (skip_if (V s (unat x) = V s (unat y)) s)"
| "isa_exec en (Set_Reg x k) s = Some (set_V x k s)"
| "isa_exec en (Add_Const x k) s = Some (set_V x (V s (unat x) + k) s)"
| "isa_exec en (Alu f x y) s = isa_alu f x y s"
| "isa_exec en (If_Neq_Reg x y) s = Some (skip_if (V s (unat x) \<noteq> V s (unat y)) s)"
| "isa_exec en (Set_I a) s = Some (s\<lparr>index := a\<rparr>)"
| "isa_exec en (Jump_V0 a) s = Some (s\<lparr>ip := a + ucast (V s 0)\<rparr>)"
| "isa_exec en (Rand x k) s = Some (set_V x (word_of_nat (rand_value en mod 256) AND k) s)"
| "isa_exec en (Draw x y n) s = isa_draw x y n s"
| "isa_exec en (If_Key x) s =
     (if unat (V s (unat x)) < 16 then Some (skip_if (pressed en (unat (V s (unat x)))) s) else None)"
| "isa_exec en (If_Not_Key x) s =
     (if unat (V s (unat x)) < 16 then Some (skip_if (\<not> pressed en (unat (V s (unat x)))) s) else None)"
| "isa_exec en (Misc f x) s = isa_misc en f x s"

section \<open>Abstraction\<close>

definition abs_machine :: "machine \<Rightarrow> isa" where
  "abs_machine m =
     \<lparr>V = \<lambda>k. if k < 16 then registers (cpu m) ! k else 0,
      ram = \<lambda>k. if k < 4096 then memory m ! k else 0,
      screen = \<lambda>c r. c < 64 \<and> r < 32 \<and> px (display m) c r,
      calls = rev (cpu_stack_contents (cpu m)),
      ip = pc (cpu m),
      index = i_reg (cpu m),
      delay = timer_value (delay_timer m),
      sound = timer_value (sound_timer m)\<rparr>"

definition abs_res :: "machine res \<Rightarrow> isa option" where
  "abs_res r = (case r of Inl e \<Rightarrow> None | Inr m \<Rightarrow> Some (abs_machine m))"

lemma abs_res_simps [simp]:
  "abs_res (Inl e) = None" "abs_res (Inr m) = Some (abs_machine m)"
  "abs_res (c_exit msg) = None" "abs_res fatal_vf = None"
  by (simp_all add: abs_res_def c_exit_def fatal_vf_def)

lemma abs_machine_sel [simp]:
  "V (abs_machine m) = (\<lambda>k. if k < 16 then registers (cpu m) ! k else 0)"
  "ram (abs_machine m) = (\<lambda>k. if k < 4096 then memory m ! k else 0)"
  "screen (abs_machine m) = (\<lambda>c r. c < 64 \<and> r < 32 \<and> px (display m) c r)"
  "calls (abs_machine m) = rev (cpu_stack_contents (cpu m))"
  "ip (abs_machine m) = pc (cpu m)"
  "index (abs_machine m) = i_reg (cpu m)"
  "delay (abs_machine m) = timer_value (delay_timer m)"
  "sound (abs_machine m) = timer_value (sound_timer m)"
  by (simp_all add: abs_machine_def)

section \<open>Refinement\<close>

lemmas isa_defs =
  skip_if_def set_V_def set_V_flag_def call_def isa_alu_def isa_misc_def isa_draw_def

lemmas access_defs = reg_def set_reg_def mem_set_def

lemmas pc_defs = cpu_pc_advance_def cpu_pc_advance_back_def cpu_goto_address_def

lemma abs_machine_eqI:
  assumes "\<And>k. k < 16 \<Longrightarrow> registers (cpu m) ! k = V s k" and "\<And>k. \<not> k < 16 \<Longrightarrow> V s k = 0"
    and "\<And>k. k < 4096 \<Longrightarrow> memory m ! k = ram s k" and "\<And>k. \<not> k < 4096 \<Longrightarrow> ram s k = 0"
    and "\<And>c r. c < 64 \<Longrightarrow> r < 32 \<Longrightarrow> px (display m) c r = screen s c r"
    and "\<And>c r. screen s c r \<Longrightarrow> c < 64 \<and> r < 32"
    and "rev (cpu_stack_contents (cpu m)) = calls s" and "pc (cpu m) = ip s"
    and "i_reg (cpu m) = index s" and "timer_value (delay_timer m) = delay s"
    and "timer_value (sound_timer m) = sound s"
  shows "abs_machine m = s"
  using assms by (intro isa.equality) (auto simp: fun_eq_iff)

lemma abs_machine_cong:
  assumes "registers (cpu m') = registers (cpu m)" and "memory m' = memory m"
    and "display m' = display m" and "cpu_stack_contents (cpu m') = cpu_stack_contents (cpu m)"
    and "i_reg (cpu m') = i_reg (cpu m)" and "timer_value (delay_timer m') = timer_value (delay_timer m)"
    and "timer_value (sound_timer m') = timer_value (sound_timer m)"
  shows "abs_machine m' = (abs_machine m)\<lparr>ip := pc (cpu m')\<rparr>"
  using assms by (intro abs_machine_eqI) simp_all

lemma abs_pc [simp]:
  "abs_machine (cpu_pc_advance m) = (abs_machine m)\<lparr>ip := pc (cpu m) + 2\<rparr>"
  "abs_machine (cpu_pc_advance_back m) = (abs_machine m)\<lparr>ip := pc (cpu m) - 2\<rparr>"
  "abs_machine (cpu_goto_address a m) = (abs_machine m)\<lparr>ip := a\<rparr>"
  by (subst abs_machine_cong [where m = m]; simp add: pc_defs cpu_stack_contents_def)+

lemma abs_updates [simp]:
  "abs_machine (m\<lparr>trace := t\<rparr>) = abs_machine m"
  "abs_machine (m\<lparr>delay_timer := d\<rparr>) = (abs_machine m)\<lparr>delay := timer_value d\<rparr>"
  "abs_machine (m\<lparr>sound_timer := d\<rparr>) = (abs_machine m)\<lparr>sound := timer_value d\<rparr>"
  "abs_machine (m\<lparr>cpu := cpu m\<lparr>i_reg := a\<rparr>\<rparr>) = (abs_machine m)\<lparr>index := a\<rparr>"
  by (rule abs_machine_eqI; simp add: cpu_stack_contents_def)+

text \<open>Instructions that only change registers, or skip.\<close>

lemma refine_skips:
  assumes "machine_wf m"
  shows "abs_res (exec_if_equals w m) =
      isa_exec en (If_Eq (opcode_decode_register_x w) (opcode_decode_const_8bit w)) (abs_machine m)"
    "abs_res (exec_if_not_equals w m) =
      isa_exec en (If_Neq (opcode_decode_register_x w) (opcode_decode_const_8bit w)) (abs_machine m)"
    "abs_res (exec_skip_next_if_vx_equals_vy w m) =
      isa_exec en (If_Eq_Reg (opcode_decode_register_x w) (opcode_decode_register_y w)) (abs_machine m)"
    "abs_res (exec_if_vx_not_equals_to_vy w m) =
      isa_exec en (If_Neq_Reg (opcode_decode_register_x w) (opcode_decode_register_y w)) (abs_machine m)"
  using assms
  by (simp_all add: exec_reg_defs skip_if_def access_defs machine_wf_sizes Let_def)

lemma abs_set_reg:
  assumes "machine_wf m" and "unat x < 16"
  obtains m' where "set_reg m x v = Inr m'" "machine_wf m'" "abs_machine m' = set_V x v (abs_machine m)"
proof
  let ?m = "m\<lparr>cpu := cpu m\<lparr>registers := (registers (cpu m))[unat x := v]\<rparr>\<rparr>"
  show "set_reg m x v = Inr ?m"
    using assms by (simp add: set_reg_def machine_wf_sizes)
  show "machine_wf ?m" using assms by simp
  show "abs_machine ?m = set_V x v (abs_machine m)"
    using assms
    by (intro abs_machine_eqI)
      (simp_all add: set_V_def nth_list_update machine_wf_sizes cpu_stack_contents_def)
qed

lemma abs_res_set_reg:
  "machine_wf m \<Longrightarrow> unat x < 16 \<Longrightarrow> abs_res (set_reg m x v) = Some (set_V x v (abs_machine m))"
  by (rule abs_set_reg [of m x v]) simp_all

lemma abs_res_flag_reg:
  "machine_wf m \<Longrightarrow> unat x < 16 \<Longrightarrow>
     abs_res (res_bind (set_reg m VF f) (\<lambda>m. set_reg m x v)) =
     Some (set_V x v (set_V VF f (abs_machine m)))"
  by (rule abs_set_reg [of m VF f]) (simp_all add: abs_res_set_reg)

lemma reg_ok: "machine_wf m \<Longrightarrow> unat x < 16 \<Longrightarrow> reg m x = Inr (V (abs_machine m) (unat x))"
  by (simp add: reg_def machine_wf_sizes)

lemma refine_sets:
  assumes "machine_wf m"
  shows "abs_res (exec_set_register w m) =
      isa_exec en (Set_Reg (opcode_decode_register_x w) (opcode_decode_const_8bit w)) (abs_machine m)"
    "abs_res (exec_add_to_vx w m) =
      isa_exec en (Add_Const (opcode_decode_register_x w) (opcode_decode_const_8bit w)) (abs_machine m)"
    "abs_res (exec_set_vx_rand_and en w m) =
      isa_exec en (Rand (opcode_decode_register_x w) (opcode_decode_const_8bit w)) (abs_machine m)"
    "abs_res (exec_set_vx_from_delay_timer w m) =
      isa_exec en (Misc Get_Delay (opcode_decode_register_x w)) (abs_machine m)"
  using assms
  by (simp_all add: exec_reg_defs isa_misc_def reg_ok abs_res_set_reg Let_def random_u8_def
      timer_get_value_def)

lemma bit_7_iff: "bit a 7 \<longleftrightarrow> 128 \<le> unat a" for a :: u8
proof -
  have "unat a div 128 < 2"
    using unat_u8_less [of a] by (simp add: less_mult_imp_div_less)
  then have "odd (unat a div 128) \<longleftrightarrow> unat a div 128 = 1"
    by (auto simp: less_2_cases_iff)
  also have "\<dots> \<longleftrightarrow> 128 \<le> unat a"
    using \<open>unat a div 128 < 2\<close> by linarith
  finally show ?thesis
    using bit_iff_odd [of "unat a" 7] by (simp add: bit_unsigned_iff)
qed

lemma refine_alu:
  assumes "machine_wf m"
  shows "abs_res (exec_instr en (Alu f (opcode_decode_register_x w) (opcode_decode_register_y w)) w m) =
    isa_alu f (opcode_decode_register_x w) (opcode_decode_register_y w) (abs_machine m)"
proof -
  have carry: "word_of_nat (unat a + unat b) = a + b" "255 < unat a + unat b \<longleftrightarrow> 256 \<le> unat a + unat b"
    for a b :: u8
    by auto
  have shift: "drop_bit (Suc 0) a = a div 2" "a * 2 = 2 * a" "bit a 0 = odd a"
    "bit a 7 = (128 \<le> unat a)" for a :: u8
    using bit_7_iff [of a] by (simp_all add: drop_bit_Suc push_bit_eq_mult drop_bit_eq_div bit_0)
  show ?thesis
    using assms
    by (cases f) (simp_all add: exec_reg_defs isa_alu_def set_V_flag_def reg_ok abs_res_set_reg
        abs_res_flag_reg Let_def bit_is_set_iff carry shift)
qed

text \<open>The stack.\<close>

lemma refine_return:
  assumes "machine_wf m"
  shows "abs_res (exec_return w m) = isa_exec en Return (abs_machine m)"
proof (cases "stack_count (cpu m)")
  case 0
  then show ?thesis
    by (simp add: exec_return_def cpu_stack_pop_def cpu_stack_contents_def c_exit_def)
next
  case (Suc n)
  then have n: "n < length (stack (cpu m))"
    using assms machine_wf_sizes [OF assms] by simp
  let ?m = "m\<lparr>cpu := cpu m\<lparr>stack_count := n\<rparr>\<rparr>"
  have "exec_return w m = Inr (cpu_goto_address (stack (cpu m) ! n) ?m)"
    using Suc n by (simp add: exec_return_def cpu_stack_pop_def)
  moreover have "abs_machine ?m = (abs_machine m)\<lparr>calls := rev (take n (stack (cpu m)))\<rparr>"
    by (rule abs_machine_eqI) (simp_all add: cpu_stack_contents_def)
  moreover have "cpu_stack_contents (cpu m) = take n (stack (cpu m)) @ [stack (cpu m) ! n]"
    using Suc n by (simp add: cpu_stack_contents_def take_Suc_conv_app_nth)
  ultimately show ?thesis by simp
qed

lemma refine_push:
  assumes "machine_wf m"
  shows "abs_res (res_bind (cpu_stack_push (cpu m) (pc (cpu m))) (\<lambda>c.
      Inr (cpu_goto_address a (m\<lparr>cpu := c\<rparr>)))) = call a (abs_machine m)"
proof (cases "stack_count (cpu m) < 12")
  case True
  define st where "st = (stack (cpu m))[stack_count (cpu m) := pc (cpu m)]"
  let ?m = "m\<lparr>cpu := cpu m\<lparr>stack := st, stack_count := Suc (stack_count (cpu m))\<rparr>\<rparr>"
  have "cpu_stack_push (cpu m) (pc (cpu m)) = Inr (cpu ?m)"
    using True assms by (simp add: cpu_stack_push_def STACK_CAPACITY_def machine_wf_sizes st_def)
  moreover have "abs_machine ?m =
      (abs_machine m)\<lparr>calls := pc (cpu m) # rev (cpu_stack_contents (cpu m))\<rparr>"
    using True assms
    by (intro abs_machine_eqI)
      (simp_all add: cpu_stack_contents_def machine_wf_sizes st_def take_Suc_conv_app_nth)
  moreover have "length (cpu_stack_contents (cpu m)) < 12"
    using True assms by (simp add: cpu_stack_contents_def machine_wf_sizes)
  ultimately show ?thesis by (simp add: call_def)
next
  case False
  then show ?thesis
    using assms by (simp add: cpu_stack_push_def STACK_CAPACITY_def call_def cpu_stack_contents_def
        machine_wf_sizes c_exit_def)
qed

lemma refine_calls:
  assumes "machine_wf m"
  shows "abs_res (exec_call w m) = isa_exec en (Call (opcode_decode_address w)) (abs_machine m)"
    "abs_res (exec_call_subroutine w m) =
      isa_exec en (Call_Sub (opcode_decode_address w)) (abs_machine m)"
  using refine_push [OF assms] by (simp_all add: exec_call_def exec_call_subroutine_def Let_def)

text \<open>The index register, jumps, timers and the screen.\<close>

lemma sprite_address_word: "memory_address_from_sprite_value v = 5 * ucast v"
  by (simp add: memory_address_from_sprite_value_def FONT_MEM_ADDRESS_def FONT_SPRITE_SIZE_def
      mult.commute)

lemma abs_clear:
  "abs_machine (m\<lparr>display := display_clear b\<rparr>) = (abs_machine m)\<lparr>screen := \<lambda>c r. False\<rparr>"
  by (rule abs_machine_eqI) (simp_all add: px_clear)

lemma refine_state:
  assumes "machine_wf m"
  shows "abs_res (exec_display_clear w m) = isa_exec en Clear (abs_machine m)"
    "abs_res (exec_goto w m) = isa_exec en (Goto (opcode_decode_address w)) (abs_machine m)"
    "abs_res (exec_set_i_register w m) = isa_exec en (Set_I (opcode_decode_address w)) (abs_machine m)"
    "abs_res (exec_jump_to_addr_plus_v0 w m) =
      isa_exec en (Jump_V0 (opcode_decode_address w)) (abs_machine m)"
    "abs_res (exec_set_delay_timer_from_vx w m) =
      isa_exec en (Misc Set_Delay (opcode_decode_register_x w)) (abs_machine m)"
    "abs_res (exec_set_sound_timer w m) =
      isa_exec en (Misc Set_Sound (opcode_decode_register_x w)) (abs_machine m)"
    "abs_res (exec_add_vx_to_i w m) =
      isa_exec en (Misc Add_I (opcode_decode_register_x w)) (abs_machine m)"
    "abs_res (exec_set_i_to_sprite_addr w m) =
      isa_exec en (Misc Sprite_Addr (opcode_decode_register_x w)) (abs_machine m)"
  using assms
  by (simp_all add: exec_state_defs isa_misc_def reg_ok Let_def abs_clear timer_set_value_def
      sprite_address_word)

text \<open>The keyboard.\<close>

lemma refine_key_skips:
  assumes "machine_wf m"
  shows "abs_res (exec_if_key_equals_to_vx en w m) =
      isa_exec en (If_Key (opcode_decode_register_x w)) (abs_machine m)"
    "abs_res (exec_if_key_not_equals_to_vx en w m) =
      isa_exec en (If_Not_Key (opcode_decode_register_x w)) (abs_machine m)"
  using assms
  by (simp_all add: exec_if_key_equals_to_vx_def exec_if_key_not_equals_to_vx_def
      keyboard_is_key_pressed_def arr_get_def reg_ok Let_def skip_if_def pressed_def)

lemma find_upt_Some:
  "k < n \<Longrightarrow> P k \<Longrightarrow> \<forall>j<k. \<not> P j \<Longrightarrow> find P [0..<n] = Some k"
  by (auto simp: find_Some_iff)

lemma get_pressed_key_first:
  "keyboard_get_pressed_key (keyboard en) = Inr (map_option word_of_nat (first_key en))"
proof (cases "keyboard_get_pressed_key (keyboard en)")
  case (Inl e)
  with keyboard_get_pressed_key_spec [of "keyboard en"] show ?thesis by simp
next
  case (Inr r)
  show ?thesis
  proof (cases r)
    case None
    with Inr keyboard_get_pressed_key_spec [of "keyboard en"] have "first_key en = None"
      by (simp add: first_key_def find_None_iff pressed_def)
    with Inr None show ?thesis by simp
  next
    case (Some v)
    with Inr keyboard_get_pressed_key_spec [of "keyboard en"] have "first_key en = Some (unat v)"
      unfolding first_key_def by (intro find_upt_Some) (simp_all add: pressed_def)
    with Inr Some show ?thesis by simp
  qed
qed

lemma refine_wait_key:
  assumes "machine_wf m"
  shows "abs_res (exec_set_vx_from_key en w m) =
    isa_exec en (Misc Wait_Key (opcode_decode_register_x w)) (abs_machine m)"
  using assms
  by (cases "first_key en")
    (simp_all add: exec_set_vx_from_key_def get_pressed_key_first Let_def isa_misc_def abs_res_set_reg)

text \<open>Memory.\<close>

lemma abs_machine_memory:
  assumes "\<And>k. k < 4096 \<Longrightarrow> mem ! k = f k" and "\<And>k. \<not> k < 4096 \<Longrightarrow> f k = 0"
  shows "abs_machine (m\<lparr>memory := mem\<rparr>) = (abs_machine m)\<lparr>ram := f\<rparr>"
  using assms by (intro abs_machine_eqI) simp_all

lemma bcd_digits:
  "word_of_nat (unat v mod 1000 div 100) = v div 100"
  "word_of_nat (unat v mod 100 div 10) = v div 10 mod 10"
  "word_of_nat (unat v mod 10) = v mod 10" for v :: u8
proof -
  have v: "unat v < 256" by simp
  then have "unat v < 1000" by linarith
  then have "unat v mod 1000 = unat v" by simp
  moreover have "unat v mod 100 div 10 = unat v div 10 mod 10"
    using mod_mult2_eq [of "unat v" 10 10] by simp
  moreover have "unat v div 100 < 256" "unat v div 10 mod 10 < 256" "unat v mod 10 < 256"
    using v div_le_dividend [of "unat v" 100] mod_less_divisor [of 10 "unat v div 10"]
      mod_less_divisor [of 10 "unat v"] by linarith+
  ultimately show "word_of_nat (unat v mod 1000 div 100) = v div 100"
    "word_of_nat (unat v mod 100 div 10) = v div 10 mod 10"
    "word_of_nat (unat v mod 10) = v mod 10"
    by (simp_all add: word_unat_eq_iff unat_word_of_nat_u8 unat_div unat_mod)
qed

lemma refine_bcd:
  assumes "machine_wf m"
  shows "abs_res (exec_set_bcd w m) =
    isa_exec en (Misc Store_Bcd (opcode_decode_register_x w)) (abs_machine m)"
proof -
  let ?a = "unat (i_reg (cpu m))" and ?v = "registers (cpu m) ! unat (opcode_decode_register_x w)"
  have "exec_set_bcd w m =
      (if ?a + 2 < 4096 then
        Inr (m\<lparr>memory := (memory m)[?a := ?v div 100, ?a + 1 := ?v div 10 mod 10, ?a + 2 := ?v mod 10]\<rparr>)
       else Inl Out_Of_Bounds)"
    using assms
    by (auto simp: exec_set_bcd_def Let_def reg_ok mem_set_def arr_set_def bcd_digits
        machine_wf_sizes split: if_splits)
  moreover have "?a + 2 < 4096 \<Longrightarrow>
      abs_machine (m\<lparr>memory := (memory m)[?a := ?v div 100, ?a + 1 := ?v div 10 mod 10, ?a + 2 := ?v mod 10]\<rparr>) =
      (abs_machine m)\<lparr>ram := (ram (abs_machine m))
        (?a := ?v div 100, ?a + 1 := ?v div 10 mod 10, ?a + 2 := ?v mod 10)\<rparr>"
    using assms by (intro abs_machine_memory) (auto simp: nth_list_update machine_wf_sizes)
  ultimately show ?thesis
    by (simp add: isa_misc_def Let_def)
qed

lemma refine_dump:
  assumes "machine_wf m"
  shows "abs_res (exec_reg_dump w m) =
    isa_exec en (Misc Dump (opcode_decode_register_x w)) (abs_machine m)"
proof -
  define x where "x = unat (opcode_decode_register_x w)"
  have x: "x < 16" "min 16 (Suc x) = Suc x" by (simp_all add: x_def)
  let ?a = "unat (i_reg (cpu m))" and ?rs = "registers (cpu m)"
  let ?mem = "take ?a (memory m) @ take (x + 1) ?rs @ drop (?a + (x + 1)) (memory m)"
  have "abs_machine (m\<lparr>memory := ?mem\<rparr>) = (abs_machine m)
      \<lparr>ram := \<lambda>k. if ?a \<le> k \<and> k \<le> ?a + x then V (abs_machine m) (k - ?a) else ram (abs_machine m) k\<rparr>"
    if "?a + x < 4096"
    using that assms x
    by (intro abs_machine_memory) (auto simp: nth_append machine_wf_sizes)
  then show ?thesis
    using assms
    by (simp add: exec_reg_dump_eq isa_misc_def Let_def Suc_le_eq flip: x_def)
qed

lemma refine_load:
  assumes "machine_wf m"
  shows "abs_res (exec_reg_load w m) =
    isa_exec en (Misc Load (opcode_decode_register_x w)) (abs_machine m)"
proof -
  define x where "x = unat (opcode_decode_register_x w)"
  have x: "x < 16" "min 16 (Suc x) = Suc x" by (simp_all add: x_def)
  let ?a = "unat (i_reg (cpu m))" and ?rs = "registers (cpu m)"
  let ?new = "take (x + 1) (drop ?a (memory m)) @ drop (x + 1) ?rs"
  have "abs_machine (m\<lparr>cpu := cpu m\<lparr>registers := ?new\<rparr>\<rparr>) = (abs_machine m)
      \<lparr>V := \<lambda>k. if k \<le> x then ram (abs_machine m) (?a + k) else V (abs_machine m) k\<rparr>"
    if "?a + x < 4096"
    using that assms x
    by (intro abs_machine_eqI) (auto simp: nth_append machine_wf_sizes cpu_stack_contents_def)
  then show ?thesis
    using assms
    by (simp add: exec_reg_load_eq isa_misc_def Let_def Suc_le_eq flip: x_def)
qed

text \<open>Sprites.\<close>

lemma abs_machine_display:
  assumes "\<And>c r. c < 64 \<Longrightarrow> r < 32 \<Longrightarrow> px b c r = f c r"
  shows "abs_machine (m\<lparr>display := b\<rparr>) = (abs_machine m)\<lparr>screen := \<lambda>c r. c < 64 \<and> r < 32 \<and> f c r\<rparr>"
  using assms by (intro abs_machine_eqI) simp_all

lemma sprite_pixel_abs:
  assumes "machine_wf m" and "unat x < 16" and "unat y < 16" and "unat (i_reg (cpu m)) + unat n \<le> 4096"
  shows "sprite_pixel (abs_machine m) x y n c r =
    sprite_bit (memory m) (unat (i_reg (cpu m))) (unat (registers (cpu m) ! unat x) mod 64)
      (unat (registers (cpu m) ! unat y) mod 32) (unat n) c r"
  using assms
  by (auto simp: sprite_pixel_def covers_def sprite_bit_def sprite_covers_def)

lemma draw_nothing: "sprite_covers a b 0 c r \<longleftrightarrow> False"
  by (simp add: sprite_covers_def)

lemma refine_draw:
  fixes w :: u16
  assumes "machine_wf m"
  defines "x \<equiv> opcode_decode_register_x w" and "y \<equiv> opcode_decode_register_y w"
    and "n \<equiv> opcode_decode_const_4bit w"
  shows "abs_res (exec_display_draw_sprite_at w m) = isa_draw x y n (abs_machine m)"
proof -
  let ?i = "unat (i_reg (cpu m))"
  let ?vx = "registers (cpu m) ! unat x" and ?vy = "registers (cpu m) ! unat y"
  have xy: "unat x < 16" "unat y < 16" by (simp_all add: x_def y_def)
  have n: "unat n \<le> 32"
    unfolding n_def using decode_const_4bit_less [of w] by linarith
  have exec: "exec_display_draw_sprite_at w m =
      res_bind (display_draw_sprite (display m) ?vx ?vy (memory m) ?i n)
        (\<lambda>(b, er). set_reg (m\<lparr>display := b\<rparr>) VF (if er then 1 else 0))"
    using assms(1) xy
    by (simp add: exec_display_draw_sprite_at_def Let_def reg_ok flip: x_def y_def n_def)
  consider (empty) "n = 0" | (inside) "?i + unat n \<le> 4096" | (oob) "n \<noteq> 0" "\<not> ?i + unat n \<le> 4096"
    by blast
  then show ?thesis
  proof cases
    case empty
    then have "abs_machine m = (abs_machine m)\<lparr>screen := \<lambda>c r. c < 64 \<and> r < 32 \<and>
        screen (abs_machine m) c r \<noteq> sprite_pixel (abs_machine m) x y n c r\<rparr>"
      by (intro abs_machine_eqI) (simp_all add: sprite_pixel_def covers_def draw_nothing)
    with empty exec assms(1) show ?thesis
      by (simp add: abs_res_set_reg isa_draw_def covers_def draw_nothing display_draw_sprite_def)
  next
    case inside
    obtain b where b: "display_draw_sprite (display m) ?vx ?vy (memory m) ?i n =
        Inr (b, \<exists>c<64. \<exists>r<32. sprite_covers (unat ?vx mod 64) (unat ?vy mod 32) (unat n) c r \<and>
          px (display m) c r \<and> \<not> sprite_pixel (abs_machine m) x y n c r)"
      "display_wf b"
      "\<And>c r. c < 64 \<Longrightarrow> r < 32 \<Longrightarrow>
        px b c r = (px (display m) c r \<noteq> sprite_pixel (abs_machine m) x y n c r)"
      using display_draw_sprite_ok [of "display m" n ?i "memory m" ?vx ?vy] assms(1) inside n
      by (auto simp: machine_wf_sizes sprite_pixel_abs [OF assms(1) xy inside])
    have "abs_machine (m\<lparr>display := b\<rparr>) = (abs_machine m)\<lparr>screen := \<lambda>c r. c < 64 \<and> r < 32 \<and>
        screen (abs_machine m) c r \<noteq> sprite_pixel (abs_machine m) x y n c r\<rparr>"
      by (rule abs_machine_display) (simp add: b(3))
    with exec b(1,2) assms(1) xy inside show ?thesis
      by (simp add: abs_res_set_reg isa_draw_def covers_def cong: conj_cong)
  next
    case oob
    then have "display_draw_sprite (display m) ?vx ?vy (memory m) ?i n = Inl Out_Of_Bounds"
      using assms(1) unat_eq_zero [of n]
      by (simp add: display_draw_sprite_def display_dims draw_rows_oob machine_wf_sizes)
    with exec oob show ?thesis by (auto simp: isa_draw_def)
  qed
qed

section \<open>Every instruction\<close>

lemma decode_instr_operands:
  assumes "decode w = Some i"
  shows "i \<in> {Clear, Return} \<or>
    i \<in> (\<lambda>c. c (opcode_decode_address w)) ` {Call, Goto, Call_Sub, Set_I, Jump_V0} \<or>
    i \<in> (\<lambda>c. c (opcode_decode_register_x w) (opcode_decode_const_8bit w)) `
        {If_Eq, If_Neq, Set_Reg, Add_Const, Rand} \<or>
    i \<in> (\<lambda>c. c (opcode_decode_register_x w) (opcode_decode_register_y w)) `
        ({If_Eq_Reg, If_Neq_Reg} \<union> range Alu) \<or>
    i = Draw (opcode_decode_register_x w) (opcode_decode_register_y w) (opcode_decode_const_4bit w) \<or>
    i \<in> (\<lambda>c. c (opcode_decode_register_x w)) ` ({If_Key, If_Not_Key} \<union> range Misc)"
  using assms by (auto simp: decode_def Let_def split: if_splits)

lemmas refine_rules =
  refine_skips refine_sets refine_alu refine_return refine_calls refine_state refine_key_skips
  refine_wait_key refine_bcd refine_dump refine_load refine_draw

lemma exec_instr_refines:
  assumes "machine_wf m" and "decode w = Some i"
  shows "abs_res (exec_instr en i w m) = isa_exec en i (abs_machine m)"
proof -
  note rules = refine_rules [OF assms(1)]
  have "abs_res (exec_instr en (Misc f (opcode_decode_register_x w)) w m) =
      isa_exec en (Misc f (opcode_decode_register_x w)) (abs_machine m)" for f
    using rules by (cases f) (simp_all del: isa_exec.simps)
  with decode_instr_operands [OF assms(2)] rules show ?thesis
    by (elim disjE; auto)
qed

text \<open>C3: The processor implements the instruction set. For every well-formed machine, every opcode
  and every input, executing the opcode with \<open>cpu_decode_and_exec_opcode\<close> and looking at the
  registers, memory, screen, call stack, program counter and timers gives what the instruction
  set says of the instruction that the opcode encodes; the C function fails exactly when the
  opcode encodes none or the instruction set gives no result.\<close>

theorem cpu_refines_isa:
  assumes "machine_wf m"
  shows "abs_res (cpu_decode_and_exec_opcode en w m) =
    (case decode w of None \<Rightarrow> None | Some i \<Rightarrow> isa_exec en i (abs_machine m))"
  using exec_instr_refines [OF assms] by (simp add: cpu_exec_by_decode split: option.splits)

text \<open>\<open>6A2B\<close> loads the constant \<open>2B\<close> into register \<open>VA\<close>.\<close>

theorem cpu_refines_isa_witness:
  "abs_res (cpu_decode_and_exec_opcode \<lparr>keyboard = \<lambda>_. 0, rand_value = 7\<rparr> 0x6A2B
      (power_on (replicate 4096 0))) =
    Some (set_V 0xA 0x2B (abs_machine (power_on (replicate 4096 0))))"
proof -
  have "decode 0x6A2B = Some (Set_Reg 0xA 0x2B)"
    by (simp add: decode_def Let_def word_unat_eq_iff unat_decode)
  then show ?thesis
    using cpu_refines_isa [of "power_on (replicate 4096 0)" "\<lparr>keyboard = \<lambda>_. 0, rand_value = 7\<rparr>" "0x6A2B"]
    by simp
qed

end
