(* ===== verification/Printf.thy ===== *)
theory Printf
  imports Prelude
begin

text \<open>
  The part of \<open>printf\<close> that the programs use: literal text, \<open>%%\<close>, and the conversions \<open>s\<close>, \<open>d\<close>,
  \<open>u\<close> and \<open>X\<close> with the flag \<open>0\<close>, a width and the length modifiers \<open>h\<close>, \<open>l\<close> and \<open>z\<close>. The loggers
  of the emulator and of the HTTP server are written over it.

  An argument is a value of the sum type \<open>printf_arg\<close>. A conversion that finds no argument, or one of another type,
  is undefined in C and the fault \<open>Bad_Format\<close> here.
\<close>

text \<open>\<open>ansi c\<close> is the escape sequence \<open>"\x1b[...m"\<close> with the code \<open>c\<close>.\<close>

definition ansi :: "string \<Rightarrow> string" where
  "ansi c = [CHR 0x1B, CHR 0x5B] @ c @ ''m''"

section \<open>The conversions\<close>

datatype printf_arg = Arg_str string | Arg_int int | Arg_nat nat | Arg_null

fun fmt_X :: "nat \<Rightarrow> string" where
  "fmt_X n = (if n < 16 then [hex_digit n] else fmt_X (n div 16) @ [hex_digit n])"

declare fmt_X.simps [simp del]

definition pad :: "char \<Rightarrow> nat \<Rightarrow> string \<Rightarrow> string" where
  "pad c width s = replicate (width - length s) c @ s"

definition fmt_number :: "bool \<Rightarrow> nat \<Rightarrow> bool \<Rightarrow> string \<Rightarrow> string" where
  "fmt_number zero width negative digits =
     (let sign = (if negative then ''-'' else []) in
      if zero then sign @ pad (CHR ''0'') (width - length sign) digits
      else pad (CHR '' '') width (sign @ digits))"

definition as_unsigned :: "printf_arg \<Rightarrow> nat option" where
  "as_unsigned a = (case a of Arg_nat n \<Rightarrow> Some n | Arg_int i \<Rightarrow> Some (nat (i mod 2 ^ 32)) | _ \<Rightarrow> None)"

definition printf_conversion :: "bool \<Rightarrow> nat \<Rightarrow> char \<Rightarrow> printf_arg \<Rightarrow> string option" where
  "printf_conversion zero width conv a =
     (if conv = CHR ''s'' then (case a of Arg_str s \<Rightarrow> Some (pad (CHR '' '') width s) | _ \<Rightarrow> None)
      else if conv = CHR ''d'' then
        (case a of Arg_int i \<Rightarrow> Some (fmt_number zero width (i < 0) (fmt_u (nat \<bar>i\<bar>))) | _ \<Rightarrow> None)
      else if conv = CHR ''u'' then map_option (\<lambda>n. fmt_number zero width False (fmt_u n)) (as_unsigned a)
      else if conv = CHR ''X'' then map_option (\<lambda>n. fmt_number zero width False (fmt_X n)) (as_unsigned a)
      else None)"

definition is_length_modifier :: "char \<Rightarrow> bool" where
  "is_length_modifier c \<longleftrightarrow> c = CHR ''h'' \<or> c = CHR ''l'' \<or> c = CHR ''z''"

lemma dropWhile_Cons_length: "dropWhile P xs = y # ys \<Longrightarrow> length ys < length xs"
  using length_dropWhile_le [of P xs] by simp

definition after_flags :: "string \<Rightarrow> string" where
  "after_flags fmt = dropWhile is_length_modifier (dropWhile isdigit fmt)"

lemma after_flags_length: "after_flags fmt = c # rest \<Longrightarrow> length rest < length fmt"
  using dropWhile_Cons_length [of is_length_modifier "dropWhile isdigit fmt" c rest]
    length_dropWhile_le [of isdigit fmt] by (simp add: after_flags_def)

text \<open>The text that a format makes of its arguments. Arguments that are left over are ignored.\<close>

function c_printf :: "string \<Rightarrow> printf_arg list \<Rightarrow> string res" where
  "c_printf [] args = Inr []"
| "c_printf (c # fmt) args =
     (if c \<noteq> CHR ''%'' then res_bind (c_printf fmt args) (\<lambda>out. Inr (c # out))
      else if take 1 fmt = ''%'' then res_bind (c_printf (drop 1 fmt) args) (\<lambda>out. Inr (CHR ''%'' # out))
      else
        (case after_flags fmt of
           [] \<Rightarrow> Inl Bad_Format
         | conv # rest \<Rightarrow>
             (case args of
                [] \<Rightarrow> Inl Bad_Format
              | a # args \<Rightarrow>
                  (case printf_conversion (take 1 fmt = ''0'') (digits_value (takeWhile isdigit fmt)) conv a of
                     None \<Rightarrow> Inl Bad_Format
                   | Some text \<Rightarrow> res_bind (c_printf rest args) (\<lambda>out. Inr (text @ out))))))"
  by pat_completeness auto
termination
  by (relation "measure (\<lambda>(fmt, args). length fmt)") (auto dest: after_flags_length)

declare c_printf.simps [simp del]

named_theorems printf_simps \<open>evaluation of formats\<close>

section \<open>Evaluation\<close>

lemma c_printf_Nil [simp]: "c_printf [] args = Inr []"
  by (simp add: c_printf.simps)

lemma c_printf_char [printf_simps]: "c \<noteq> CHR ''%'' \<Longrightarrow> c_printf (c # fmt) args = res_bind (c_printf fmt args) (\<lambda>out. Inr (c # out))"
  by (simp add: c_printf.simps)

text \<open>Text without a percent sign is printed as it is.\<close>

lemma c_printf_literal [simp]:
  "CHR ''%'' \<notin> set lit \<Longrightarrow> c_printf (lit @ fmt) args = res_bind (c_printf fmt args) (\<lambda>out. Inr (lit @ out))"
proof (induction lit)
  case Nil
  show ?case by (cases "c_printf fmt args") simp_all
next
  case (Cons c lit)
  then show ?case by (cases "c_printf fmt args") (auto simp: c_printf_char)
qed

lemma c_printf_plain: "CHR ''%'' \<notin> set lit \<Longrightarrow> c_printf lit args = Inr lit"
  using c_printf_literal [of lit "[]" args] by simp

text \<open>Text behind a format whose arguments suffice is printed behind.\<close>

lemma after_flags_append: "after_flags fmt = c # rest \<Longrightarrow> after_flags (fmt @ lit) = c # rest @ lit"
proof -
  assume *: "after_flags fmt = c # rest"
  have drop: "dropWhile P (xs @ ys) = dropWhile P xs @ ys" if "dropWhile P xs \<noteq> []" for P and xs ys :: string
    using that by (induction xs) auto
  have "dropWhile isdigit fmt \<noteq> []" using * by (cases "dropWhile isdigit fmt") (simp_all add: after_flags_def)
  with * show ?thesis by (simp add: after_flags_def drop)
qed

lemma flags_append:
  assumes "after_flags fmt \<noteq> []"
  shows "takeWhile isdigit (fmt @ lit) = takeWhile isdigit fmt" and "take 1 (fmt @ lit) = take 1 fmt"
    and "drop 1 (fmt @ lit) = drop 1 fmt @ lit"
proof -
  have "dropWhile isdigit fmt \<noteq> []" using assms by (cases "dropWhile isdigit fmt") (simp_all add: after_flags_def)
  then obtain c where "c \<in> set fmt" "\<not> isdigit c" by (auto simp: dropWhile_eq_Nil_conv)
  then show "takeWhile isdigit (fmt @ lit) = takeWhile isdigit fmt" by (rule takeWhile_append1)
  have "fmt \<noteq> []" using \<open>c \<in> set fmt\<close> by auto
  then show "take 1 (fmt @ lit) = take 1 fmt" "drop 1 (fmt @ lit) = drop 1 fmt @ lit"
    by (cases fmt; simp)+
qed

lemma c_printf_append:
  "\<lbrakk>c_printf fmt args = Inr m; CHR ''%'' \<notin> set lit\<rbrakk> \<Longrightarrow> c_printf (fmt @ lit) args = Inr (m @ lit)"
proof (induction fmt args arbitrary: m rule: c_printf.induct)
  case (1 args)
  then show ?case by (simp add: c_printf_plain)
next
  case (2 c fmt args)
  consider "c \<noteq> CHR ''%''" | "c = CHR ''%''" "take 1 fmt = ''%''" | "c = CHR ''%''" "take 1 fmt \<noteq> ''%''" by blast
  then show ?case
  proof cases
    case 1
    with 2(1) [OF 1] 2(4,5) show ?thesis by (auto simp: c_printf_char res_bind_Inr_iff)
  next
    case 2
    then obtain fmt' where fmt': "fmt = CHR ''%'' # fmt'" by (cases fmt) auto
    with 2 "2.IH"(2) "2.prems" show ?thesis by (auto simp: c_printf.simps res_bind_Inr_iff)
  next
    case 3
    with "2.prems"(1) obtain conv rest a more piece out where parts: "after_flags fmt = conv # rest" "args = a # more"
      "printf_conversion (take 1 fmt = ''0'') (digits_value (takeWhile isdigit fmt)) conv a = Some piece"
      "c_printf rest more = Inr out" "m = piece @ out"
      by (auto simp: c_printf.simps res_bind_Inr_iff split: list.splits option.splits)
    moreover have "c_printf (rest @ lit) more = Inr (out @ lit)"
      using "2.IH"(3) 3 parts "2.prems"(2) by auto
    moreover obtain f fs where "fmt = f # fs" using parts(1) by (cases fmt) (simp_all add: after_flags_def)
    ultimately show ?thesis
      using 3 after_flags_append [OF parts(1)] flags_append [of fmt lit] by (simp add: c_printf.simps)
  qed
qed

text \<open>Hence an undefined conversion needs a percent sign, and a percent sign with no argument left is undefined.\<close>

lemma c_printf_missing:
  "\<lbrakk>CHR ''%'' \<notin> set lit; take 1 fmt \<noteq> ''%''\<rbrakk> \<Longrightarrow> c_printf (lit @ CHR ''%'' # fmt) [] = Inl Bad_Format"
  by (simp add: c_printf.simps split: list.splits)

text \<open>The conversions that occur in the programs.\<close>

lemma c_printf_string [printf_simps]:
  "c_printf (CHR ''%'' # CHR ''s'' # fmt) (Arg_str s # args) =
     res_bind (c_printf fmt args) (\<lambda>out. Inr (s @ out))"
  by (simp add: c_printf.simps after_flags_def is_length_modifier_def isdigit_def printf_conversion_def
      pad_def digits_value_def)

lemma c_printf_unsigned [printf_simps]:
  "c_printf (CHR ''%'' # CHR ''u'' # fmt) (Arg_nat n # args) =
     res_bind (c_printf fmt args) (\<lambda>out. Inr (fmt_u n @ out))"
  "c_printf (CHR ''%'' # CHR ''z'' # CHR ''u'' # fmt) (Arg_nat n # args) =
     res_bind (c_printf fmt args) (\<lambda>out. Inr (fmt_u n @ out))"
  "c_printf (CHR ''%'' # CHR ''h'' # CHR ''u'' # fmt) (Arg_nat n # args) =
     res_bind (c_printf fmt args) (\<lambda>out. Inr (fmt_u n @ out))"
  by (simp_all add: c_printf.simps after_flags_def is_length_modifier_def isdigit_def printf_conversion_def
      pad_def digits_value_def as_unsigned_def fmt_number_def)

lemma fmt_d_sign: "fmt_number False 0 (i < 0) (fmt_u (nat \<bar>i\<bar>)) = fmt_d i"
  by (simp add: fmt_number_def pad_def fmt_d_def)

lemma c_printf_signed [printf_simps]:
  "c_printf (CHR ''%'' # CHR ''d'' # fmt) (Arg_int i # args) =
     res_bind (c_printf fmt args) (\<lambda>out. Inr (fmt_d i @ out))"
  "c_printf (CHR ''%'' # CHR ''l'' # CHR ''d'' # fmt) (Arg_int i # args) =
     res_bind (c_printf fmt args) (\<lambda>out. Inr (fmt_d i @ out))"
  by (simp_all add: c_printf.simps after_flags_def is_length_modifier_def isdigit_def printf_conversion_def
      digits_value_def fmt_d_sign)

text \<open>A number padded with zeros to a width of one digit, \<open>%0wd\<close> and \<open>%0wX\<close>.\<close>

definition fmt_0d :: "nat \<Rightarrow> int \<Rightarrow> string" where
  "fmt_0d w i = fmt_number True w (i < 0) (fmt_u (nat \<bar>i\<bar>))"

lemma c_printf_zero_d [printf_simps]:
  "c_printf (CHR ''%'' # CHR ''0'' # CHR ''2'' # CHR ''d'' # fmt) (Arg_int i # args) =
     res_bind (c_printf fmt args) (\<lambda>out. Inr (fmt_0d 2 i @ out))"
  "c_printf (CHR ''%'' # CHR ''0'' # CHR ''4'' # CHR ''d'' # fmt) (Arg_int i # args) =
     res_bind (c_printf fmt args) (\<lambda>out. Inr (fmt_0d 4 i @ out))"
  by (simp_all add: c_printf.simps after_flags_def is_length_modifier_def isdigit_def printf_conversion_def
      digits_value_def digit_value_def fmt_0d_def)

lemma fmt_X_below:
  assumes "n < 65536"
  shows "fmt_X n = (if n < 16 then [hex_digit n] else if n < 256 then [hex_digit (n div 16), hex_digit n]
    else if n < 4096 then [hex_digit (n div 256), hex_digit (n div 16), hex_digit n]
    else [hex_digit (n div 4096), hex_digit (n div 256), hex_digit (n div 16), hex_digit n])"
  using assms by (auto simp: fmt_X.simps [of n] fmt_X.simps [of "n div 16"] fmt_X.simps [of "n div 256"]
      fmt_X.simps [of "n div 4096"] div_mult2_eq [symmetric])

text \<open>The two hexadecimal forms of the prelude are instances of \<open>%0wX\<close>.\<close>

lemma c_printf_byte [printf_simps]:
  "c_printf (CHR ''%'' # CHR ''0'' # CHR ''2'' # CHR ''X'' # fmt) (Arg_nat (unat (w :: u8)) # args) =
     res_bind (c_printf fmt args) (\<lambda>out. Inr (fmt_02X w @ out))"
proof -
  have n: "unat w < 256" using unsigned_less [of w, where ?'a = nat] by simp
  then have "unat w < 65536" by (rule less_trans) simp
  with n have "fmt_number True 2 False (fmt_X (unat w)) = fmt_02X w"
    by (auto simp: fmt_number_def pad_def fmt_02X_def fmt_X_below hex_digit_def Let_def)
  then show ?thesis
    by (simp add: c_printf.simps after_flags_def is_length_modifier_def isdigit_def printf_conversion_def
        digits_value_def digit_value_def as_unsigned_def)
qed

lemma c_printf_word [printf_simps]:
  "c_printf (CHR ''%'' # CHR ''0'' # CHR ''4'' # CHR ''X'' # fmt) (Arg_nat (unat (w :: u16)) # args) =
     res_bind (c_printf fmt args) (\<lambda>out. Inr (fmt_04X w @ out))"
proof -
  have n: "unat w < 65536" using unsigned_less [of w, where ?'a = nat] by simp
  have "fmt_number True 4 False (fmt_X (unat w)) = fmt_04X w"
    unfolding fmt_X_below [OF n]
    by (auto simp: fmt_number_def pad_def fmt_04X_def hex_digit_def numeral_2_eq_2 numeral_3_eq_3 Let_def)
  then show ?thesis
    by (simp add: c_printf.simps after_flags_def is_length_modifier_def isdigit_def printf_conversion_def
        digits_value_def digit_value_def as_unsigned_def)
qed

end
