(* ===== verification/Config.thy ===== *)
theory Config
  imports Interfaces Printf
begin

text \<open>
  The configuration of the emulator: log levels (\<open>logging/level.c\<close>), the environment
  variables (\<open>config.c\<close>) with the part of \<open>strtoull\<close> they use, and the clock structure (\<open>clock.c\<close>).
  \<open>getenv\<close> is an input.
\<close>

section \<open>Log levels\<close>

datatype log_level =
    LOG_LEVEL_TRACE | LOG_LEVEL_DEBUG | LOG_LEVEL_INFO | LOG_LEVEL_WARN | LOG_LEVEL_ERROR
  | LOG_LEVEL_FATAL

text \<open>The enumeration constants are compared as the integers they are.\<close>

fun level_index :: "log_level \<Rightarrow> nat" where
  "level_index LOG_LEVEL_TRACE = 0"
| "level_index LOG_LEVEL_DEBUG = 1"
| "level_index LOG_LEVEL_INFO = 2"
| "level_index LOG_LEVEL_WARN = 3"
| "level_index LOG_LEVEL_ERROR = 4"
| "level_index LOG_LEVEL_FATAL = 5"

instantiation log_level :: linorder
begin

definition less_eq_log_level :: "log_level \<Rightarrow> log_level \<Rightarrow> bool" where
  "less_eq_log_level a b \<longleftrightarrow> level_index a \<le> level_index b"

definition less_log_level :: "log_level \<Rightarrow> log_level \<Rightarrow> bool" where
  "less_log_level a b \<longleftrightarrow> level_index a < level_index b"

instance
proof
  fix a b c :: log_level
  have inj: "level_index a = level_index b \<Longrightarrow> a = b" for a b
    by (cases a; cases b) simp_all
  show "a < b \<longleftrightarrow> a \<le> b \<and> \<not> b \<le> a" "a \<le> a" "a \<le> b \<or> b \<le> a"
    by (auto simp: less_eq_log_level_def less_log_level_def)
  show "a \<le> b \<Longrightarrow> b \<le> c \<Longrightarrow> a \<le> c" "a \<le> b \<Longrightarrow> b \<le> a \<Longrightarrow> a = b"
    by (auto simp: less_eq_log_level_def intro: inj)
qed

end

fun log_level_to_string :: "log_level \<Rightarrow> string" where
  "log_level_to_string LOG_LEVEL_TRACE = ''trace''"
| "log_level_to_string LOG_LEVEL_DEBUG = ''debug''"
| "log_level_to_string LOG_LEVEL_INFO = ''info''"
| "log_level_to_string LOG_LEVEL_WARN = ''warn''"
| "log_level_to_string LOG_LEVEL_ERROR = ''error''"
| "log_level_to_string LOG_LEVEL_FATAL = ''fatal''"

fun log_level_to_ansi_color :: "log_level \<Rightarrow> string" where
  "log_level_to_ansi_color LOG_LEVEL_TRACE = ansi ''0;94''"
| "log_level_to_ansi_color LOG_LEVEL_DEBUG = ansi ''0;96''"
| "log_level_to_ansi_color LOG_LEVEL_INFO = ansi ''0;92''"
| "log_level_to_ansi_color LOG_LEVEL_WARN = ansi ''0;93''"
| "log_level_to_ansi_color LOG_LEVEL_ERROR = ansi ''0;91''"
| "log_level_to_ansi_color LOG_LEVEL_FATAL = ansi ''1;91''"

definition log_level_parse :: "string option \<Rightarrow> log_level res" where
  "log_level_parse str =
     (case str of
        None \<Rightarrow> Inr LOG_LEVEL_INFO
      | Some str \<Rightarrow>
          if strncmp_eq ''trace'' str 6 then Inr LOG_LEVEL_TRACE
          else if strncmp_eq ''debug'' str 6 then Inr LOG_LEVEL_DEBUG
          else if strncmp_eq ''info'' str 5 then Inr LOG_LEVEL_INFO
          else if strncmp_eq ''warn'' str 5 then Inr LOG_LEVEL_WARN
          else if strncmp_eq ''error'' str 6 then Inr LOG_LEVEL_ERROR
          else if strncmp_eq ''fatal'' str 6 then Inr LOG_LEVEL_FATAL
          else c_exit (''error: logging: parsing failed: \"'' @ str @ ''\" is not a valid log level\<newline>''))"

section \<open>Environment variables\<close>

record config =
  cfg_log_level :: log_level
  cpu_clock_speed_hz :: u32

text \<open>The one error that \<open>strtoull\<close> sets in base 10 is \<open>ERANGE\<close>, number 34.\<close>

definition parse_string_to_u32 :: "string \<Rightarrow> u32 res" where
  "parse_string_to_u32 str =
     (let (ull_value, erange, endptr) = strtoull str in
      if erange then
        c_exit (''error: config: parsing '' @ str @ '' to uint32_t failed: [34] Numerical result out of range\<newline>'')
      else if ull_value \<ge> 2 ^ 32 - 1 then
        c_exit (''error: config: parsing '' @ str @ '' to uint32_t failed: value is too high\<newline>'')
      else Inr (word_of_nat ull_value))"

definition config_init_log_level :: "(string \<Rightarrow> string option) \<Rightarrow> config \<Rightarrow> config res" where
  "config_init_log_level getenv cfg =
     res_bind (log_level_parse (getenv ''LOG_LEVEL'')) (\<lambda>l. Inr (cfg\<lparr>cfg_log_level := l\<rparr>))"

definition config_init_cpu_clock_speed :: "(string \<Rightarrow> string option) \<Rightarrow> config \<Rightarrow> config res" where
  "config_init_cpu_clock_speed getenv cfg =
     (case getenv ''CPU_CLOCK_HZ'' of
        None \<Rightarrow> Inr (cfg\<lparr>cpu_clock_speed_hz := 600\<rparr>)
      | Some v \<Rightarrow> res_bind (parse_string_to_u32 v) (\<lambda>hz. Inr (cfg\<lparr>cpu_clock_speed_hz := hz\<rparr>)))"

definition config_init_from_env :: "(string \<Rightarrow> string option) \<Rightarrow> config \<Rightarrow> config res" where
  "config_init_from_env getenv cfg =
     res_bind (config_init_log_level getenv cfg) (config_init_cpu_clock_speed getenv)"

section \<open>The clock\<close>

text \<open>The callback, never called by the sources, is a parameter of the type.\<close>

record 'cb clock =
  on_tick_callback :: 'cb
  tick_duration_ms :: u64
  clock_last_tick_timestamp_ms :: u64
  tick_count :: u64

definition clock_init_with_duration_ms :: "u64 \<Rightarrow> 'cb \<Rightarrow> 'cb clock" where
  "clock_init_with_duration_ms d callback =
     \<lparr>on_tick_callback = callback, tick_duration_ms = d, clock_last_tick_timestamp_ms = 0,
      tick_count = 0\<rparr>"

definition clock_init_with_frequency_hz :: "u64 \<Rightarrow> 'cb \<Rightarrow> 'cb clock" where
  "clock_init_with_frequency_hz frequency_speed_hz callback =
     \<lparr>on_tick_callback = callback, tick_duration_ms = frequency_speed_hz * 1000,
      clock_last_tick_timestamp_ms = 0, tick_count = 0\<rparr>"

definition clock_start :: "u64 \<Rightarrow> 'cb clock \<Rightarrow> 'cb clock" where
  "clock_start now c = c\<lparr>clock_last_tick_timestamp_ms := now\<rparr>"

section \<open>Properties\<close>

lemma strncmp_eq_commute: "strncmp_eq a b n = strncmp_eq b a n"
  by (auto simp: strncmp_eq_def)

text \<open>A comparison of as many characters as a literal has, terminator included, is equality.\<close>

lemma literal_eq:
  assumes "nul \<notin> set s" and "nul \<notin> set lit" and "n = Suc (length lit)"
  shows "strncmp_eq lit s n \<longleftrightarrow> s = lit"
  using strncmp_eq_literal [OF assms(2,1)] assms(3) strncmp_eq_commute by blast

lemma log_level_parse_eq:
  assumes "nul \<notin> set s"
  shows "log_level_parse (Some s) =
    (if s = ''trace'' then Inr LOG_LEVEL_TRACE
     else if s = ''debug'' then Inr LOG_LEVEL_DEBUG
     else if s = ''info'' then Inr LOG_LEVEL_INFO
     else if s = ''warn'' then Inr LOG_LEVEL_WARN
     else if s = ''error'' then Inr LOG_LEVEL_ERROR
     else if s = ''fatal'' then Inr LOG_LEVEL_FATAL
     else c_exit (''error: logging: parsing failed: \"'' @ s @ ''\" is not a valid log level\<newline>''))"
proof -
  have "strncmp_eq ''trace'' s 6 \<longleftrightarrow> s = ''trace''" "strncmp_eq ''debug'' s 6 \<longleftrightarrow> s = ''debug''"
    "strncmp_eq ''info'' s 5 \<longleftrightarrow> s = ''info''" "strncmp_eq ''warn'' s 5 \<longleftrightarrow> s = ''warn''"
    "strncmp_eq ''error'' s 6 \<longleftrightarrow> s = ''error''" "strncmp_eq ''fatal'' s 6 \<longleftrightarrow> s = ''fatal''"
    by (rule literal_eq [OF assms]; simp add: nul_def)+
  then show ?thesis
    by (simp only: log_level_parse_def option.case)
qed

lemma log_level_string_nul [simp]: "nul \<notin> set (log_level_to_string l)"
  by (cases l) (simp_all add: nul_def)

interpretation level_names: codec log_level_to_string
  "\<lambda>s. case log_level_parse (Some s) of Inl e \<Rightarrow> None | Inr l \<Rightarrow> Some l" "\<lambda>l. True"
proof
  fix l
  have "log_level_parse (Some (log_level_to_string l)) = Inr l"
    by (cases l) (simp_all add: log_level_parse_eq nul_def)
  then show "(case log_level_parse (Some (log_level_to_string l)) of Inl e \<Rightarrow> None | Inr l \<Rightarrow> Some l) = Some l"
    by simp
qed

lemma UNIV_log_level:
  "(UNIV :: log_level set) = {LOG_LEVEL_TRACE, LOG_LEVEL_DEBUG, LOG_LEVEL_INFO, LOG_LEVEL_WARN,
     LOG_LEVEL_ERROR, LOG_LEVEL_FATAL}"
proof -
  have "l \<in> {LOG_LEVEL_TRACE, LOG_LEVEL_DEBUG, LOG_LEVEL_INFO, LOG_LEVEL_WARN, LOG_LEVEL_ERROR,
      LOG_LEVEL_FATAL}" for l
    by (cases l) simp_all
  then show ?thesis by blast
qed

text \<open>A string parses to a log level exactly when it is the name of that level, case and
  length included; every other string ends the program, and an unset variable means
  \<open>info\<close>.\<close>

theorem log_level_parse_iff:
  assumes "nul \<notin> set s"
  shows "(log_level_parse (Some s) = Inr l \<longleftrightarrow> s = log_level_to_string l) \<and>
    (s \<notin> range log_level_to_string \<longrightarrow> (\<exists>msg. log_level_parse (Some s) = Inl (Exit_Failure msg))) \<and>
    log_level_parse None = Inr LOG_LEVEL_INFO"
proof (intro conjI)
  have names: "s \<in> range log_level_to_string \<longleftrightarrow> s = ''trace'' \<or> s = ''debug'' \<or> s = ''info'' \<or>
      s = ''warn'' \<or> s = ''error'' \<or> s = ''fatal''"
    by (simp add: UNIV_log_level)
  show "log_level_parse (Some s) = Inr l \<longleftrightarrow> s = log_level_to_string l"
  proof
    assume "log_level_parse (Some s) = Inr l"
    then show "s = log_level_to_string l"
      unfolding log_level_parse_eq [OF assms] by (simp split: if_splits add: c_exit_def)
  next
    assume "s = log_level_to_string l"
    then show "log_level_parse (Some s) = Inr l"
      using level_names.dec_enc [of l] by (simp split: sum.splits)
  qed
  show "s \<notin> range log_level_to_string \<longrightarrow> (\<exists>msg. log_level_parse (Some s) = Inl (Exit_Failure msg))"
    unfolding names log_level_parse_eq [OF assms] by (simp add: c_exit_def)
  show "log_level_parse None = Inr LOG_LEVEL_INFO"
    by (simp add: log_level_parse_def)
qed

theorem log_level_parse_iff_witness:
  "log_level_parse (Some ''warn'') = Inr LOG_LEVEL_WARN"
  using log_level_parse_iff [of "''warn''" LOG_LEVEL_WARN] by (simp add: nul_def)

text \<open>\<open>parse_string_to_u32\<close> reads back every printed number that it accepts, and rejects the
  greatest one: a decimal numeral below \<open>2 ^ 32 - 1\<close> is parsed to its value, and one that is
  not, \<open>UINT32_MAX\<close> itself included, ends the program.\<close>

theorem parse_u32_roundtrip:
  "(n < 2 ^ 32 - 1 \<longrightarrow> parse_string_to_u32 (fmt_u n) = Inr (word_of_nat n)) \<and>
   (2 ^ 32 - 1 \<le> n \<longrightarrow> (\<exists>msg. parse_string_to_u32 (fmt_u n) = Inl (Exit_Failure msg)))"
proof -
  obtain c cs where c: "fmt_u n = c # cs" using fmt_u_nonempty [of n] by (cases "fmt_u n") auto
  then have "isdigit c" using fmt_u_digits [of c n] by simp
  have digits: "takeWhile isdigit (fmt_u n) = fmt_u n"
    using fmt_u_digits [of _ n] by (simp add: takeWhile_eq_all_conv)
  then have "strtoull (fmt_u n) = (if n > 2 ^ 64 - 1 then (2 ^ 64 - 1, True, dropWhile isdigit (fmt_u n))
      else (n, False, dropWhile isdigit (fmt_u n)))"
    using isdigit_class [OF \<open>isdigit c\<close>] c digits_value_fmt_u [of n]
    by (simp add: strtoull_def Let_def)
  then show ?thesis
    by (auto simp: parse_string_to_u32_def c_exit_def)
qed

theorem parse_u32_roundtrip_witness:
  "parse_string_to_u32 ''600'' = Inr 600"
proof -
  have "fmt_u 600 = ''600''" by (simp add: fmt_u.simps dec_digit_def)
  then show ?thesis using parse_u32_roundtrip [of 600] by simp
qed

text \<open>A clock speed that is no number is accepted as zero: when the value of
  \<open>CPU_CLOCK_HZ\<close> starts with something other than a digit, a sign or white space, the
  configured speed is zero, and no error is reported.\<close>

theorem garbage_clock_speed_is_zero:
  assumes "getenv ''CPU_CLOCK_HZ'' = Some (c # s)" and "\<not> isdigit c" and "\<not> isspace c"
    and "c \<noteq> CHR ''-''" and "c \<noteq> CHR ''+''" and "getenv ''LOG_LEVEL'' = None"
  shows "config_init_from_env getenv cfg =
    Inr (cfg\<lparr>cfg_log_level := LOG_LEVEL_INFO, cpu_clock_speed_hz := 0\<rparr>)"
  using assms
  by (simp add: config_init_from_env_def config_init_log_level_def config_init_cpu_clock_speed_def
      log_level_parse_def parse_string_to_u32_def strtoull_def Let_def)

theorem garbage_clock_speed_is_zero_witness:
  "config_init_from_env (\<lambda>k. if k = ''CPU_CLOCK_HZ'' then Some ''fast'' else None)
     \<lparr>cfg_log_level = LOG_LEVEL_TRACE, cpu_clock_speed_hz = 1\<rparr> =
   Inr \<lparr>cfg_log_level = LOG_LEVEL_INFO, cpu_clock_speed_hz = 0\<rparr>"
  by (subst garbage_clock_speed_is_zero [where c = "CHR ''f''" and s = "''ast''"])
    (simp_all add: isdigit_def isspace_def)

end
