(* ===== verification/Logger.thy ===== *)
theory Logger
  imports Config
begin

text \<open>
  The logger of the emulator (\<open>logging/logger.c\<close>, the macros of \<open>logging/logger.h\<close>). A record is formatted into a
  buffer of 1024 bytes by five calls of \<open>snprintf\<close>, each between two assertions. The configuration and the local
  time that \<open>log_log\<close> reads are its argument \<open>log_env\<close>; the tag that a source file defines as \<open>LOG_TAG\<close> is an
  argument of the macros.
\<close>

section \<open>Operations\<close>

definition LOG_RECORD_MSG_MAX_SIZE :: nat where
  "LOG_RECORD_MSG_MAX_SIZE = 1024"

record log_record =
  tag :: string
  level :: log_level
  msg :: string
  caused_by :: "string option"

record tm =
  tm_year :: int
  tm_mon :: int
  tm_mday :: int
  tm_hour :: int
  tm_min :: int
  tm_sec :: int

record log_env =
  log_config :: config
  local_time :: tm

text \<open>One \<open>snprintf\<close> at the current offset with the assertions around it; the offset is the
  length of what is in the buffer.\<close>

definition log_append :: "string \<Rightarrow> string \<Rightarrow> printf_arg list \<Rightarrow> string res" where
  "log_append buf fmt args =
     res_bind (c_assert (length buf < LOG_RECORD_MSG_MAX_SIZE)) (\<lambda>_.
     res_bind (c_printf fmt args) (\<lambda>text.
     res_bind (c_assert (length text < LOG_RECORD_MSG_MAX_SIZE - length buf)) (\<lambda>_.
     Inr (buf @ text))))"

definition log_timestamp :: "string \<Rightarrow> tm \<Rightarrow> string res" where
  "log_timestamp buf t =
     log_append buf ([CHR 0x5B] @ ''%04d-%02d-%02d %02d:%02d:%02d] '')
       [Arg_int (tm_year t + 1900), Arg_int (tm_mon t + 1), Arg_int (tm_mday t), Arg_int (tm_hour t),
        Arg_int (tm_min t), Arg_int (tm_sec t)]"

definition log_head :: "string \<Rightarrow> log_record \<Rightarrow> string res" where
  "log_head buf record =
     log_append buf (''%s%s'' @ ansi ''0;97'' @ '': '' @ ansi ''38;5;214'' @ ''%s'' @ ansi ''0;97'' @ '': '')
       [Arg_str (log_level_to_ansi_color (level record)), Arg_str (log_level_to_string (level record)),
        Arg_str (tag record)]"

definition log_cause :: "string \<Rightarrow> log_record \<Rightarrow> string res" where
  "log_cause buf record =
     (case caused_by record of
        Some cause \<Rightarrow> log_append buf ''. caused by: %s\<newline>'' [Arg_str cause]
      | None \<Rightarrow> log_append buf ''\<newline>'' [])"

text \<open>The result is what goes to \<open>stderr\<close>; a fatal record ends the program after it.\<close>

definition log_log :: "log_env \<Rightarrow> log_record \<Rightarrow> printf_arg list \<Rightarrow> string res" where
  "log_log lg record args =
     (if level record < cfg_log_level (log_config lg) then Inr []
      else
        res_bind (log_timestamp [] (local_time lg)) (\<lambda>buf.
        res_bind (log_head buf record) (\<lambda>buf.
        res_bind (log_append buf (msg record) args) (\<lambda>buf.
        res_bind (log_cause buf record) (\<lambda>buf.
        res_bind (log_append buf (ansi ''0'') []) (\<lambda>buf.
        if level record = LOG_LEVEL_FATAL then c_exit buf else Inr buf))))))"

text \<open>The macros: a message is a format with the argument \<open>NULL\<close>.\<close>

definition log_tracef :: "log_env \<Rightarrow> string \<Rightarrow> string \<Rightarrow> printf_arg list \<Rightarrow> string res" where
  "log_tracef lg LOG_TAG fmt args =
     log_log lg \<lparr>tag = LOG_TAG, level = LOG_LEVEL_TRACE, msg = fmt, caused_by = None\<rparr> args"

definition log_trace :: "log_env \<Rightarrow> string \<Rightarrow> string \<Rightarrow> string res" where
  "log_trace lg LOG_TAG message = log_tracef lg LOG_TAG message [Arg_null]"

definition log_debugf :: "log_env \<Rightarrow> string \<Rightarrow> string \<Rightarrow> printf_arg list \<Rightarrow> string res" where
  "log_debugf lg LOG_TAG fmt args =
     log_log lg \<lparr>tag = LOG_TAG, level = LOG_LEVEL_DEBUG, msg = fmt, caused_by = None\<rparr> args"

definition log_debug :: "log_env \<Rightarrow> string \<Rightarrow> string \<Rightarrow> string res" where
  "log_debug lg LOG_TAG message = log_debugf lg LOG_TAG message [Arg_null]"

definition log_infof :: "log_env \<Rightarrow> string \<Rightarrow> string \<Rightarrow> printf_arg list \<Rightarrow> string res" where
  "log_infof lg LOG_TAG fmt args =
     log_log lg \<lparr>tag = LOG_TAG, level = LOG_LEVEL_INFO, msg = fmt, caused_by = None\<rparr> args"

definition log_info :: "log_env \<Rightarrow> string \<Rightarrow> string \<Rightarrow> string res" where
  "log_info lg LOG_TAG message = log_infof lg LOG_TAG message [Arg_null]"

definition log_warnf :: "log_env \<Rightarrow> string \<Rightarrow> string \<Rightarrow> printf_arg list \<Rightarrow> string res" where
  "log_warnf lg LOG_TAG fmt args =
     log_log lg \<lparr>tag = LOG_TAG, level = LOG_LEVEL_WARN, msg = fmt, caused_by = None\<rparr> args"

definition log_warn :: "log_env \<Rightarrow> string \<Rightarrow> string \<Rightarrow> string res" where
  "log_warn lg LOG_TAG message = log_warnf lg LOG_TAG message [Arg_null]"

definition log_errorf :: "log_env \<Rightarrow> string \<Rightarrow> string \<Rightarrow> printf_arg list \<Rightarrow> string res" where
  "log_errorf lg LOG_TAG fmt args =
     log_log lg \<lparr>tag = LOG_TAG, level = LOG_LEVEL_ERROR, msg = fmt, caused_by = None\<rparr> args"

definition log_error :: "log_env \<Rightarrow> string \<Rightarrow> string \<Rightarrow> string res" where
  "log_error lg LOG_TAG message = log_errorf lg LOG_TAG message [Arg_null]"

definition log_fatalf :: "log_env \<Rightarrow> string \<Rightarrow> string \<Rightarrow> printf_arg list \<Rightarrow> string res" where
  "log_fatalf lg LOG_TAG fmt args =
     log_log lg \<lparr>tag = LOG_TAG, level = LOG_LEVEL_FATAL, msg = fmt, caused_by = None\<rparr> args"

definition log_fatal :: "log_env \<Rightarrow> string \<Rightarrow> string \<Rightarrow> string res" where
  "log_fatal lg LOG_TAG message = log_fatalf lg LOG_TAG message [Arg_null]"

lemmas log_macro_defs = log_tracef_def log_trace_def log_debugf_def log_debug_def log_infof_def log_info_def
  log_warnf_def log_warn_def log_errorf_def log_error_def log_fatalf_def log_fatal_def

section \<open>The text of a record\<close>

definition timestamp_text :: "tm \<Rightarrow> string" where
  "timestamp_text t =
     [CHR 0x5B] @ fmt_0d 4 (tm_year t + 1900) @ ''-'' @ fmt_0d 2 (tm_mon t + 1) @ ''-'' @ fmt_0d 2 (tm_mday t) @
     '' '' @ fmt_0d 2 (tm_hour t) @ '':'' @ fmt_0d 2 (tm_min t) @ '':'' @ fmt_0d 2 (tm_sec t) @ ''] ''"

definition log_text :: "tm \<Rightarrow> log_record \<Rightarrow> string \<Rightarrow> string" where
  "log_text t r m =
     timestamp_text t @
     log_level_to_ansi_color (level r) @ log_level_to_string (level r) @ ansi ''0;97'' @ '': '' @
     ansi ''38;5;214'' @ tag r @ ansi ''0;97'' @ '': '' @
     m @
     (case caused_by r of Some c \<Rightarrow> ''. caused by: '' @ c | None \<Rightarrow> []) @ ''\<newline>'' @ ansi ''0''"

lemma res_bind_fails: "(\<And>x. \<exists>e. f x = Inl e) \<Longrightarrow> \<exists>e. res_bind r f = Inl e"
  by (cases r) simp_all

lemma log_append_eq:
  "log_append buf fmt args =
     (if length buf < 1024 then
        (case c_printf fmt args of
           Inl e \<Rightarrow> Inl e
         | Inr txt \<Rightarrow> if length buf + length txt < 1024 then Inr (buf @ txt) else Inl Assert_Failure)
      else Inl Assert_Failure)"
  by (auto simp: log_append_def c_assert_def LOG_RECORD_MSG_MAX_SIZE_def split: sum.splits)

lemma log_timestamp_eq:
  "log_timestamp [] t = (if length (timestamp_text t) < 1024 then Inr (timestamp_text t) else Inl Assert_Failure)"
  by (simp add: log_timestamp_def log_append_eq printf_simps timestamp_text_def)

lemma log_head_eq:
  "length buf < 1024 \<Longrightarrow> log_head buf r =
     (let txt = log_level_to_ansi_color (level r) @ log_level_to_string (level r) @ ansi ''0;97'' @ '': '' @
        ansi ''38;5;214'' @ tag r @ ansi ''0;97'' @ '': '' in
      if length buf + length txt < 1024 then Inr (buf @ txt) else Inl Assert_Failure)"
  by (simp add: log_head_def log_append_eq printf_simps ansi_def Let_def)

lemma log_cause_eq:
  "length buf < 1024 \<Longrightarrow> log_cause buf r =
     (let txt = (case caused_by r of Some c \<Rightarrow> ''. caused by: '' @ c | None \<Rightarrow> []) @ ''\<newline>'' in
      if length buf + length txt < 1024 then Inr (buf @ txt) else Inl Assert_Failure)"
  by (cases "caused_by r") (simp_all add: log_cause_def log_append_eq printf_simps Let_def)

text \<open>\<open>log_log\<close> never writes past its buffer. A record below the configured level is dropped and its format is not
  looked at; any other record is written whole if its text fits the 1024 bytes with its terminator, and otherwise an
  assertion stops the program; a fatal record that fits is written and ends it.\<close>

theorem log_log_spec:
  assumes "c_printf (msg r) args = Inr m"
  shows "log_log lg r args =
     (if level r < cfg_log_level (log_config lg) then Inr []
      else if length (log_text (local_time lg) r m) < 1024
        then if level r = LOG_LEVEL_FATAL then Inl (Exit_Failure (log_text (local_time lg) r m))
          else Inr (log_text (local_time lg) r m)
      else Inl Assert_Failure)"
proof -
  have reset: "c_printf (ansi ''0'') [] = Inr (ansi ''0'')" by (rule c_printf_plain) (simp add: ansi_def)
  show ?thesis
    by (auto simp: log_log_def log_timestamp_eq log_head_eq log_cause_eq log_append_eq assms reset log_text_def
        c_exit_def Let_def)
qed

text \<open>Fatal records are never filtered: whatever the configured level, \<open>log_fatalf\<close> does not
  return to its caller.\<close>

theorem log_fatal_never_returns: "\<exists>e. log_fatalf lg LOG_TAG fmt args = Inl e"
proof -
  have "\<not> LOG_LEVEL_FATAL < cfg_log_level (log_config lg)"
    by (cases "cfg_log_level (log_config lg)") (simp_all add: less_log_level_def)
  then show ?thesis
    by (simp add: log_fatalf_def log_log_def c_exit_def res_bind_fails)
qed

section \<open>When a record fits\<close>

text \<open>The fields of a date that \<open>localtime\<close> gives before the year 10000.\<close>

definition tm_ok :: "tm \<Rightarrow> bool" where
  "tm_ok t \<longleftrightarrow> 0 \<le> tm_year t + 1900 \<and> tm_year t + 1900 \<le> 9999 \<and> 0 \<le> tm_mon t \<and> tm_mon t \<le> 11 \<and>
     1 \<le> tm_mday t \<and> tm_mday t \<le> 31 \<and> 0 \<le> tm_hour t \<and> tm_hour t \<le> 23 \<and> 0 \<le> tm_min t \<and> tm_min t \<le> 59 \<and>
     0 \<le> tm_sec t \<and> tm_sec t \<le> 60"

lemma fmt_u_length: "n < 10 ^ k \<Longrightarrow> 0 < k \<Longrightarrow> length (fmt_u n) \<le> k"
proof (induction k arbitrary: n)
  case (Suc k)
  show ?case
  proof (cases "n < 10")
    case True
    then show ?thesis by (subst fmt_u.simps) simp
  next
    case False
    then have "0 < k" using Suc.prems by (cases k) auto
    moreover have "n div 10 < 10 ^ k" using Suc.prems(1) by (simp add: less_mult_imp_div_less mult.commute)
    ultimately show ?thesis using Suc.IH False by (subst fmt_u.simps) simp
  qed
qed simp

lemma fmt_0d_length: "\<lbrakk>0 \<le> i; nat i < 10 ^ w; 0 < w\<rbrakk> \<Longrightarrow> length (fmt_0d w i) = w"
  using fmt_u_length [of "nat i" w] by (simp add: fmt_0d_def fmt_number_def pad_def)

lemma timestamp_length: "tm_ok t \<Longrightarrow> length (timestamp_text t) = 22"
  by (simp add: timestamp_text_def tm_ok_def fmt_0d_length nat_less_iff)

lemma log_level_to_ansi_color_length [simp]: "length (log_level_to_ansi_color l) = 7"
  by (cases l) (simp_all add: ansi_def)

lemma log_level_to_string_length: "length (log_level_to_string l) \<le> 5" "4 \<le> length (log_level_to_string l)"
  by (cases l; simp)+

lemma log_text_length:
  "\<lbrakk>tm_ok t; caused_by r = None\<rbrakk> \<Longrightarrow>
    length (log_text t r m) = 63 + length (log_level_to_string (level r)) + length (tag r) + length m"
  by (simp add: log_text_def timestamp_length ansi_def)

text \<open>A message of at most 955 characters, its tag included, is written and the program goes on; one of 957 or more
  fails an assertion.\<close>

lemma log_log_returns:
  assumes "tm_ok (local_time lg)" and "caused_by r = None" and "level r \<noteq> LOG_LEVEL_FATAL"
    and "c_printf (msg r) args = Inr m" and "length (tag r) + length m \<le> 955"
  shows "\<exists>txt. log_log lg r args = Inr txt"
  using assms log_level_to_string_length [of "level r"] by (simp add: log_log_spec log_text_length)

lemma log_log_aborts:
  assumes "tm_ok (local_time lg)" and "caused_by r = None" and "cfg_log_level (log_config lg) \<le> level r"
    and "c_printf (msg r) args = Inr m" and "957 \<le> length (tag r) + length m"
  shows "log_log lg r args = Inl Assert_Failure"
  using assms log_level_to_string_length [of "level r"] by (simp add: log_log_spec log_text_length not_less)

text \<open>Hence a statement that follows a log call is reached.\<close>

lemma log_then:
  assumes "tm_ok (local_time lg)" and "c_printf fmt args = Inr m" and "length tg + length m \<le> 955"
  shows "res_bind (log_debugf lg tg fmt args) (\<lambda>_. k) = k" and "res_bind (log_infof lg tg fmt args) (\<lambda>_. k) = k"
    and "res_bind (log_warnf lg tg fmt args) (\<lambda>_. k) = k" and "res_bind (log_errorf lg tg fmt args) (\<lambda>_. k) = k"
proof -
  have "res_bind (log_log lg \<lparr>tag = tg, level = l, msg = fmt, caused_by = None\<rparr> args) (\<lambda>_. k) = k"
    if "l \<noteq> LOG_LEVEL_FATAL" for l
    using log_log_returns [of lg "\<lparr>tag = tg, level = l, msg = fmt, caused_by = None\<rparr>" args m] assms that
    by fastforce
  then show "res_bind (log_debugf lg tg fmt args) (\<lambda>_. k) = k" and "res_bind (log_infof lg tg fmt args) (\<lambda>_. k) = k"
    and "res_bind (log_warnf lg tg fmt args) (\<lambda>_. k) = k" and "res_bind (log_errorf lg tg fmt args) (\<lambda>_. k) = k"
    by (simp_all add: log_macro_defs)
qed

text \<open>Whether it fits or not, a record that is not fatal and whose arguments match its format leaves two outcomes.\<close>

lemma wp_log:
  assumes "c_printf fmt args = Inr m" and "\<And>txt. Q txt" and "E Assert_Failure"
  shows "wp (log_debugf lg tg fmt args) Q E" and "wp (log_infof lg tg fmt args) Q E"
    and "wp (log_warnf lg tg fmt args) Q E" and "wp (log_errorf lg tg fmt args) Q E"
  using assms by (simp_all add: log_macro_defs log_log_spec [where m = m])

lemma c_printf_message: "CHR ''%'' \<notin> set message \<Longrightarrow> c_printf message [Arg_null] = Inr message"
  by (rule c_printf_plain)

text \<open>A message of at most 955 characters, tag included, that has no percent sign is written unchanged and, being
  fatal, ends the program with it: what the processor does with the messages of its own.\<close>

lemma log_fatal_exits:
  assumes "tm_ok (local_time lg)" and "CHR ''%'' \<notin> set message" and "length tg + length message \<le> 955"
  shows "\<exists>pre post. log_fatal lg tg message = c_exit (pre @ message @ post)"
proof -
  let ?r = "\<lparr>tag = tg, level = LOG_LEVEL_FATAL, msg = message, caused_by = None\<rparr>"
  have "\<not> LOG_LEVEL_FATAL < cfg_log_level (log_config lg)"
    by (cases "cfg_log_level (log_config lg)") (simp_all add: less_log_level_def)
  then have "log_fatal lg tg message = c_exit (log_text (local_time lg) ?r message)"
    using assms by (simp add: log_macro_defs log_log_spec [where m = message] c_printf_plain log_text_length c_exit_def)
  then show ?thesis unfolding log_text_def by (metis append.assoc)
qed

text \<open>A configuration that logs nothing but errors, on a day in 2023; the sample of the witnesses.\<close>

definition quiet :: log_env where
  "quiet = \<lparr>log_config = \<lparr>cfg_log_level = LOG_LEVEL_ERROR, cpu_clock_speed_hz = 600\<rparr>,
     local_time = \<lparr>tm_year = 123, tm_mon = 4, tm_mday = 7, tm_hour = 12, tm_min = 0, tm_sec = 0\<rparr>\<rparr>"

lemma quiet_tm_ok [simp]: "tm_ok (local_time quiet)"
  by (simp add: quiet_def tm_ok_def)

end
