(* ===== verification/Files.thy ===== *)
theory Files
  imports Logger
begin

text \<open>
  Byte buffers (\<open>commons/buffer.c\<close>) and reading a file into one (\<open>utils/fs.c\<close>). The
  operating system is an input: which paths open, whether \<open>fseek\<close> and \<open>calloc\<close> succeed, how many
  bytes \<open>fread\<close> delivers and what \<open>strerror\<close> says of a call that fails. The log records contain the path,
  so that whether they fit the buffer of the logger is part of the behaviour.
\<close>

section \<open>Buffers\<close>

record buffer =
  buffer_data :: "u8 list option"
  buffer_capacity :: nat

definition buffer_empty :: buffer where
  "buffer_empty = \<lparr>buffer_data = None, buffer_capacity = 0\<rparr>"

definition buffer_new :: "(nat \<Rightarrow> bool) \<Rightarrow> nat \<Rightarrow> buffer res" where
  "buffer_new calloc_ok capacity =
     (let data = (if calloc_ok capacity then Some (replicate capacity 0) else None) in
      res_bind (c_assert (data \<noteq> None)) (\<lambda>_.
      Inr \<lparr>buffer_data = data, buffer_capacity = capacity\<rparr>))"

definition buffer_free :: "buffer \<Rightarrow> buffer" where
  "buffer_free b = b\<lparr>buffer_capacity := 0, buffer_data := None\<rparr>"

section \<open>Files\<close>

record c_file =
  file_bytes :: "u8 list"
  seek_ok :: bool
  read_limit :: nat

record os =
  open_file :: "string \<Rightarrow> c_file option"
  calloc_ok :: "nat \<Rightarrow> bool"
  strerror_errno :: string

text \<open>\<open>fread\<close> delivers the first \<open>count\<close> bytes of the file, fewer when the file or the
  device ends before.\<close>

definition fread :: "c_file \<Rightarrow> nat \<Rightarrow> u8 list" where
  "fread f count = take (min count (read_limit f)) (file_bytes f)"

text \<open>The text of an exit is what the error record wrote.\<close>

definition file_read_contents :: "log_env \<Rightarrow> os \<Rightarrow> string \<Rightarrow> buffer res" where
  "file_read_contents lg os file_path =
     res_bind (log_debugf lg ''fs'' ''opening file '%s'...'' [Arg_str file_path]) (\<lambda>_.
     case open_file os file_path of
       None \<Rightarrow>
         res_bind (log_errorf lg ''fs'' ''failed to open file '%s': %s'' [Arg_str file_path, Arg_str (strerror_errno os)])
           (\<lambda>_. Inr buffer_empty)
     | Some file \<Rightarrow>
         res_bind (log_debug lg ''fs'' ''calculating file size...'') (\<lambda>_.
         if \<not> seek_ok file then
           res_bind (log_errorf lg ''fs'' ''failed to seek to the end of file '%s': %s''
               [Arg_str file_path, Arg_str (strerror_errno os)]) c_exit
         else let file_size = length (file_bytes file) in
           if file_size = 0 then
             res_bind (log_warnf lg ''fs'' ''file '%s' is empty'' [Arg_str file_path]) (\<lambda>_. Inr buffer_empty)
           else
             res_bind (log_debugf lg ''fs'' ''file '%s' has size = %zu'' [Arg_str file_path, Arg_nat file_size]) (\<lambda>_.
             res_bind (buffer_new (calloc_ok os) file_size) (\<lambda>buffer.
             let bytes = fread file file_size; bytes_read = length bytes in
             res_bind (case buffer_data buffer of
                 None \<Rightarrow> Inl Null_Deref
               | Some data \<Rightarrow> arr_copy data 0 bytes) (\<lambda>data.
             if bytes_read \<noteq> file_size then
               res_bind (log_errorf lg ''fs'' ''failed to read all bytes from file '%s'. file_size=%zu bytes_read=%zu''
                   [Arg_str file_path, Arg_nat file_size, Arg_nat bytes_read]) c_exit
             else Inr (buffer\<lparr>buffer_data := Some data\<rparr>))))))"

section \<open>Properties\<close>

text \<open>A buffer whose capacity is the length of its data.\<close>

definition buffer_wf :: "buffer \<Rightarrow> bool" where
  "buffer_wf b \<longleftrightarrow>
     buffer_capacity b = (case buffer_data b of None \<Rightarrow> 0 | Some bytes \<Rightarrow> length bytes)"

definition buffer_bytes :: "buffer \<Rightarrow> u8 list" where
  "buffer_bytes b = (case buffer_data b of None \<Rightarrow> [] | Some bytes \<Rightarrow> bytes)"

lemma buffer_bytes_length [simp]: "buffer_wf b \<Longrightarrow> length (buffer_bytes b) = buffer_capacity b"
  by (simp add: buffer_wf_def buffer_bytes_def split: option.splits)

text \<open>The formats are well formed, and what they print.\<close>

abbreviation quoted :: "string \<Rightarrow> string" where
  "quoted s \<equiv> CHR 0x27 # s @ [CHR 0x27]"

lemma fs_formats:
  "c_printf ''opening file '%s'...'' [Arg_str path] = Inr (''opening file '' @ quoted path @ ''...'')"
  "c_printf ''failed to open file '%s': %s'' [Arg_str path, Arg_str err] =
     Inr (''failed to open file '' @ quoted path @ '': '' @ err)"
  "c_printf ''failed to seek to the end of file '%s': %s'' [Arg_str path, Arg_str err] =
     Inr (''failed to seek to the end of file '' @ quoted path @ '': '' @ err)"
  "c_printf ''file '%s' is empty'' [Arg_str path] = Inr (''file '' @ quoted path @ '' is empty'')"
  "c_printf ''file '%s' has size = %zu'' [Arg_str path, Arg_nat n] =
     Inr (''file '' @ quoted path @ '' has size = '' @ fmt_u n)"
  "c_printf ''failed to read all bytes from file '%s'. file_size=%zu bytes_read=%zu''
      [Arg_str path, Arg_nat n, Arg_nat k] =
     Inr (''failed to read all bytes from file '' @ quoted path @ ''. file_size='' @ fmt_u n @ '' bytes_read='' @ fmt_u k)"
  by (simp_all add: printf_simps del: fmt_u.simps)

lemmas wp_fs_log = fs_formats [THEN wp_log(1)] fs_formats [THEN wp_log(3)] fs_formats [THEN wp_log(4)]

lemma wp_fs_debug: "(\<And>txt. Q txt) \<Longrightarrow> E Assert_Failure \<Longrightarrow> wp (log_debug lg ''fs'' ''calculating file size...'') Q E"
  unfolding log_debug_def by (rule wp_log(1) [OF c_printf_message]) simp_all

text \<open>What is read is the file, whole; a path that does not open reads as an empty buffer; the
  remaining outcomes end the program.\<close>

lemma file_read_contents_wp:
  "wp (file_read_contents lg os path)
     (\<lambda>b. buffer_wf b \<and> buffer_capacity b = (case open_file os path of None \<Rightarrow> 0 | Some f \<Rightarrow> length (file_bytes f)) \<and>
        buffer_bytes b = (case open_file os path of None \<Rightarrow> [] | Some f \<Rightarrow> file_bytes f))
     (\<lambda>e. e = Assert_Failure \<or> (\<exists>msg. e = Exit_Failure msg))"
  unfolding file_read_contents_def
  by (auto simp: wp_simps Let_def buffer_new_def buffer_wf_def
      buffer_bytes_def buffer_empty_def fread_def intro!: wp_fs_log wp_fs_debug split: option.splits)

lemma file_read_contents_ok:
  assumes "open_file os path = Some f" and "seek_ok f" and "calloc_ok os (length (file_bytes f))"
    and "length (file_bytes f) \<le> read_limit f" and "tm_ok (local_time lg)" and "length path \<le> 900"
    and "length (file_bytes f) < 2 ^ 64"
  obtains b where "file_read_contents lg os path = Inr b" "buffer_wf b" "buffer_bytes b = file_bytes f"
proof -
  have "length (fmt_u (length (file_bytes f))) \<le> 20" using assms(7) by (intro fmt_u_length) simp_all
  then have "\<exists>b. file_read_contents lg os path = Inr b"
    using assms
    by (simp add: file_read_contents_def buffer_new_def fread_def arr_copy_def c_assert_def Let_def
        min_absorb1 log_debug_def log_then [OF assms(5) fs_formats(1)] log_then [OF assms(5) fs_formats(4)]
        log_then [OF assms(5) fs_formats(5)] log_then [OF assms(5) c_printf_message] del: fmt_u.simps)
  then show thesis
    using that file_read_contents_wp [of lg os path] assms(1) by auto
qed

lemma file_read_contents_none:
  assumes "open_file os path = None" and "tm_ok (local_time lg)" and "length path + length (strerror_errno os) \<le> 900"
  shows "file_read_contents lg os path = Inr buffer_empty"
  using assms
  by (simp add: file_read_contents_def log_then [OF assms(2) fs_formats(1)] log_then [OF assms(2) fs_formats(2)])

end
