(* ===== verification/Machine.thy ===== *)
theory Machine
  imports Isa Files
begin

text \<open>
  The machine (\<open>machine.c\<close>): \<open>machine_init\<close>, loading a ROM, the disassembly of the program in
  memory, and the main loop. A frame of the main loop is an input: the events that
  \<open>SDL_PollEvent\<close> returns, the two readings of the clock that the timers make, the keyboard, the random number,
  and the readings of the performance counter around the instruction, with its frequency. The calls to SDL are
  listed in order. The measured time is a \<open>double\<close> in the source and exact here. The state before
  \<open>machine_init\<close> is arbitrary.
\<close>

section \<open>Operations\<close>

definition PROGRAM_MAX_SIZE :: nat where
  "PROGRAM_MAX_SIZE = MEMORY_SIZE - unat MEMORY_PROGRAM_STARTING_ADDRESS"

definition machine_init :: "bool \<Rightarrow> bool \<Rightarrow> machine \<Rightarrow> machine res" where
  "machine_init sdl_init_ok create_ok m =
     (let m = m\<lparr>delay_timer := timer_init\<rparr>;
          m = m\<lparr>sound_timer := timer_init\<rparr> in
      res_bind (memory_init (memory m)) (\<lambda>mem.
      let m = m\<lparr>memory := mem\<rparr> in
      res_bind (display_init sdl_init_ok create_ok (display m)) (\<lambda>d.
      let m = m\<lparr>display := d\<rparr> in
      Inr (m\<lparr>cpu := cpu_init\<rparr>))))"

definition machine_load_rom :: "log_env \<Rightarrow> os \<Rightarrow> machine \<Rightarrow> string \<Rightarrow> machine res" where
  "machine_load_rom lg os m rom_file_path =
     res_bind (log_infof lg ''machine'' ''loading rom \"%s\"'' [Arg_str rom_file_path]) (\<lambda>_.
     res_bind (file_read_contents lg os rom_file_path) (\<lambda>rom.
     if buffer_capacity rom > PROGRAM_MAX_SIZE then
       res_bind (log_errorf lg ''machine'' ''failed to load program rom: program size (%zu) is too big''
           [Arg_nat (buffer_capacity rom)]) c_exit
     else
       res_bind (log_debugf lg ''machine'' ''rom size = %zu'' [Arg_nat (buffer_capacity rom)]) (\<lambda>_.
       res_bind (arr_copy (memory m) (unat MEMORY_PROGRAM_STARTING_ADDRESS)
           (replicate PROGRAM_MAX_SIZE 0)) (\<lambda>mem.
       res_bind (arr_copy mem (unat MEMORY_PROGRAM_STARTING_ADDRESS)
           (take (buffer_capacity rom) (buffer_bytes rom))) (\<lambda>mem.
       Inr (m\<lparr>memory := mem\<rparr>))))))"

definition read_opcode :: "u8 list \<Rightarrow> u16 \<Rightarrow> u16 res" where
  "read_opcode mem addr =
     res_bind (arr_get mem (unat addr)) (\<lambda>hi.
     res_bind (arr_get mem (unat addr + 1)) (\<lambda>lo.
     Inr (push_bit 8 (ucast hi) OR ucast lo)))"

definition machine_first_opcode :: "machine \<Rightarrow> u16 res" where
  "machine_first_opcode m =
     (let addr = MEMORY_PROGRAM_STARTING_ADDRESS in read_opcode (memory m) addr)"

text \<open>The loop of \<open>machine_disassemble\<close> returns what it prints and whether it met an
  unsupported opcode. It ends, because the address grows until it leaves memory.\<close>

lemma res_bind_cong [fundef_cong]:
  "r = r' \<Longrightarrow> (\<And>x. r' = Inr x \<Longrightarrow> f x = g x) \<Longrightarrow> res_bind r f = res_bind r' g"
  by (cases r') simp_all

lemma address_next: "unat (addr :: u16) < 4096 \<Longrightarrow> unat (addr + 2) = unat addr + 2"
  by (simp add: unat_word_ariths)

function disassemble_loop :: "u8 list \<Rightarrow> u16 \<Rightarrow> u16 \<Rightarrow> string \<Rightarrow> (string \<times> bool) res" where
  "disassemble_loop mem addr opcode out =
     (if opcode \<noteq> 0 \<and> unat addr < MEMORY_SIZE then
        let out = out @ address_fmt addr @ '': OPCODE['' @ opcode_fmt opcode @ '']: '';
            (txt, supported) = disassembler_disassemble opcode;
            out = out @ txt in
        if \<not> supported then Inr (out, True)
        else res_bind (read_opcode mem (addr + 2)) (\<lambda>opcode.
          disassemble_loop mem (addr + 2) opcode out)
      else Inr (out, False))"
  by pat_completeness auto
termination
  by (relation "measure (\<lambda>(mem, addr, opcode, out). MEMORY_SIZE + 2 - unat addr)")
    (auto simp: MEMORY_SIZE_def address_next)

declare disassemble_loop.simps [simp del]

definition machine_disassemble :: "machine \<Rightarrow> string res" where
  "machine_disassemble m =
     res_bind (machine_first_opcode m) (\<lambda>opcode.
     res_bind (disassemble_loop (memory m) MEMORY_PROGRAM_STARTING_ADDRESS opcode [])
       (\<lambda>(out, unsupported_opcode_found).
     if unsupported_opcode_found
     then c_exit ''error: some unsupported opcodes were found. disassembly failed.''
     else Inr out))"

datatype event = SDL_QUIT | SDL_KEYDOWN_ESCAPE | SDL_KEYDOWN_OTHER | Other_Event

record frame =
  events :: "event list"
  delay_ticks :: u64
  sound_ticks :: u64
  inputs :: env
  perf_start :: u64
  perf_end :: u64
  perf_freq :: u64

text \<open>\<open>True\<close> when an event leaves the main loop.\<close>

fun poll_events :: "event list \<Rightarrow> bool" where
  "poll_events [] = False"
| "poll_events (event # rest) =
     (case event of
        SDL_QUIT \<Rightarrow> True
      | SDL_KEYDOWN_ESCAPE \<Rightarrow> True
      | SDL_KEYDOWN_OTHER \<Rightarrow> poll_events rest
      | Other_Event \<Rightarrow> poll_events rest)"

text \<open>The clock control: the time the instruction took is compared with the ideal duration, in whole milliseconds, and the
  rest of it, truncated to milliseconds, is slept. With a frequency of zero the quotient is infinite or not a number, and
  the comparison fails.\<close>

definition clock_control :: "u32 \<Rightarrow> u64 \<Rightarrow> u64 \<Rightarrow> u64 \<Rightarrow> sdl_call list res" where
  "clock_control hz start_moment end_moment frequency =
     (let elapsed = unat (end_moment - start_moment) in
      if hz = 0 then Inl Division_By_Zero
      else
        let ideal_duration_ms = unat (1000 div hz) in
        if elapsed * 1000 < ideal_duration_ms * unat frequency then
          let sleep_duration_ms = (ideal_duration_ms * unat frequency - elapsed * 1000) div unat frequency in
          Inr [Delay (word_of_nat sleep_duration_ms)]
        else Inr [])"

text \<open>The part of an iteration after the events: timers, one instruction, clock control and
  rendering, with the calls to SDL.\<close>

definition machine_frame :: "u32 \<Rightarrow> frame \<Rightarrow> machine \<Rightarrow> (machine \<times> sdl_call list) res" where
  "machine_frame hz fr m =
     (let m = m\<lparr>delay_timer := timer_update (delay_ticks fr) (delay_timer m)\<rparr>;
          m = m\<lparr>sound_timer := timer_update (sound_ticks fr) (sound_timer m)\<rparr> in
      res_bind (cpu_step (inputs fr) m) (\<lambda>m.
      res_bind (clock_control hz (perf_start fr) (perf_end fr) (perf_freq fr)) (\<lambda>delay.
      res_bind (display_render (display m)) (\<lambda>calls.
      Inr (m, delay @ map Rendering calls @ display_render_flush)))))"

text \<open>The main loop on the frames that have been: \<open>True\<close> when it was left, \<open>False\<close> when it
  would go on with the next frame.\<close>

fun run_loop :: "u32 \<Rightarrow> frame list \<Rightarrow> machine \<Rightarrow> (machine \<times> bool \<times> sdl_call list) res" where
  "run_loop hz [] m = Inr (m, False, [])"
| "run_loop hz (fr # frs) m =
     (if poll_events (events fr) then Inr (m, True, [])
      else
        res_bind (machine_frame hz fr m) (\<lambda>(m, calls).
        res_bind (run_loop hz frs m) (\<lambda>(m, finished, calls').
        Inr (m, finished, calls @ calls'))))"

definition machine_run :: "u32 \<Rightarrow> u64 \<Rightarrow> u64 \<Rightarrow> frame list \<Rightarrow> machine \<Rightarrow> (machine \<times> bool \<times> sdl_call list) res" where
  "machine_run hz start_delay start_sound frs m =
     (let m = m\<lparr>delay_timer := timer_start start_delay (delay_timer m)\<rparr>;
          m = m\<lparr>sound_timer := timer_start start_sound (sound_timer m)\<rparr> in
      run_loop hz frs m)"

definition machine_free :: "machine \<Rightarrow> sdl_call list" where
  "machine_free m = display_free"

section \<open>The disassembler and the processor\<close>

lemma disassembler_supports_iff: "snd (disassembler_disassemble w) \<longleftrightarrow> decode w \<noteq> None"
proof -
  have "unat w div 4096 < 16" by simp
  then show ?thesis
    by (cases rule: digit_cases)
      (simp_all add: disassembler_disassemble_def decode_def Let_def opcode_mask_iff
        decode_by_digit decode_alu_def decode_misc_def)
qed

text \<open>C6: The disassembler and the processor agree on which opcodes exist: on every well-formed
  machine the disassembler rejects an opcode exactly when executing it ends the program with
  the message that the opcode is unsupported.\<close>

theorem disassembler_agrees_with_cpu:
  assumes "machine_wf m"
  shows "\<not> snd (disassembler_disassemble w) \<longleftrightarrow>
    cpu_decode_and_exec_opcode en w m =
      Inl (Exit_Failure (''unsupported opcode. opcode='' @ opcode_fmt w))"
proof -
  have "\<not> exits (Exit_Failure (''unsupported opcode. opcode='' @ opcode_fmt w))"
    by (simp add: exits_def)
  then show ?thesis
    using cpu_exec_wp [OF assms, of en w]
    by (cases "decode w") (auto simp: disassembler_supports_iff cpu_exec_by_decode c_exit_def)
qed

text \<open>\<open>8008\<close> is no instruction.\<close>

theorem disassembler_agrees_with_cpu_witness:
  "\<not> snd (disassembler_disassemble 0x8008) \<and>
   cpu_decode_and_exec_opcode \<lparr>keyboard = \<lambda>_. 0, rand_value = 7\<rparr> 0x8008 (power_on (replicate 4096 0)) =
     Inl (Exit_Failure (''unsupported opcode. opcode='' @ opcode_fmt 0x8008))"
proof -
  have "\<not> snd (disassembler_disassemble 0x8008)"
    by (simp add: disassembler_supports_iff decode_def Let_def decode_alu_def)
  then show ?thesis
    using disassembler_agrees_with_cpu [of "power_on (replicate 4096 0)" "0x8008"] by simp
qed

section \<open>Disassembling a program\<close>

lemma read_opcode_ok:
  "unat addr + 1 < length mem \<Longrightarrow> read_opcode mem addr = Inr (opcode_at mem (unat addr))"
  by (simp add: read_opcode_def opcode_at_def big_endian)

lemma read_opcode_oob: "unat addr = length mem \<Longrightarrow> read_opcode mem addr = Inl Out_Of_Bounds"
  by (simp add: read_opcode_def arr_get_def)

text \<open>The opcode of index \<open>k\<close> in the program, the line printed for it, and whether the
  disassembly stops there.\<close>

definition program_opcode :: "u8 list \<Rightarrow> nat \<Rightarrow> u16" where
  "program_opcode mem k = opcode_at mem (512 + 2 * k)"

definition program_line :: "u8 list \<Rightarrow> nat \<Rightarrow> string" where
  "program_line mem k =
     address_fmt (word_of_nat (512 + 2 * k)) @ '': OPCODE['' @ opcode_fmt (program_opcode mem k) @ '']: '' @
     fst (disassembler_disassemble (program_opcode mem k))"

definition program_stops :: "u8 list \<Rightarrow> nat \<Rightarrow> bool" where
  "program_stops mem k \<longleftrightarrow> program_opcode mem k = 0 \<or> decode (program_opcode mem k) = None"

lemma disassemble_loop_spec:
  assumes "length mem = 4096"
  shows "k < 1792 \<Longrightarrow>
    disassemble_loop mem (word_of_nat (512 + 2 * k)) (program_opcode mem k) out =
      (case find (program_stops mem) [k..<1792] of
         None \<Rightarrow> Inl Out_Of_Bounds
       | Some j \<Rightarrow>
           Inr (out @ concat (map (program_line mem) [k..<j]) @
                  (if program_opcode mem j = 0 then [] else program_line mem j),
                program_opcode mem j \<noteq> 0))"
proof (induction "1792 - k" arbitrary: k out rule: less_induct)
  case less
  have addr: "unat (word_of_nat (512 + 2 * k) :: u16) = 512 + 2 * k"
    using less.prems by (intro unat_word_of_nat_u16) simp
  have "(word_of_nat (512 + 2 * k) :: u16) + 2 = word_of_nat (512 + 2 * k + 2)"
    by (simp only: of_nat_add of_nat_numeral)
  then have addr_next: "(word_of_nat (512 + 2 * k) :: u16) + 2 = word_of_nat (512 + 2 * Suc k)"
    by (simp only: mult_Suc_right add.assoc add.commute [of 2])
  have unat_next: "unat (word_of_nat (512 + 2 * Suc k) :: u16) = 512 + 2 * Suc k"
    using less.prems by (intro unat_word_of_nat_u16) simp
  have upt: "[k..<1792] = k # [Suc k..<1792]"
    using less.prems by (simp add: upt_conv_Cons)
  define w where "w = program_opcode mem k"
  have step: "disassemble_loop mem (word_of_nat (512 + 2 * k)) w out =
      (if w = 0 then Inr (out, False)
       else if decode w = None then Inr (out @ program_line mem k, True)
       else res_bind (read_opcode mem (word_of_nat (512 + 2 * Suc k)))
         (\<lambda>w'. disassemble_loop mem (word_of_nat (512 + 2 * Suc k)) w' (out @ program_line mem k)))"
    using less.prems
    by (subst disassemble_loop.simps)
      (auto simp only: addr addr_next program_line_def w_def MEMORY_SIZE_def Let_def split_beta
        disassembler_supports_iff append_assoc simp_thms split: if_splits)
  consider (stop) "program_stops mem k" | (last) "\<not> program_stops mem k" "Suc k = 1792"
    | (go) "\<not> program_stops mem k" "Suc k < 1792"
    using less.prems by linarith
  then show ?case
  proof cases
    case stop
    then show ?thesis
      unfolding upt w_def [symmetric] step by (auto simp: program_stops_def w_def)
  next
    case last
    then have "read_opcode mem (word_of_nat (512 + 2 * Suc k)) = Inl Out_Of_Bounds"
      using assms unat_next by (intro read_opcode_oob) simp
    with last show ?thesis
      unfolding upt w_def [symmetric] step by (simp add: program_stops_def w_def)
  next
    case go
    then have "read_opcode mem (word_of_nat (512 + 2 * Suc k)) = Inr (program_opcode mem (Suc k))"
      using assms unat_next unfolding program_opcode_def by (subst read_opcode_ok) simp_all
    moreover have "[k..<j] = k # [Suc k..<j]" if "find (program_stops mem) [Suc k..<1792] = Some j" for j
    proof -
      from that have "j \<in> set [Suc k..<1792]"
        by (auto simp: find_Some_iff in_set_conv_nth)
      then show ?thesis by (simp add: upt_conv_Cons)
    qed
    ultimately show ?thesis
      using go less.hyps [of "Suc k" "out @ program_line mem k"]
      unfolding upt w_def [symmetric] step
      by (auto simp: program_stops_def w_def split: option.splits)
  qed
qed

lemma machine_disassemble_eq:
  assumes "length (memory m) = 4096"
  shows "machine_disassemble m =
    (case find (program_stops (memory m)) [0..<1792] of
       None \<Rightarrow> Inl Out_Of_Bounds
     | Some n \<Rightarrow>
         if program_opcode (memory m) n = 0
         then Inr (concat (map (program_line (memory m)) [0..<n]))
         else Inl (Exit_Failure
                ''error: some unsupported opcodes were found. disassembly failed.''))"
proof -
  have "machine_first_opcode m = Inr (program_opcode (memory m) 0)"
    using assms
    by (simp add: machine_first_opcode_def Let_def read_opcode_ok program_opcode_def
        MEMORY_PROGRAM_STARTING_ADDRESS_def)
  then show ?thesis
    using disassemble_loop_spec [OF assms, of 0 "[]"]
    by (auto simp: machine_disassemble_def MEMORY_PROGRAM_STARTING_ADDRESS_def c_exit_def
        simp del: upt_Suc split: option.splits)
qed

text \<open>C7: What \<open>machine_disassemble\<close> does with any program, on memory of the right size. It
  always ends. It prints one line for each opcode of the program up to the first that is zero,
  and succeeds; it fails with a message if an unsupported opcode comes first; and if the
  opcodes fill the memory to its end, it reads past the end.\<close>

theorem machine_disassemble_spec:
  assumes "length (memory m) = 4096"
  shows "machine_disassemble m =
    (case find (program_stops (memory m)) [0..<1792] of
       None \<Rightarrow> Inl Out_Of_Bounds
     | Some n \<Rightarrow>
         if program_opcode (memory m) n = 0
         then Inr (concat (map (program_line (memory m)) [0..<n]))
         else Inl (Exit_Failure
                ''error: some unsupported opcodes were found. disassembly failed.''))"
  using assms by (rule machine_disassemble_eq)

text \<open>A program of one instruction, which clears the screen.\<close>

theorem machine_disassemble_spec_witness:
  "machine_disassemble (power_on ((replicate 4096 0)[513 := 0xE0])) =
     Inr (''0x0200: OPCODE[0x00E0]: Clear the screen\<newline>'')"
proof -
  let ?mem = "(replicate 4096 0)[513 := 0xE0] :: u8 list"
  have ops: "program_opcode ?mem 0 = 0x00E0" "program_opcode ?mem 1 = 0"
    by (simp_all add: program_opcode_def opcode_at_def)
  have mem: "memory (power_on ?mem) = ?mem" and len: "length (memory (power_on ?mem)) = 4096"
    by (simp_all add: power_on_def)
  have "(0 :: nat) < 1792" "Suc 0 < 1792" by simp_all
  then obtain rest where upt: "[0..<1792] = 0 # Suc 0 # rest"
    by (metis upt_conv_Cons)
  have find: "find (program_stops ?mem) [0..<1792] = Some 1"
    unfolding upt using ops by (simp add: program_stops_def decode_def Let_def)
  have line: "program_line ?mem 0 = ''0x0200: OPCODE[0x00E0]: Clear the screen\<newline>''"
    unfolding program_line_def ops
    by (simp add: address_fmt_def opcode_fmt_def fmt_04X_def hex_digit_def Let_def
        disassembler_disassemble_def disassemble_display_clear_def)
  show ?thesis
    unfolding machine_disassemble_spec [OF len] mem find by (simp add: ops(2) [simplified] line)
qed

section \<open>Starting and loading\<close>

lemma machine_init_wp:
  assumes "length (memory m) = 4096"
  shows "wp (machine_init sdl_init_ok create_ok m)
    (\<lambda>m'. sdl_init_ok \<and> create_ok \<and>
       m' = power_on (font_sprites @ replicate 4016 0)\<lparr>trace := trace m\<rparr>)
    (\<lambda>e. \<exists>msg. e = Exit_Failure msg)"
  using assms
  by (auto simp: machine_init_def memory_init_eq display_init_def init_sdl_def wp_simps Let_def
      MEMORY_SIZE_def power_on_def display_clear_def)

lemma program_sizes: "PROGRAM_MAX_SIZE = 3584" "unat MEMORY_PROGRAM_STARTING_ADDRESS = 512"
  by (simp_all add: PROGRAM_MAX_SIZE_def MEMORY_SIZE_def MEMORY_PROGRAM_STARTING_ADDRESS_def)

text \<open>The memory after a program has been loaded.\<close>

definition loaded :: "u8 list \<Rightarrow> machine \<Rightarrow> machine" where
  "loaded rom m =
     m\<lparr>memory := take 512 (memory m) @ rom @ replicate (3584 - length rom) 0\<rparr>"

text \<open>The formats of \<open>machine_load_rom\<close>.\<close>

lemma machine_formats:
  "c_printf ''loading rom \"%s\"'' [Arg_str path] = Inr (''loading rom \"'' @ path @ ''\"'')"
  "c_printf ''failed to load program rom: program size (%zu) is too big'' [Arg_nat n] =
     Inr (''failed to load program rom: program size ('' @ fmt_u n @ '') is too big'')"
  "c_printf ''rom size = %zu'' [Arg_nat n] = Inr (''rom size = '' @ fmt_u n)"
  by (simp_all add: printf_simps del: fmt_u.simps)

lemmas wp_machine_log = machine_formats [THEN wp_log(1)] machine_formats [THEN wp_log(2)] machine_formats [THEN wp_log(4)]

lemma machine_load_rom_wp:
  assumes "length (memory m) = 4096"
  shows "wp (machine_load_rom lg os m path)
    (\<lambda>m'. let rom = (case open_file os path of None \<Rightarrow> [] | Some f \<Rightarrow> file_bytes f) in
       length rom \<le> 3584 \<and> m' = loaded rom m)
    (\<lambda>e. e = Assert_Failure \<or> (\<exists>msg. e = Exit_Failure msg))"
  unfolding machine_load_rom_def wp_bind
  using assms
  by (intro wp_machine_log wp_mono [OF file_read_contents_wp])
    (auto simp: wp_simps program_sizes loaded_def min_absorb2 not_less drop_append Let_def intro!: wp_machine_log
      split: option.splits)

lemma loaded_wf: "machine_wf m \<Longrightarrow> length rom \<le> 3584 \<Longrightarrow> machine_wf (loaded rom m)"
  by (simp add: loaded_def machine_wf_memory machine_wf_sizes)

text \<open>Loading, when the system reads the file and the log records fit.\<close>

definition rom_readable :: "log_env \<Rightarrow> os \<Rightarrow> string \<Rightarrow> bool" where
  "rom_readable lg os path \<longleftrightarrow>
     (case open_file os path of
        None \<Rightarrow> True
      | Some f \<Rightarrow> seek_ok f \<and> calloc_ok os (length (file_bytes f)) \<and> length (file_bytes f) \<le> read_limit f \<and>
          length (file_bytes f) < 2 ^ 64) \<and>
     tm_ok (local_time lg) \<and> length path + length (strerror_errno os) \<le> 900"

definition rom_bytes :: "os \<Rightarrow> string \<Rightarrow> u8 list" where
  "rom_bytes os path = (case open_file os path of None \<Rightarrow> [] | Some f \<Rightarrow> file_bytes f)"

lemma rom_buffer:
  assumes "rom_readable lg os path"
  obtains b where "file_read_contents lg os path = Inr b" "buffer_wf b" "buffer_bytes b = rom_bytes os path"
    "buffer_capacity b = length (rom_bytes os path)"
proof (cases "open_file os path")
  case None
  have "file_read_contents lg os path = Inr buffer_empty"
    using assms by (intro file_read_contents_none [OF None]) (auto simp: rom_readable_def)
  then show thesis
    by (rule that) (simp_all add: buffer_wf_def buffer_bytes_def buffer_empty_def rom_bytes_def None)
next
  case (Some f)
  obtain b where b: "file_read_contents lg os path = Inr b" "buffer_wf b" "buffer_bytes b = file_bytes f"
    by (rule file_read_contents_ok [OF Some, of lg]) (use assms Some in \<open>auto simp: rom_readable_def\<close>)
  with buffer_bytes_length [OF b(2)] show thesis by (intro that) (simp_all add: rom_bytes_def Some)
qed

lemma rom_size_text: "rom_readable lg os path \<Longrightarrow> length (fmt_u (length (rom_bytes os path))) \<le> 20"
  by (intro fmt_u_length) (auto simp: rom_readable_def rom_bytes_def split: option.splits)

lemma load_log:
  assumes "rom_readable lg os path"
  shows "res_bind (log_infof lg ''machine'' ''loading rom \"%s\"'' [Arg_str path]) (\<lambda>_. k) = k"
    and "res_bind (log_debugf lg ''machine'' ''rom size = %zu'' [Arg_nat (length (rom_bytes os path))]) (\<lambda>_. k) = k"
    and "\<exists>txt. log_errorf lg ''machine'' ''failed to load program rom: program size (%zu) is too big''
      [Arg_nat (length (rom_bytes os path))] = Inr txt"
proof -
  have tm: "tm_ok (local_time lg)" "length path \<le> 900" using assms by (simp_all add: rom_readable_def)
  show "res_bind (log_infof lg ''machine'' ''loading rom \"%s\"'' [Arg_str path]) (\<lambda>_. k) = k"
    using tm(2) by (intro log_then(2) [OF tm(1) machine_formats(1)]) simp
  show "res_bind (log_debugf lg ''machine'' ''rom size = %zu'' [Arg_nat (length (rom_bytes os path))]) (\<lambda>_. k) = k"
    using rom_size_text [OF assms] by (intro log_then(1) [OF tm(1) machine_formats(3)]) (simp del: fmt_u.simps)
  show "\<exists>txt. log_errorf lg ''machine'' ''failed to load program rom: program size (%zu) is too big''
      [Arg_nat (length (rom_bytes os path))] = Inr txt"
    unfolding log_errorf_def
    by (rule log_log_returns [OF tm(1), where m = "''failed to load program rom: program size ('' @
          fmt_u (length (rom_bytes os path)) @ '') is too big''"])
      (use rom_size_text [OF assms] in \<open>simp_all add: machine_formats del: fmt_u.simps\<close>)
qed

lemma machine_load_rom_eq:
  assumes "length (memory m) = 4096" and "rom_readable lg os path" and "length (rom_bytes os path) \<le> 3584"
  shows "machine_load_rom lg os m path = Inr (loaded (rom_bytes os path) m)"
proof -
  obtain b where b: "file_read_contents lg os path = Inr b" "buffer_bytes b = rom_bytes os path"
    "buffer_capacity b = length (rom_bytes os path)"
    using rom_buffer [OF assms(2)] by blast
  then show ?thesis
    using assms(1,3)
    by (simp add: machine_load_rom_def load_log [OF assms(2)] program_sizes arr_copy_def loaded_def min_absorb2
        drop_append)
qed

text \<open>C8: Loading a ROM puts its bytes at the program address, clears the rest of the program
  area and leaves the area below it, with the font, untouched. A file that cannot be opened
  is loaded as an empty program; a ROM of more than 3584 bytes ends the program. The path and the error text of the
  system must leave room in the buffer of the logger.\<close>

theorem machine_load_rom_spec:
  assumes "length (memory m) = 4096" and "tm_ok (local_time lg)" and "length path + length (strerror_errno os) \<le> 900"
    and "\<And>f. open_file os path = Some f \<Longrightarrow>
      seek_ok f \<and> calloc_ok os (length (file_bytes f)) \<and> length (file_bytes f) \<le> read_limit f \<and>
      length (file_bytes f) < 2 ^ 64"
  defines "rom \<equiv> (case open_file os path of None \<Rightarrow> [] | Some f \<Rightarrow> file_bytes f)"
  shows "if length rom \<le> 3584 then
      \<exists>m'. machine_load_rom lg os m path = Inr m' \<and> length (memory m') = 4096 \<and>
        take 512 (memory m') = take 512 (memory m) \<and>
        take (length rom) (drop 512 (memory m')) = rom \<and>
        (\<forall>k<4096. 512 + length rom \<le> k \<longrightarrow> memory m' ! k = 0) \<and>
        m' = m\<lparr>memory := memory m'\<rparr>
    else (\<exists>msg. machine_load_rom lg os m path = Inl (Exit_Failure msg))"
proof -
  have ok: "rom_readable lg os path" and rom: "rom_bytes os path = rom"
    using assms by (auto simp: rom_readable_def rom_bytes_def split: option.splits)
  show ?thesis
  proof (cases "length rom \<le> 3584")
    case True
    then show ?thesis
      using machine_load_rom_eq [OF assms(1) ok] assms(1) by (auto simp: rom loaded_def nth_append)
  next
    case False
    obtain b where b: "file_read_contents lg os path = Inr b" "buffer_capacity b = length rom"
      using rom_buffer [OF ok] rom by auto
    then show ?thesis
      using False load_log(3) [OF ok]
      by (auto simp: machine_load_rom_def load_log(1) [OF ok] program_sizes c_exit_def rom)
  qed
qed

theorem machine_load_rom_spec_witness:
  "\<exists>m'. machine_load_rom quiet \<lparr>open_file = \<lambda>p. Some \<lparr>file_bytes = [0x12, 0x00], seek_ok = True, read_limit = 2\<rparr>,
        calloc_ok = \<lambda>n. True, strerror_errno = []\<rparr> (power_on (replicate 4096 7)) ''loop.rom'' = Inr m' \<and>
      take 2 (drop 512 (memory m')) = [0x12, 0x00]"
  using machine_load_rom_spec [of "power_on (replicate 4096 7)" quiet "''loop.rom''"
      "\<lparr>open_file = \<lambda>p. Some \<lparr>file_bytes = [0x12, 0x00], seek_ok = True, read_limit = 2\<rparr>,
        calloc_ok = \<lambda>n. True, strerror_errno = []\<rparr>"]
  by (simp add: power_on_def) (auto simp: numeral_2_eq_2)

text \<open>A ROM cannot be loaded from a path of 936 characters or more at the default log level: the record that names it
  does not fit the buffer of the logger, whose assertion stops the program.\<close>

lemma long_rom_path_aborts:
  assumes "tm_ok (local_time lg)" and "cfg_log_level (log_config lg) \<le> LOG_LEVEL_INFO"
  shows "log_infof lg ''machine'' ''loading rom \"%s\"'' [Arg_str path] = Inl Assert_Failure \<longleftrightarrow> 936 \<le> length path"
    and "936 \<le> length path \<Longrightarrow> machine_load_rom lg os m path = Inl Assert_Failure"
  using assms
  by (auto simp: machine_load_rom_def log_infof_def machine_formats
      log_log_spec [where m = "''loading rom \"'' @ path @ ''\"''"] log_text_length not_less)

section \<open>Running\<close>

lemma cpu_step_wp: "machine_wf m \<Longrightarrow> wp (cpu_step en m) machine_wf (\<lambda>e. step_fault m = Some e)"
  by (rule wp_mono [OF step_outcome]) auto

lemma step_fault_cong:
  assumes "cpu m' = cpu m" and "memory m' = memory m"
  shows "step_fault m' = step_fault m"
proof -
  have "instr_fault i m' = instr_fault i m" for i
    by (rule instr_fault_cong [where a = "pc (cpu m)"]) (simp add: assms(1))
  then show ?thesis by (simp add: step_fault_def assms Let_def split: option.split)
qed

lemma step_fault_timers [simp]:
  "step_fault (m\<lparr>delay_timer := d, sound_timer := s\<rparr>) = step_fault m"
  "step_fault (m\<lparr>delay_timer := d\<rparr>) = step_fault m" "step_fault (m\<lparr>sound_timer := s\<rparr>) = step_fault m"
  by (rule step_fault_cong; simp)+

text \<open>A frame fails exactly as its instruction does.\<close>

lemma machine_frame_outcome:
  assumes "machine_wf m" and "hz \<noteq> 0"
  shows "wp (machine_frame hz fr m) (\<lambda>(m', calls). machine_wf m' \<and> step_fault m = None) (\<lambda>e. step_fault m = Some e)"
  using assms
  by (auto simp: machine_frame_def Let_def wp_simps clock_control_def display_render_ok
      machine_wf_sizes intro!: wp_mono [OF step_outcome])

text \<open>The frames as a transition system; \<open>machine_wf\<close> holds in every state that the emulator
  reaches.\<close>

definition booted :: "machine \<Rightarrow> bool" where
  "booted m \<longleftrightarrow> (\<exists>m0 lg os path m1. length (memory m0) = 4096 \<and> machine_init True True m0 = Inr m1 \<and>
     machine_load_rom lg os m1 path = Inr m)"

definition frame_step :: "u32 \<times> frame \<Rightarrow> machine \<Rightarrow> machine res" where
  "frame_step = (\<lambda>(hz, fr) m. res_bind (machine_frame hz fr m) (\<lambda>(m', calls). Inr m'))"

lemma power_on_trace_wf [simp]: "machine_wf (power_on mem\<lparr>trace := t\<rparr>) \<longleftrightarrow> length mem = 4096"
  by simp

lemma booted_wf: "booted m \<Longrightarrow> machine_wf m"
proof -
  assume "booted m"
  then obtain m0 lg os path m1 where m0: "length (memory m0) = 4096" "machine_init True True m0 = Inr m1"
      "machine_load_rom lg os m1 path = Inr m"
    by (auto simp: booted_def)
  then have wf: "machine_wf m1"
    using machine_init_wp [OF m0(1), of True True] by (simp del: machine_wf_updates)
  then have "length (memory m1) = 4096" by (simp add: machine_wf_sizes)
  from machine_load_rom_wp [OF this, of lg os path] m0(3) wf show ?thesis
    by (simp add: loaded_wf Let_def)
qed

lemma frame_step_wf: "machine_wf m \<Longrightarrow> frame_step i m = Inr m' \<Longrightarrow> machine_wf m'"
proof -
  assume wf: "machine_wf m" and step: "frame_step i m = Inr m'"
  obtain hz fr where i: "i = (hz, fr)" by (cases i)
  have "hz \<noteq> 0"
    using step i by (auto simp: frame_step_def machine_frame_def clock_control_def res_bind_Inr_iff
        Let_def split: if_splits)
  then show "machine_wf m'"
    using machine_frame_outcome [OF wf, of hz fr] step i by (auto simp: frame_step_def res_bind_Inr_iff)
qed

interpretation emulator: transition_system booted frame_step machine_wf
  by unfold_locales (auto intro: booted_wf frame_step_wf)

text \<open>The first frame that fails.\<close>

lemma fails_at_first:
  assumes "\<And>m1 cs. R [] m1 cs \<longleftrightarrow> m1 = m \<and> cs = c"
  shows "(\<exists>frs1 fr' frs2 m1 cs. fr # frs = frs1 @ fr' # frs2 \<and> R frs1 m1 cs \<and> P fr' \<and> Q m1) \<longleftrightarrow>
    P fr \<and> Q m \<or> (\<exists>frs1 fr' frs2 m1 cs. frs = frs1 @ fr' # frs2 \<and> R (fr # frs1) m1 cs \<and> P fr' \<and> Q m1)"
  (is "?L \<longleftrightarrow> ?R")
proof
  assume ?L
  then obtain frs1 fr' frs2 m1 cs where l: "fr # frs = frs1 @ fr' # frs2" "R frs1 m1 cs" "P fr'" "Q m1" by blast
  then show ?R by (cases frs1) (auto simp: assms)
next
  assume ?R
  then show ?L by (metis append_Cons append_Nil assms)
qed

lemma run_loop_Inl_iff:
  assumes "hz \<noteq> 0"
  shows "machine_wf m \<Longrightarrow> run_loop hz frs m = Inl e \<longleftrightarrow>
    (\<exists>frs1 fr frs2 m1 cs. frs = frs1 @ fr # frs2 \<and> run_loop hz frs1 m = Inr (m1, False, cs) \<and>
       \<not> poll_events (events fr) \<and> step_fault m1 = Some e)"
proof (induction frs arbitrary: m)
  case (Cons fr frs)
  have split: "(\<exists>frs1 fr' frs2 m1 cs. fr # frs = frs1 @ fr' # frs2 \<and> run_loop hz frs1 m = Inr (m1, False, cs) \<and>
        \<not> poll_events (events fr') \<and> step_fault m1 = Some e) \<longleftrightarrow>
      \<not> poll_events (events fr) \<and> step_fault m = Some e \<or>
      (\<exists>frs1 fr' frs2 m1 cs. frs = frs1 @ fr' # frs2 \<and> run_loop hz (fr # frs1) m = Inr (m1, False, cs) \<and>
        \<not> poll_events (events fr') \<and> step_fault m1 = Some e)"
    by (rule fails_at_first [where c = "[]"]) auto
  show ?case
  proof (cases "poll_events (events fr)")
    case True
    then show ?thesis unfolding split by simp
  next
    case go: False
    note frame = machine_frame_outcome [OF Cons.prems assms, of fr]
    show ?thesis
    proof (cases "machine_frame hz fr m")
      case (Inl e')
      with frame go show ?thesis unfolding split by auto
    next
      case (Inr r)
      then obtain m' cs' where r: "machine_frame hz fr m = Inr (m', cs')" by (cases r) auto
      with frame have ok: "machine_wf m'" "step_fault m = None" by simp_all
      have "run_loop hz (fr # frs1) m = Inr (m1, False, cs) \<longleftrightarrow>
          (\<exists>cs''. run_loop hz frs1 m' = Inr (m1, False, cs'') \<and> cs = cs' @ cs'')" for frs1 m1 cs
        using go r by (auto simp: res_bind_Inr_iff)
      moreover have "run_loop hz (fr # frs) m = Inl e \<longleftrightarrow> run_loop hz frs m' = Inl e"
        using go r by (cases "run_loop hz frs m'") auto
      ultimately show ?thesis unfolding split using Cons.IH [OF ok(1)] ok(2) by (simp del: run_loop.simps(2))
    qed
  qed
qed simp

lemma run_loop_Inr:
  assumes "hz \<noteq> 0"
  shows "machine_wf m \<Longrightarrow> run_loop hz frs m = Inr (m', finished, cs) \<Longrightarrow>
    machine_wf m' \<and> (finished \<longleftrightarrow> list_ex (\<lambda>fr. poll_events (events fr)) frs)"
proof (induction frs arbitrary: m cs)
  case (Cons fr frs)
  show ?case
  proof (cases "poll_events (events fr)")
    case False
    with Cons.prems(2) obtain m1 cs1 cs2 where "machine_frame hz fr m = Inr (m1, cs1)"
        "run_loop hz frs m1 = Inr (m', finished, cs2)"
      by (auto simp: res_bind_Inr_iff)
    with Cons.IH [of m1 cs2] machine_frame_outcome [OF Cons.prems(1) assms, of fr] False show ?thesis by simp
  qed (use Cons.prems in simp)
qed simp

text \<open>C11: When and how the emulator stops. From a machine that has been started and has loaded its ROM, at a clock
  speed other than zero and on any sequence of frames: the main loop fails with a fault exactly if, after some of the
  frames, in the next one that does not leave the loop, the instruction at the program counter has this fault, as \<open>step_fault\<close> lists
  them; updating the timers, the clock control and the rendering never fail. Otherwise it returns a well-formed machine, and it has been left exactly if one of the
  frames has an event to do so.\<close>

theorem emulator_stops_iff:
  assumes "booted m" and "hz \<noteq> 0"
  shows "(\<forall>e. machine_run hz t t' frs m = Inl e \<longleftrightarrow>
      (\<exists>frs1 fr frs2 m1 cs. frs = frs1 @ fr # frs2 \<and> machine_run hz t t' frs1 m = Inr (m1, False, cs) \<and>
         \<not> poll_events (events fr) \<and> step_fault m1 = Some e)) \<and>
    (\<forall>m' finished cs. machine_run hz t t' frs m = Inr (m', finished, cs) \<longrightarrow>
      machine_wf m' \<and> (finished \<longleftrightarrow> list_ex (\<lambda>fr. poll_events (events fr)) frs))"
proof -
  let ?m = "m\<lparr>delay_timer := timer_start t (delay_timer m), sound_timer := timer_start t' (sound_timer m)\<rparr>"
  have wf: "machine_wf ?m" using booted_wf [OF assms(1)] by simp
  have run: "machine_run hz t t' frs m = run_loop hz frs ?m" for frs by (simp add: machine_run_def Let_def)
  show ?thesis
    unfolding run using run_loop_Inl_iff [OF assms(2) wf] run_loop_Inr [OF assms(2) wf] by blast
qed

lemma boots_without_rom:
  "\<exists>m. booted m \<and> pc (cpu m) = 512 \<and> memory m ! 512 = 0 \<and> memory m ! 513 = 0"
proof -
  let ?m0 = "power_on (replicate 4096 7)" and ?os = "\<lparr>open_file = \<lambda>p. None, calloc_ok = \<lambda>n. True, strerror_errno = ''No such file''\<rparr>"
  let ?m1 = "power_on (font_sprites @ replicate 4016 0)\<lparr>trace := trace ?m0\<rparr>"
  have len: "length (memory ?m0) = 4096" by (simp add: power_on_def)
  then have m1: "machine_init True True ?m0 = Inr ?m1"
    by (simp add: machine_init_def memory_init_eq display_init_def init_sdl_def Let_def
        MEMORY_SIZE_def power_on_def display_clear_def)
  moreover have "machine_load_rom quiet ?os ?m1 ''none'' = Inr (loaded [] ?m1)"
    by (simp add: machine_load_rom_eq rom_readable_def rom_bytes_def power_on_def)
  ultimately have "booted (loaded [] ?m1)" unfolding booted_def using len by blast
  moreover have "pc (cpu (loaded [] ?m1)) = 512"
    by (simp add: loaded_def power_on_def cpu_init_def MEMORY_PROGRAM_STARTING_ADDRESS_def)
  moreover have "memory (loaded [] ?m1) ! 512 = 0" "memory (loaded [] ?m1) ! 513 = 0"
    by (simp_all add: loaded_def power_on_def nth_append)
  ultimately show ?thesis by blast
qed

text \<open>Without a ROM the memory is zero: the first frame fails the assertion on the opcode.\<close>

theorem emulator_stops_iff_witness:
  "\<exists>m. booted m \<and> machine_run 600 0 0 [\<lparr>events = [], delay_ticks = 0, sound_ticks = 0,
     inputs = \<lparr>keyboard = \<lambda>_. 0, rand_value = 7\<rparr>, perf_start = 0, perf_end = 0, perf_freq = 1\<rparr>] m = Inl Assert_Failure"
proof -
  let ?fr = "\<lparr>events = [], delay_ticks = 0, sound_ticks = 0,
     inputs = \<lparr>keyboard = \<lambda>_. 0, rand_value = 7\<rparr>, perf_start = 0, perf_end = 0, perf_freq = 1\<rparr>"
  obtain m where m: "booted m" "pc (cpu m) = 512" "memory m ! 512 = 0" "memory m ! 513 = 0"
    using boots_without_rom by blast
  let ?m = "m\<lparr>delay_timer := timer_start 0 (delay_timer m), sound_timer := timer_start 0 (sound_timer m)\<rparr>"
  have "machine_run 600 0 0 [] m = Inr (?m, False, [])" by (simp add: machine_run_def Let_def)
  moreover have "step_fault ?m = Some Assert_Failure" using m by (simp add: step_fault_def opcode_at_def Let_def)
  moreover have "[?fr] = [] @ ?fr # []" "\<not> poll_events (events ?fr)" by simp_all
  ultimately have "\<exists>frs1 fr frs2 m1 cs. [?fr] = frs1 @ fr # frs2 \<and> machine_run 600 0 0 frs1 m = Inr (m1, False, cs) \<and>
      \<not> poll_events (events fr) \<and> step_fault m1 = Some Assert_Failure"
    by (intro exI conjI)
  then have "machine_run 600 0 0 [?fr] m = Inl Assert_Failure"
    by (rule emulator_stops_iff [OF m(1), THEN conjunct1, THEN spec, THEN iffD2, rotated]) simp
  with m(1) show ?thesis by blast
qed

section \<open>What a frame shows, and how long it takes\<close>

text \<open>The drawing calls among the calls to SDL.\<close>

fun drawings :: "sdl_call list \<Rightarrow> render_call list" where
  "drawings [] = []"
| "drawings (Rendering c # cs) = c # drawings cs"
| "drawings (_ # cs) = drawings cs"

lemma drawings_append [simp]: "drawings (cs @ cs') = drawings cs @ drawings cs'"
  by (induction cs rule: drawings.induct) auto

lemma drawings_Rendering [simp]: "drawings (map Rendering cs) = cs"
  by (induction cs) auto

lemma drawings_delay: "clock_control hz s e f = Inr cs \<Longrightarrow> drawings cs = []"
  by (auto simp: clock_control_def Let_def split: if_splits)

text \<open>C9: What the player sees is the state of the machine: in every frame that completes, the window is presented once, at
  the end, and by then every one of its pixels has the colour of the pixel of the screen buffer after the instruction of that
  frame.\<close>

theorem frame_shows_display:
  assumes "machine_wf m" and "machine_frame hz fr m = Inr (m', cs)"
  shows "\<exists>before. cs = before @ [RenderPresent] \<and> RenderPresent \<notin> set before \<and>
    (\<forall>x<640. \<forall>y<320. paint (drawings before) colour window x y =
       (if px (display m') (x div 10) (y div 10) then (255, 255, 255) else (0, 0, 0)))"
proof -
  obtain delay rs where cs: "cs = delay @ map Rendering rs @ [RenderPresent]"
    and delay: "clock_control hz (perf_start fr) (perf_end fr) (perf_freq fr) = Inr delay"
    and rs: "display_render (display m') = Inr rs"
    using assms(2) by (auto simp: machine_frame_def Let_def res_bind_Inr_iff display_render_flush_def)
  have "hz \<noteq> 0" using delay by (auto simp: clock_control_def)
  then have "machine_wf m'"
    using machine_frame_outcome [OF assms(1), of hz fr] assms(2) by simp
  then have wf: "display_wf (display m')" by (simp add: machine_wf_sizes)
  have "RenderPresent \<notin> set (delay @ map Rendering rs)"
    using delay by (auto simp: clock_control_def Let_def split: if_splits)
  then show ?thesis
    using display_render_shows_screen [OF wf, of colour window] rs drawings_delay [OF delay]
    by (intro exI [of _ "delay @ map Rendering rs"]) (simp add: cs)
qed

text \<open>C13: The clock control bounds the time of a frame. When an instruction takes less than the ideal duration, the work and the
  delay together last at most that long, and more than one millisecond less; otherwise nothing is slept. The ideal duration is the
  whole number of milliseconds in a period, so that at the default speed of 600 Hz it is one millisecond, and above 1000 Hz
  nothing is ever slept.\<close>

theorem clock_control_paces:
  fixes hz :: u32 and start_moment end_moment freq :: u64
  assumes "hz \<noteq> 0" and "freq \<noteq> 0"
  defines "elapsed \<equiv> unat (end_moment - start_moment)" and "ideal \<equiv> 1000 div unat hz"
  shows "\<exists>cs. clock_control hz start_moment end_moment freq = Inr cs \<and>
    (if elapsed * 1000 < ideal * unat freq then
       \<exists>ms. cs = [Delay ms] \<and> elapsed * 1000 + unat ms * unat freq \<le> ideal * unat freq \<and>
         ideal * unat freq < elapsed * 1000 + (unat ms + 1) * unat freq
     else cs = [])"
proof -
  have ideal: "unat (1000 div hz) = ideal" by (simp add: ideal_def unat_div)
  have f: "0 < unat freq" using assms(2) by (simp add: unat_gt_0)
  have "ideal \<le> 1000" by (simp add: ideal_def)
  define sleep where "sleep = (ideal * unat freq - elapsed * 1000) div unat freq"
  have "sleep \<le> ideal"
    unfolding sleep_def using f by (metis diff_le_self div_le_mono nonzero_mult_div_cancel_right less_numeral_extra(3))
  with \<open>ideal \<le> 1000\<close> have small: "unat (word_of_nat sleep :: u32) = sleep"
    by (simp add: unat_of_nat)
  have "sleep * unat freq \<le> ideal * unat freq - elapsed * 1000"
    "ideal * unat freq - elapsed * 1000 < (sleep + 1) * unat freq"
    unfolding sleep_def using f
    by (simp_all add: div_times_less_eq_dividend) (metis dividend_less_div_times add.commute)
  then show ?thesis
    using small assms(1) unfolding clock_control_def Let_def ideal elapsed_def [symmetric] sleep_def [symmetric]
    by auto
qed

theorem clock_control_paces_witness: "clock_control 1 0 250000 1000000 = Inr [Delay 750]"
proof -
  obtain ms where "clock_control 1 0 250000 1000000 = Inr [Delay ms]"
    and "250000 * 1000 + unat ms * 1000000 \<le> 1000 * 1000000"
    and "1000 * 1000000 < 250000 * 1000 + (unat ms + 1) * (1000000 :: nat)"
    using clock_control_paces [of 1 1000000 0 250000] by auto
  moreover from this(2,3) have "unat ms = 750" by simp
  then have "ms = 750" by (simp add: word_unat_eq_iff)
  ultimately show ?thesis by simp
qed

text \<open>A program that clears the screen: one frame shows it black.\<close>

theorem frame_shows_display_witness:
  "\<exists>m' cs before. machine_frame 600
       \<lparr>events = [], delay_ticks = 0, sound_ticks = 0, inputs = \<lparr>keyboard = \<lambda>_. 0, rand_value = 7\<rparr>,
        perf_start = 0, perf_end = 0, perf_freq = 1000\<rparr>
       (power_on ((replicate 4096 0)[513 := 0xE0])) = Inr (m', cs) \<and> cs = before @ [RenderPresent] \<and>
     (\<forall>x<640. \<forall>y<320. paint (drawings before) (1, 2, 3) (\<lambda>_ _. (9, 9, 9)) x y = (0, 0, 0))"
proof -
  let ?mem = "(replicate 4096 0)[513 := 0xE0] :: u8 list"
  let ?en = "\<lparr>keyboard = \<lambda>_. 0, rand_value = 7\<rparr>"
  let ?fr = "\<lparr>events = [], delay_ticks = 0, sound_ticks = 0, inputs = ?en, perf_start = 0, perf_end = 0, perf_freq = 1000\<rparr>"
  define m where "m = (power_on ?mem)\<lparr>delay_timer := timer_update 0 timer_init, sound_timer := timer_update 0 timer_init\<rparr>"
  have wf: "machine_wf m" by (simp add: m_def)
  have "opcode_at (memory m) 512 = 0xE0" by (simp add: m_def power_on_def opcode_at_def)
  moreover have "decode 0xE0 = Some Clear" by (simp add: decode_def Let_def)
  ultimately obtain m' where m': "cpu_step ?en m = Inr m'" "display m' = display_clear []"
    using cpu_step_eq [OF wf]
    by (simp add: m_def power_on_def cpu_init_def Let_def cpu_exec_by_decode exec_display_clear_def fetched_def
        MEMORY_PROGRAM_STARTING_ADDRESS_def display_clear_def)
  obtain rs where "display_render (display m') = Inr rs"
    using display_render_ok [of "display m'"] m'(2) by simp
  then have "machine_frame 600 ?fr (power_on ?mem) = Inr (m', [Delay 1] @ map Rendering rs @ [RenderPresent])"
    using m' by (simp add: machine_frame_def Let_def clock_control_def display_render_flush_def m_def power_on_def)
  with frame_shows_display [OF _ this, where colour = "(1, 2, 3)" and window = "\<lambda>_ _. (9, 9, 9)"] m'(2) show ?thesis
    by (fastforce simp: px_clear)
qed

end
