(* ===== verification/Behaviour.thy ===== *)
theory Behaviour
  imports Machine
begin

text \<open>
  What single instructions of the processor do, in terms of the numbers and addresses a
  programmer sees: carries, borrows and shifts, decimal digits, saving and restoring
  registers, calls and returns, and waiting for a key. The proofs go through the refinement
  of the instruction set (\<open>exec_instr_refines\<close>) or through the interpretation \<open>call_stack\<close>.
\<close>

section \<open>Arithmetic\<close>

lemma set_flag_and_reg:
  assumes "machine_wf m" and "unat x < 16" and "x \<noteq> VF"
  obtains m' where "res_bind (set_reg m VF f) (\<lambda>m. set_reg m x v) = Inr m'"
    and "registers (cpu m') ! 15 = f" and "registers (cpu m') ! unat x = v"
    and "\<And>k. k < 15 \<Longrightarrow> k \<noteq> unat x \<Longrightarrow> registers (cpu m') ! k = registers (cpu m) ! k"
proof -
  have "unat x \<noteq> 15" using assms(3) by (simp add: VF_def word_unat_eq_iff)
  then show thesis
    using assms that [of "m\<lparr>cpu := cpu m\<lparr>registers := (registers (cpu m))[15 := f, unat x := v]\<rparr>\<rparr>"]
    by (simp add: set_reg_def machine_wf_sizes nth_list_update)
qed

lemma reg_at: "machine_wf m \<Longrightarrow> unat x < 16 \<Longrightarrow> reg m x = Inr (registers (cpu m) ! unat x)"
  by (simp add: reg_def machine_wf_sizes)

lemma flag_ops:
  assumes "machine_wf m" and "opcode_decode_register_x w \<noteq> VF" and "opcode_decode_register_y w \<noteq> VF"
  defines "vx \<equiv> registers (cpu m) ! unat (opcode_decode_register_x w)"
    and "vy \<equiv> registers (cpu m) ! unat (opcode_decode_register_y w)"
    and "upd \<equiv> \<lambda>f v. res_bind (set_reg m VF f) (\<lambda>m. set_reg m (opcode_decode_register_x w) v)"
  shows "exec_vx_plus_vy w m = upd (if unat vx + unat vy > 255 then 1 else 0) (vx + vy)"
    and "exec_vx_minus_vy w m = upd (if vx > vy then 1 else 0) (vx - vy)"
    and "exec_set_vx_vy_minus_vx w m = upd (if vy > vx then 1 else 0) (vy - vx)"
  using assms(1-3)
  by (simp_all add: exec_reg_defs Let_def reg_at vx_def vy_def upd_def)

lemma shift_ops:
  assumes "machine_wf m" and "opcode_decode_register_x w \<noteq> VF"
  defines "vx \<equiv> registers (cpu m) ! unat (opcode_decode_register_x w)"
    and "upd \<equiv> \<lambda>f v. res_bind (set_reg m VF f) (\<lambda>m. set_reg m (opcode_decode_register_x w) v)"
  shows "exec_set_vx_rshift_one w m = upd (if odd vx then 1 else 0) (vx div 2)"
    and "exec_set_vx_lshift_one w m = upd (if unat vx \<ge> 128 then 1 else 0) (2 * vx)"
proof -
  have shift: "drop_bit (Suc 0) a = a div 2" "a * 2 = 2 * a" "bit a 0 = odd a" for a :: u8
    by (simp_all add: drop_bit_Suc bit_0)
  show "exec_set_vx_rshift_one w m = upd (if odd vx then 1 else 0) (vx div 2)"
    "exec_set_vx_lshift_one w m = upd (if unat vx \<ge> 128 then 1 else 0) (2 * vx)"
    using assms(1,2)
    by (simp_all add: exec_reg_defs Let_def reg_at bit_is_set_iff shift bit_7_iff vx_def upd_def)
qed

text \<open>The addition \<open>8xy4\<close> is exact: the new \<open>Vx\<close> and the carry in \<open>VF\<close>, read as one
  number of nine bits, are the sum of the old \<open>Vx\<close> and \<open>Vy\<close>, and the other registers keep
  their values.\<close>

theorem add_with_carry:
  assumes "machine_wf m" and "opcode_decode_register_x w \<noteq> VF" and "opcode_decode_register_y w \<noteq> VF"
  defines "x \<equiv> unat (opcode_decode_register_x w)" and "y \<equiv> unat (opcode_decode_register_y w)"
  shows "\<exists>m'. exec_vx_plus_vy w m = Inr m' \<and>
    256 * unat (registers (cpu m') ! 15) + unat (registers (cpu m') ! x) =
      unat (registers (cpu m) ! x) + unat (registers (cpu m) ! y) \<and>
    (\<forall>k<15. k \<noteq> x \<longrightarrow> registers (cpu m') ! k = registers (cpu m) ! k)"
proof -
  define vx vy where "vx = registers (cpu m) ! x" and "vy = registers (cpu m) ! y"
  have "unat vx < 256" "unat vy < 256" by simp_all
  then have small: "unat vx + unat vy - 256 < 256" by linarith
  have sum: "255 < unat vx + unat vy \<Longrightarrow> 256 + unat (vx + vy) = unat vx + unat vy"
    "\<not> 255 < unat vx + unat vy \<Longrightarrow> unat (vx + vy) = unat vx + unat vy"
    by (simp_all add: unat_word_ariths le_mod_geq small)
  show ?thesis
    unfolding flag_ops [OF assms(1-3)]
    by (rule set_flag_and_reg [OF assms(1) decode_register_x_less assms(2),
          of "if unat vx + unat vy > 255 then 1 else 0" "vx + vy"])
      (use sum in \<open>auto simp flip: vx_def vy_def x_def y_def\<close>)
qed

text \<open>\<open>V1 = 200\<close> and \<open>V2 = 100\<close>: the opcode \<open>8124\<close> leaves 44 in \<open>V1\<close> with a carry.\<close>

theorem add_with_carry_witness:
  "\<exists>m'. exec_vx_plus_vy 0x8124 ((power_on (replicate 4096 0))
        \<lparr>cpu := cpu_init\<lparr>registers := [0, 200, 100] @ replicate 13 0\<rparr>\<rparr>) = Inr m' \<and>
     256 * unat (registers (cpu m') ! 15) + unat (registers (cpu m') ! 1) = 300"
proof -
  let ?m = "(power_on (replicate 4096 0))\<lparr>cpu := cpu_init\<lparr>registers := [0, 200, 100] @ replicate 13 0\<rparr>\<rparr>"
  have "machine_wf ?m" by (simp add: machine_wf_def power_on_def cpu_init_def machine_sizes)
  moreover have "opcode_decode_register_x 0x8124 = 1" "opcode_decode_register_y 0x8124 = 2"
    by (simp_all add: word_unat_eq_iff unat_decode)
  ultimately show ?thesis
    using add_with_carry [of ?m "0x8124"] by (auto simp: VF_def)
qed

text \<open>The subtractions \<open>8xy5\<close> and \<open>8xy7\<close>: the result is the difference modulo 256, and
  \<open>VF\<close> is one exactly when the minuend is strictly greater, so that it is zero for equal
  operands, where there is no borrow either.\<close>

theorem subtract_with_flag:
  assumes "machine_wf m" and "opcode_decode_register_x w \<noteq> VF" and "opcode_decode_register_y w \<noteq> VF"
  defines "x \<equiv> unat (opcode_decode_register_x w)" and "y \<equiv> unat (opcode_decode_register_y w)"
  shows "(\<exists>m'. exec_vx_minus_vy w m = Inr m' \<and>
      int (unat (registers (cpu m') ! x)) =
        (int (unat (registers (cpu m) ! x)) - int (unat (registers (cpu m) ! y))) mod 256 \<and>
      registers (cpu m') ! 15 = (if unat (registers (cpu m) ! x) > unat (registers (cpu m) ! y) then 1 else 0)) \<and>
    (\<exists>m'. exec_set_vx_vy_minus_vx w m = Inr m' \<and>
      int (unat (registers (cpu m') ! x)) =
        (int (unat (registers (cpu m) ! y)) - int (unat (registers (cpu m) ! x))) mod 256 \<and>
      registers (cpu m') ! 15 = (if unat (registers (cpu m) ! y) > unat (registers (cpu m) ! x) then 1 else 0))"
proof -
  have diff: "uint (a - b) = (uint a - uint b) mod 256" for a b :: u8
    using uint_word_ariths(2) [of a b] by simp
  have minus: "\<exists>m'. res_bind (set_reg m VF (if b < a then 1 else 0))
        (\<lambda>m. set_reg m (opcode_decode_register_x w) (a - b)) = Inr m' \<and>
      int (unat (registers (cpu m') ! x)) = (int (unat a) - int (unat b)) mod 256 \<and>
      registers (cpu m') ! 15 = (if unat a > unat b then 1 else 0)" for a b :: u8
    by (rule set_flag_and_reg [OF assms(1) decode_register_x_less assms(2),
          of "if b < a then 1 else 0" "a - b"])
      (simp add: diff x_def word_less_nat_alt)
  show ?thesis
    unfolding flag_ops [OF assms(1-3)] using minus by (simp only: x_def y_def)
qed

theorem subtract_with_flag_witness:
  "\<exists>m'. exec_vx_minus_vy 0x8125 (power_on (replicate 4096 0)) = Inr m' \<and>
     registers (cpu m') ! 1 = 0 \<and> registers (cpu m') ! 15 = 0"
proof -
  have "opcode_decode_register_x 0x8125 = 1" "opcode_decode_register_y 0x8125 = 2"
    by (simp_all add: word_unat_eq_iff unat_decode)
  moreover have "registers (cpu (power_on (replicate 4096 0))) = replicate 16 0"
    by (simp add: power_on_def cpu_init_def machine_sizes)
  ultimately show ?thesis
    using subtract_with_flag [of "power_on (replicate 4096 0)" "0x8125"]
    by (auto simp: VF_def uint_0_iff)
qed

text \<open>The shifts \<open>8xy6\<close> and \<open>8xyE\<close> lose no bit: halving leaves the remainder in \<open>VF\<close>, and
  doubling leaves the bit that does not fit there.\<close>

theorem shifts_keep_the_bit:
  assumes "machine_wf m" and "opcode_decode_register_x w \<noteq> VF"
  defines "x \<equiv> unat (opcode_decode_register_x w)"
  shows "(\<exists>m'. exec_set_vx_rshift_one w m = Inr m' \<and>
      2 * unat (registers (cpu m') ! x) + unat (registers (cpu m') ! 15) = unat (registers (cpu m) ! x)) \<and>
    (\<exists>m'. exec_set_vx_lshift_one w m = Inr m' \<and>
      256 * unat (registers (cpu m') ! 15) + unat (registers (cpu m') ! x) = 2 * unat (registers (cpu m) ! x))"
proof -
  define vx where "vx = registers (cpu m) ! x"
  have "unat vx < 256" by simp
  then have small: "2 * unat vx - 256 < 256" "\<not> 128 \<le> unat vx \<Longrightarrow> 2 * unat vx < 256"
    by linarith+
  have "unat (2 * vx) = 2 * unat vx mod 256"
    by (simp add: unat_word_ariths)
  then have left: "128 \<le> unat vx \<Longrightarrow> 256 + unat (2 * vx) = 2 * unat vx"
    "\<not> 128 \<le> unat vx \<Longrightarrow> unat (2 * vx) = 2 * unat vx"
    using small by (simp_all add: le_mod_geq)
  have "odd vx \<longleftrightarrow> unat vx mod 2 = 1"
    by (simp add: odd_iff_mod_2_eq_one word_unat_eq_iff unat_mod)
  then have right: "odd vx \<Longrightarrow> Suc (2 * unat (vx div 2)) = unat vx"
    "even vx \<Longrightarrow> 2 * unat (vx div 2) = unat vx"
    using mult_div_mod_eq [of 2 "unat vx"] by (auto simp: unat_div)
  show ?thesis
    unfolding shift_ops [OF assms(1,2)]
    by (intro conjI; rule set_flag_and_reg [OF assms(1) decode_register_x_less assms(2)])
      (intro exI conjI, assumption, use left right in \<open>simp flip: vx_def x_def\<close>)+
qed

theorem shifts_keep_the_bit_witness:
  "\<exists>m'. exec_set_vx_lshift_one 0x812E ((power_on (replicate 4096 0))
        \<lparr>cpu := cpu_init\<lparr>registers := [0, 200, 100] @ replicate 13 0\<rparr>\<rparr>) = Inr m' \<and>
     256 * unat (registers (cpu m') ! 15) + unat (registers (cpu m') ! 1) = 400"
proof -
  let ?m = "(power_on (replicate 4096 0))\<lparr>cpu := cpu_init\<lparr>registers := [0, 200, 100] @ replicate 13 0\<rparr>\<rparr>"
  have "machine_wf ?m" by (simp add: machine_wf_def power_on_def cpu_init_def machine_sizes)
  moreover have "opcode_decode_register_x 0x812E = 1"
    by (simp add: word_unat_eq_iff unat_decode)
  ultimately show ?thesis
    using shifts_keep_the_bit [of ?m "0x812E"] by (auto simp: VF_def)
qed

text \<open>\<open>Fx33\<close> stores the decimal digits of \<open>Vx\<close>: the three bytes at the index register are
  digits, and as a decimal number they are \<open>Vx\<close>; the rest of memory is unchanged.\<close>

theorem bcd_digits_stored:
  assumes "machine_wf m" and "unat (i_reg (cpu m)) + 2 < 4096"
  defines "a \<equiv> unat (i_reg (cpu m))"
  shows "\<exists>m'. exec_set_bcd w m = Inr m' \<and>
    (\<forall>k\<in>{a, a + 1, a + 2}. unat (memory m' ! k) \<le> 9) \<and>
    100 * unat (memory m' ! a) + 10 * unat (memory m' ! (a + 1)) + unat (memory m' ! (a + 2)) =
      unat (registers (cpu m) ! unat (opcode_decode_register_x w)) \<and>
    (\<forall>k. k \<notin> {a, a + 1, a + 2} \<longrightarrow> memory m' ! k = memory m ! k)"
proof -
  define v where "v = registers (cpu m) ! unat (opcode_decode_register_x w)"
  let ?m = "m\<lparr>memory := (memory m)[a := v div 100, a + 1 := v div 10 mod 10, a + 2 := v mod 10]\<rparr>"
  have "exec_set_bcd w m = Inr ?m"
    using assms(1,2)
    by (simp add: exec_set_bcd_def Let_def reg_at mem_set_def bcd_digits machine_wf_sizes v_def a_def)
  moreover have "unat v < 256" by simp
  then have "unat v div 100 \<le> 9" by linarith
  moreover have "100 * (unat v div 100) + 10 * (unat v div 10 mod 10) + unat v mod 10 = unat v"
    using mult_div_mod_eq [of 10 "unat v"] mult_div_mod_eq [of 10 "unat v div 10"]
      div_mult2_eq [of "unat v" 10 10, simplified] by linarith
  ultimately show ?thesis
    using assms(1,2)
    by (intro exI [of _ ?m])
      (auto simp: machine_wf_sizes nth_list_update unat_div unat_mod a_def simp flip: v_def)
qed

theorem bcd_digits_stored_witness:
  "\<exists>m'. exec_set_bcd 0xF133 ((power_on (replicate 4096 0))
        \<lparr>cpu := cpu_init\<lparr>registers := [0, 200, 100] @ replicate 13 0\<rparr>\<rparr>) = Inr m' \<and>
     100 * unat (memory m' ! 512) + 10 * unat (memory m' ! 513) + unat (memory m' ! 514) = 200"
proof -
  let ?m = "(power_on (replicate 4096 0))\<lparr>cpu := cpu_init\<lparr>registers := [0, 200, 100] @ replicate 13 0\<rparr>\<rparr>"
  have "machine_wf ?m" by (simp add: machine_wf_def power_on_def cpu_init_def machine_sizes)
  moreover have "opcode_decode_register_x 0xF133 = 1"
    by (simp add: word_unat_eq_iff unat_decode)
  moreover have "unat (i_reg (cpu ?m)) = 512"
    by (simp add: cpu_init_def MEMORY_PROGRAM_STARTING_ADDRESS_def)
  ultimately show ?thesis
    using bcd_digits_stored [of ?m "0xF133"] by auto
qed

section \<open>Saving and restoring registers\<close>

text \<open>\<open>Fx55\<close> and \<open>Fx65\<close> are inverse: registers \<open>V0\<close> to \<open>Vx\<close> saved at the index register
  are restored by a load with the same \<open>x\<close>, whatever the registers hold in between; the
  registers after \<open>Vx\<close> are not touched, and neither instruction moves the index register.\<close>

theorem dump_load_roundtrip:
  assumes "machine_wf m" and "opcode_decode_register_x w' = opcode_decode_register_x w"
    and "unat (i_reg (cpu m)) + unat (opcode_decode_register_x w) < 4096" and "length rs = 16"
  defines "n \<equiv> unat (opcode_decode_register_x w) + 1"
  shows "\<exists>m1. exec_reg_dump w m = Inr m1 \<and> cpu m1 = cpu m \<and>
    exec_reg_load w' (m1\<lparr>cpu := cpu m\<lparr>registers := rs\<rparr>\<rparr>) =
      Inr (m1\<lparr>cpu := cpu m\<lparr>registers := take n (registers (cpu m)) @ drop n rs\<rparr>\<rparr>)"
proof -
  let ?a = "unat (i_reg (cpu m))"
  let ?mem = "take ?a (memory m) @ take n (registers (cpu m)) @ drop (?a + n) (memory m)"
  have n: "?a + n \<le> 4096" "n \<le> 16"
    using assms(3) decode_register_x_less [of w] unfolding n_def by linarith+
  have dump: "exec_reg_dump w m = Inr (m\<lparr>memory := ?mem\<rparr>)"
    using exec_reg_dump_eq [OF assms(1), of w, unfolded Let_def, folded n_def] n by simp
  have len: "length ?mem = 4096"
    using assms(1) n by (simp add: machine_wf_sizes)
  have "machine_wf (m\<lparr>memory := ?mem, cpu := cpu m\<lparr>registers := rs\<rparr>\<rparr>)"
    using assms(1,4) len by (simp add: machine_wf_def machine_sizes)
  from exec_reg_load_eq [OF this, of w', unfolded Let_def assms(2), folded n_def] n assms(1)
  have "exec_reg_load w' (m\<lparr>memory := ?mem, cpu := cpu m\<lparr>registers := rs\<rparr>\<rparr>) =
      Inr (m\<lparr>memory := ?mem, cpu := cpu m\<lparr>registers := take n (registers (cpu m)) @ drop n rs\<rparr>\<rparr>)"
    by (simp add: machine_wf_sizes)
  with dump show ?thesis
    by (intro exI [of _ "m\<lparr>memory := ?mem\<rparr>"]) simp
qed

theorem dump_load_roundtrip_witness:
  "\<exists>m1. exec_reg_dump 0xF255 (power_on (replicate 4096 7)) = Inr m1 \<and>
     exec_reg_load 0xF265 (m1\<lparr>cpu := cpu_init\<lparr>registers := replicate 16 9\<rparr>\<rparr>) =
       Inr (m1\<lparr>cpu := cpu_init\<lparr>registers := replicate 3 0 @ replicate 13 9\<rparr>\<rparr>)"
proof -
  have x: "opcode_decode_register_x 0xF255 = 2" "opcode_decode_register_x 0xF265 = 2"
    by (simp_all add: word_unat_eq_iff unat_decode)
  have "cpu (power_on (replicate 4096 7)) = cpu_init" "unat (i_reg cpu_init) = 512"
    "registers cpu_init = replicate 16 0"
    by (simp_all add: power_on_def cpu_init_def MEMORY_PROGRAM_STARTING_ADDRESS_def machine_sizes)
  then show ?thesis
    using dump_load_roundtrip [of "power_on (replicate 4096 7)" "0xF265" "0xF255" "replicate 16 9"] x
    by auto
qed

section \<open>Calls and returns\<close>

text \<open>A return after a call resumes behind the call: after \<open>2nnn\<close> control is at \<open>nnn\<close>, and
  \<open>00EE\<close> restores the program counter and the call stack of before the call.\<close>

theorem call_then_return:
  assumes "machine_wf m" and "exec_call_subroutine w m = Inr m1"
  shows "pc (cpu m1) = opcode_decode_address w \<and>
    (\<exists>m2. exec_return w' m1 = Inr m2 \<and> pc (cpu m2) = pc (cpu m) \<and>
      cpu_stack_contents (cpu m2) = cpu_stack_contents (cpu m))"
proof -
  obtain c where c: "cpu_stack_push (cpu m) (pc (cpu m)) = Inr c"
    and m1: "m1 = cpu_goto_address (opcode_decode_address w) (m\<lparr>cpu := c\<rparr>)"
    using assms(2) by (auto simp: exec_call_subroutine_def Let_def res_bind_Inr_iff)
  obtain c' where c': "cpu_stack_pop c = Inr (pc (cpu m), c')"
      "cpu_stack_contents c' = cpu_stack_contents (cpu m)"
    using call_stack.push_pop [OF machine_wf_stack_ok [OF assms(1)] c] by blast
  have "cpu_stack_pop (c\<lparr>pc := a\<rparr>) = Inr (pc (cpu m), c'\<lparr>pc := a\<rparr>)" for a
    using c'(1) by (auto simp: cpu_stack_pop_def Let_def c_exit_def res_bind_Inr_iff split: if_splits)
  then show ?thesis
    using m1 c'(2)
    by (simp add: exec_return_def cpu_goto_address_def cpu_stack_contents_def)
qed

theorem call_then_return_witness:
  "\<exists>m1 m2. exec_call_subroutine 0x2400 (power_on (replicate 4096 0)) = Inr m1 \<and>
     exec_return 0x00EE m1 = Inr m2 \<and> pc (cpu m2) = 0x200"
proof -
  have "\<exists>m1. exec_call_subroutine 0x2400 (power_on (replicate 4096 0)) = Inr m1"
    by (simp add: exec_call_subroutine_def Let_def cpu_stack_push_def power_on_def cpu_init_def
        STACK_CAPACITY_def)
  then obtain m1 where m1: "exec_call_subroutine 0x2400 (power_on (replicate 4096 0)) = Inr m1" ..
  moreover have "pc (cpu (power_on (replicate 4096 0))) = 0x200"
    by (simp add: power_on_def cpu_init_def MEMORY_PROGRAM_STARTING_ADDRESS_def)
  ultimately show ?thesis
    using call_then_return [OF _ m1, of "0x00EE"] by auto
qed

text \<open>The call stack is last in, first out and holds twelve addresses: pushing up to twelve on
  an empty stack and popping as many gives them back in reverse; pushing more than twelve
  stops.\<close>

theorem call_stack_lifo:
  assumes "cpu_stack_ok c" and "stack_count c = 0"
  shows "if length as \<le> 12
    then \<exists>c1 c2. fold_res cpu_stack_push c as = Inr c1 \<and>
      iter_res (length as) cpu_stack_pop c1 = Inr (rev as, c2) \<and> stack_count c2 = 0
    else \<exists>e. fold_res cpu_stack_push c as = Inl e"
proof -
  have empty: "cpu_stack_contents c = []"
    using assms(2) by (simp add: cpu_stack_contents_def)
  show ?thesis
  proof (cases "length as \<le> 12")
    case True
    then obtain c1 where c1: "fold_res cpu_stack_push c as = Inr c1" "cpu_stack_ok c1"
        "cpu_stack_contents c1 = as"
      using call_stack.push_all [OF assms(1), of as] empty by (auto simp: STACK_CAPACITY_def)
    then obtain c2 where c2: "iter_res (length as) cpu_stack_pop c1 = Inr (rev as, c2)"
        "cpu_stack_ok c2" "cpu_stack_contents c2 = []"
      using call_stack.pop_all [OF c1(2), of "length as"] by auto
    have "stack_count c2 = 0"
      using c2(2,3) by (auto simp: cpu_stack_contents_def cpu_stack_ok_def STACK_CAPACITY_def)
    with True c1(1) c2(1) show ?thesis by auto
  next
    case False
    then show ?thesis
      using call_stack.push_all_overflow [OF assms(1), of as] empty by (simp add: STACK_CAPACITY_def)
  qed
qed

theorem call_stack_lifo_witness:
  "\<exists>c1 c2. fold_res cpu_stack_push cpu_init [0x300, 0x400] = Inr c1 \<and>
      iter_res 2 cpu_stack_pop c1 = Inr ([0x400, 0x300], c2) \<and> stack_count c2 = 0"
  using call_stack_lifo [of cpu_init "[0x300, 0x400]"]
  by (simp add: cpu_stack_ok_def cpu_init_def numeral_2_eq_2)

section \<open>Waiting for a key\<close>

text \<open>\<open>Fx0A\<close> waits: while no key is pressed, a step that executes it changes nothing the
  program can see, so that the next step executes it again; once keys are pressed, the least
  of them is stored in \<open>Vx\<close> and control moves on.\<close>

theorem wait_for_key:
  assumes "machine_wf m" and "unat (pc (cpu m)) < 4095"
    and "decode (opcode_at (memory m) (unat (pc (cpu m)))) = Some (Misc Wait_Key x)"
  shows "\<exists>m'. cpu_step en m = Inr m' \<and>
    abs_machine m' = (case first_key en of
        None \<Rightarrow> abs_machine m
      | Some k \<Rightarrow> set_V x (word_of_nat k) ((abs_machine m)\<lparr>ip := pc (cpu m) + 2\<rparr>))"
proof -
  define w where "w = opcode_at (memory m) (unat (pc (cpu m)))"
  have wf: "machine_wf (fetched w m)" using assms(1) by simp
  have "w \<noteq> 0" using assms(3) by (auto simp: w_def decode_def Let_def)
  then have step: "cpu_step en m = exec_instr en (Misc Wait_Key x) w (fetched w m)"
    using assms by (simp add: cpu_step_eq Let_def cpu_exec_by_decode flip: w_def)
  have fetched: "abs_machine (fetched w m) = (abs_machine m)\<lparr>ip := pc (cpu m) + 2\<rparr>"
    by (simp add: fetched_def Let_def)
  have "pc (cpu (fetched w m)) = pc (cpu m) + 2"
    by (simp add: fetched_def Let_def cpu_pc_advance_def)
  then have "abs_res (cpu_step en m) = Some (case first_key en of
        None \<Rightarrow> abs_machine m
      | Some k \<Rightarrow> set_V x (word_of_nat k) ((abs_machine m)\<lparr>ip := pc (cpu m) + 2\<rparr>))"
    unfolding step exec_instr_refines [OF wf assms(3) [folded w_def]]
    by (simp add: isa_misc_def Let_def fetched split: option.splits)
  then show ?thesis
    by (cases "cpu_step en m") simp_all
qed

theorem wait_for_key_witness:
  "\<exists>m'. cpu_step \<lparr>keyboard = \<lambda>_. 0, rand_value = 7\<rparr>
      (power_on ((replicate 4096 0)[512 := 0xF3, 513 := 0x0A])) = Inr m' \<and>
    abs_machine m' = abs_machine (power_on ((replicate 4096 0)[512 := 0xF3, 513 := 0x0A]))"
proof -
  let ?m = "power_on ((replicate 4096 0)[512 := 0xF3, 513 := 0x0A])"
  have pc: "unat (pc (cpu ?m)) = 512"
    by (simp add: power_on_def cpu_init_def MEMORY_PROGRAM_STARTING_ADDRESS_def)
  have "opcode_at (memory ?m) 512 = 0xF30A"
    by (simp add: opcode_at_def power_on_def)
  then have "decode (opcode_at (memory ?m) 512) = Some (Misc Wait_Key 3)"
    by (simp add: decode_def Let_def word_unat_eq_iff unat_decode decode_misc_def)
  moreover have "first_key \<lparr>keyboard = \<lambda>_. 0, rand_value = 7\<rparr> = None"
    by (simp add: first_key_def find_None_iff pressed_def)
  ultimately show ?thesis
    using wait_for_key [of ?m 3 "\<lparr>keyboard = \<lambda>_. 0, rand_value = 7\<rparr>"] pc by simp
qed

end
