(* ===== verification/Execution.thy ===== *)
theory Execution
  imports Machine
begin

text \<open>
  Whole runs of the emulator. The instruction set of \<open>Isa\<close> is extended to an abstract machine that fetches, counts down its timers and
  goes through the frames of a run; the main loop of \<open>machine.c\<close> implements it. The time stamps of the timers, which only
  \<open>timer_start\<close> sets, are parameters of the abstract machine.
\<close>

section \<open>The abstract machine\<close>

definition isa_opcode :: "isa \<Rightarrow> u16" where
  "isa_opcode s = word_of_nat (256 * unat (ram s (unat (ip s))) + unat (ram s (unat (ip s) + 1)))"

text \<open>One instruction: both bytes of the opcode are in memory, it is not zero, and it encodes an instruction, which
  runs after the instruction pointer has moved on.\<close>

definition isa_step :: "env \<Rightarrow> isa \<Rightarrow> isa option" where
  "isa_step en s =
     (if unat (ip s) + 1 < 4096 \<and> isa_opcode s \<noteq> 0 then
        case decode (isa_opcode s) of
          None \<Rightarrow> None
        | Some i \<Rightarrow> isa_exec en i (s\<lparr>ip := ip s + 2\<rparr>)
      else None)"

text \<open>A timer loses one for each period of 16 ms since its time stamp, down to zero.\<close>

definition count_down :: "u64 \<Rightarrow> u64 \<Rightarrow> u8 \<Rightarrow> u8" where
  "count_down stamp now v = word_of_nat (unat v - unat (now - stamp) div 16)"

definition isa_frame :: "u64 \<times> u64 \<Rightarrow> frame \<Rightarrow> isa \<Rightarrow> isa option" where
  "isa_frame st fr s =
     isa_step (inputs fr)
       (s\<lparr>delay := count_down (fst st) (delay_ticks fr) (delay s),
          sound := count_down (snd st) (sound_ticks fr) (sound s)\<rparr>)"

fun isa_run :: "u64 \<times> u64 \<Rightarrow> frame list \<Rightarrow> isa \<Rightarrow> (isa \<times> bool) option" where
  "isa_run st [] s = Some (s, False)"
| "isa_run st (fr # frs) s =
     (if poll_events (events fr) then Some (s, True)
      else case isa_frame st fr s of None \<Rightarrow> None | Some s' \<Rightarrow> isa_run st frs s')"

section \<open>Time stamps\<close>

definition stamps :: "machine \<Rightarrow> u64 \<times> u64" where
  "stamps m = (last_tick_timestamp_ms (delay_timer m), last_tick_timestamp_ms (sound_timer m))"

abbreviation keeps_stamps :: "machine \<Rightarrow> machine res \<Rightarrow> bool" where
  "keeps_stamps m r \<equiv> wp r (\<lambda>m'. stamps m' = stamps m) (\<lambda>_. True)"

lemma stamps_updates [simp]:
  "stamps (m\<lparr>memory := mem\<rparr>) = stamps m" "stamps (m\<lparr>cpu := c\<rparr>) = stamps m"
  "stamps (m\<lparr>display := d\<rparr>) = stamps m" "stamps (m\<lparr>trace := t\<rparr>) = stamps m"
  "stamps (cpu_pc_advance m) = stamps m" "stamps (cpu_pc_advance_back m) = stamps m"
  "stamps (cpu_goto_address a m) = stamps m"
  "stamps (m\<lparr>delay_timer := timer_set_value (delay_timer m) v\<rparr>) = stamps m"
  "stamps (m\<lparr>sound_timer := timer_set_value (sound_timer m) v\<rparr>) = stamps m"
  by (simp_all add: stamps_def pc_defs timer_set_value_def)

lemma reg_loops_stamps:
  "stamps m = st \<Longrightarrow> wp (reg_dump_loop i a n m) (\<lambda>m'. stamps m' = st) (\<lambda>_. True)"
  "stamps m = st \<Longrightarrow> wp (reg_load_loop i a n m) (\<lambda>m'. stamps m' = st) (\<lambda>_. True)"
  by (induction n arbitrary: i a m) (simp_all add: wp_simps)

lemma exec_instr_stamps: "keeps_stamps m (exec_instr en i w m)"
proof (induction en i w m rule: exec_instr.induct)
qed (auto simp: exec_reg_defs exec_state_defs exec_return_def exec_call_def exec_call_subroutine_def
    exec_display_draw_sprite_at_def exec_if_key_equals_to_vx_def exec_if_key_not_equals_to_vx_def exec_set_vx_from_key_def
    exec_set_bcd_def exec_reg_dump_def exec_reg_load_def reg_loops_stamps wp_simps Let_def
    simp del: reg_dump_loop.simps reg_load_loop.simps intro!: wp_any split: option.splits)

section \<open>One frame\<close>

lemma abs_fetched: "abs_machine (fetched w m) = (abs_machine m)\<lparr>ip := pc (cpu m) + 2\<rparr>"
  unfolding fetched_def Let_def
  by (subst abs_machine_cong [where m = m]; simp add: cpu_pc_advance_def cpu_stack_contents_def)

lemma isa_opcode_abs:
  "unat (pc (cpu m)) + 1 < 4096 \<Longrightarrow> isa_opcode (abs_machine m) = opcode_at (memory m) (unat (pc (cpu m)))"
  by (simp add: isa_opcode_def opcode_at_def)

lemma cpu_step_refines:
  assumes "machine_wf m"
  shows "abs_res (cpu_step en m) = isa_step en (abs_machine m)"
proof -
  have "abs_res (cpu_decode_and_exec_opcode en w (fetched w m)) =
      (case decode w of None \<Rightarrow> None | Some i \<Rightarrow> isa_exec en i ((abs_machine m)\<lparr>ip := pc (cpu m) + 2\<rparr>))" for w
    using exec_instr_refines [of "fetched w m" w] assms
    by (simp add: cpu_exec_by_decode abs_fetched split: option.splits)
  moreover have "unat (pc (cpu m)) + 1 < 4096 \<longleftrightarrow> \<not> 4096 \<le> unat (pc (cpu m)) \<and> unat (pc (cpu m)) \<noteq> 4095"
    by linarith
  ultimately show ?thesis
    using isa_opcode_abs [of m] by (auto simp: cpu_step_eq [OF assms] isa_step_def Let_def simp del: isa_exec.simps cong: option.case_cong)
qed

lemma cpu_step_stamps:
  assumes "machine_wf m"
  shows "keeps_stamps m (cpu_step en m)"
proof -
  have "keeps_stamps m (cpu_decode_and_exec_opcode en w (fetched w m))" for w
    using exec_instr_stamps [where m = "fetched w m" and w = w and en = en]
    by (auto simp: cpu_exec_by_decode fetched_def Let_def wp_exit split: option.splits)
  then show ?thesis by (simp add: cpu_step_eq [OF assms] Let_def wp_exit)
qed

text \<open>The machine after both timers have been updated.\<close>

definition timed :: "frame \<Rightarrow> machine \<Rightarrow> machine" where
  "timed fr m =
     m\<lparr>delay_timer := timer_update (delay_ticks fr) (delay_timer m),
       sound_timer := timer_update (sound_ticks fr) (sound_timer m)\<rparr>"

lemma timer_value_update:
  "timer_value (timer_update now t) = count_down (last_tick_timestamp_ms t) now (timer_value t)"
  by (simp add: count_down_def unat_timer_update [symmetric])

lemma timed_simps [simp]:
  "stamps (timed fr m) = stamps m" "machine_wf (timed fr m) = machine_wf m"
  by (simp_all add: timed_def stamps_def)

lemma abs_timed:
  "abs_machine (timed fr m) = (abs_machine m)
     \<lparr>delay := count_down (fst (stamps m)) (delay_ticks fr) (timer_value (delay_timer m)),
      sound := count_down (snd (stamps m)) (sound_ticks fr) (timer_value (sound_timer m))\<rparr>"
  by (simp add: abs_machine_def timed_def timer_value_update stamps_def cong: if_cong)

lemma machine_frame_eq:
  assumes "machine_wf m" and "hz \<noteq> 0"
  shows "case cpu_step (inputs fr) (timed fr m) of
      Inl e \<Rightarrow> machine_frame hz fr m = Inl e
    | Inr m' \<Rightarrow> \<exists>cs. machine_frame hz fr m = Inr (m', cs)"
proof (cases "cpu_step (inputs fr) (timed fr m)")
  case (Inr m')
  then have "machine_wf m'" using cpu_step_wp [of "timed fr m" "inputs fr"] assms(1) by simp
  then have "\<exists>rs. display_render (display m') = Inr rs" by (simp add: display_render_ok machine_wf_sizes)
  with Inr assms(2) show ?thesis
    by (auto simp: machine_frame_def timed_def clock_control_def Let_def)
qed (simp add: machine_frame_def timed_def)

lemma machine_frame_refines:
  assumes "machine_wf m" and "hz \<noteq> 0"
  shows "case isa_frame (stamps m) fr (abs_machine m) of
      None \<Rightarrow> \<exists>e. machine_frame hz fr m = Inl e
    | Some s \<Rightarrow> \<exists>m' cs. machine_frame hz fr m = Inr (m', cs) \<and> abs_machine m' = s \<and> stamps m' = stamps m \<and> machine_wf m'"
proof -
  have "isa_frame (stamps m) fr (abs_machine m) = abs_res (cpu_step (inputs fr) (timed fr m))"
    using cpu_step_refines [of "timed fr m" "inputs fr"] assms(1) by (simp add: isa_frame_def abs_timed)
  then show ?thesis
    using machine_frame_eq [OF assms, of fr] cpu_step_stamps [of "timed fr m" "inputs fr"]
      cpu_step_wp [of "timed fr m" "inputs fr"] assms(1)
    by (cases "cpu_step (inputs fr) (timed fr m)") auto
qed

text \<open>The frames of the emulator, as a transition system, simulate the frames of the abstract machine with its time stamps.\<close>

definition isa_frame_step :: "u32 \<times> frame \<Rightarrow> (u64 \<times> u64) \<times> isa \<Rightarrow> ((u64 \<times> u64) \<times> isa) option" where
  "isa_frame_step i s = map_option (Pair (fst s)) (isa_frame (fst s) (snd i) (snd s))"

interpretation frames: simulation booted frame_step machine_wf isa_frame_step "\<lambda>m. (stamps m, abs_machine m)" "\<lambda>i. fst i \<noteq> 0"
proof (unfold_locales, goal_cases)
  case (1 m i)
  then show ?case
    using machine_frame_refines [of m "fst i" "snd i"] by (auto simp: isa_frame_step_def frame_step_def split_beta)
next
  case (2 m i s)
  then show ?case
    using machine_frame_refines [of m "fst i" "snd i"] by (auto simp: isa_frame_step_def frame_step_def split_beta)
next
  case (3 m i m')
  then show ?case
    by (auto simp: frame_step_def machine_frame_def clock_control_def res_bind_Inr_iff Let_def split_beta split: if_splits)
qed

text \<open>Whatever state the emulator is in, the abstract machine could be in it, started on the same memory.\<close>

theorem reachable_in_isa:
  "reach booted frame_step m \<Longrightarrow>
    abstract_reach (\<lambda>a. \<exists>m0. booted m0 \<and> (stamps m0, abs_machine m0) = a) isa_frame_step (stamps m, abs_machine m)"
  by (rule frames.sim_reach)

section \<open>Where the program counter and the return addresses point\<close>

text \<open>On the abstract machine: an instruction leaves the instruction pointer at most two bytes behind the end of memory, or at
  most 255 bytes behind it when it adds a register to an address; a return address is that of the instruction behind
  a call.\<close>

definition return_address :: "u16 \<Rightarrow> bool" where
  "return_address a \<longleftrightarrow> 2 \<le> unat a \<and> unat a \<le> 4096"

definition isa_placed :: "isa \<Rightarrow> bool" where
  "isa_placed s \<longleftrightarrow> unat (ip s) \<le> 4350 \<and> length (calls s) \<le> 12 \<and> list_all return_address (calls s)"

lemma unat_address_add:
  "unat (a :: u16) \<le> 4096 \<Longrightarrow> unat (a + 2) = unat a + 2"
  "unat (a :: u16) \<le> 4096 \<Longrightarrow> unat (a + ucast (v :: u8)) = unat a + unat v"
  using unat_u8_less [of v] by (simp_all add: unat_word_ariths del: unat_u8_less)

lemma return_address_back: "return_address a \<Longrightarrow> unat (a - 2) \<le> 4094"
  by (auto simp: return_address_def unat_sub word_le_nat_alt)

lemma isa_exec_placed:
  assumes "instr_valid i" and "return_address (ip s)" and "length (calls s) \<le> 12" and "list_all return_address (calls s)"
    and "isa_exec en i s = Some s'"
  shows "isa_placed s'"
proof -
  have ip: "unat (ip s) \<le> 4096" "unat (ip s + 2) \<le> 4098" "unat (ip s - 2) \<le> 4094"
    using assms(2) return_address_back [OF assms(2)] by (simp_all add: return_address_def unat_address_add)
  have jump: "unat (a + ucast (v :: u8)) \<le> 4350" if "unat a < 4096" for a :: u16 and v
    using unat_address_add(2) [of a v] unat_u8_less [of v] that by (simp del: unat_u8_less)
  show ?thesis
    using assms(1,3-) ip jump assms(2)
    by (cases i) (auto simp: isa_placed_def isa_defs return_address_def Let_def split: if_splits option.splits alu.splits misc.splits list.splits)
qed

lemma isa_frame_placed:
  assumes "isa_placed s" and "isa_frame st fr s = Some s'"
  shows "isa_placed s'"
proof -
  let ?s = "s\<lparr>delay := count_down (fst st) (delay_ticks fr) (delay s), sound := count_down (snd st) (sound_ticks fr) (sound s)\<rparr>"
  obtain i where i: "unat (ip s) + 1 < 4096" "decode (isa_opcode ?s) = Some i"
      "isa_exec (inputs fr) i (?s\<lparr>ip := ip s + 2\<rparr>) = Some s'"
    using assms(2) by (auto simp: isa_frame_def isa_step_def split: if_splits option.splits)
  have "return_address (ip s + 2)" using i(1) by (simp add: return_address_def unat_address_add)
  moreover have "instr_valid i" using encode_decode [OF i(2)] by simp
  ultimately show ?thesis
    using isa_exec_placed [OF _ _ _ _ i(3)] assms(1) by (simp add: isa_placed_def)
qed

definition machine_placed :: "machine \<Rightarrow> bool" where
  "machine_placed m \<longleftrightarrow> machine_wf m \<and> isa_placed (abs_machine m)"

lemma booted_placed: "booted m \<Longrightarrow> machine_placed m"
proof -
  assume booted: "booted m"
  then obtain m0 lg os path m1 where m0: "length (memory m0) = 4096" "machine_init True True m0 = Inr m1"
      "machine_load_rom lg os m1 path = Inr m"
    by (auto simp: booted_def)
  then have m1: "m1 = power_on (font_sprites @ replicate 4016 0)\<lparr>trace := trace m0\<rparr>"
    using machine_init_wp [OF m0(1), of True True] by simp
  then have "length (memory m1) = 4096" by (simp add: power_on_def)
  from machine_load_rom_wp [OF this, of lg os path] m0(3) m1 booted_wf [OF booted] show ?thesis
    by (simp add: machine_placed_def isa_placed_def loaded_def power_on_def cpu_init_def cpu_stack_contents_def Let_def
        MEMORY_PROGRAM_STARTING_ADDRESS_def)
qed

lemma frame_step_placed:
  assumes "machine_placed m" and "frame_step i m = Inr m'"
  shows "machine_placed m'"
proof -
  obtain hz fr where i: "i = (hz, fr)" by (cases i)
  have "hz \<noteq> 0" using frames.returns_enabled [OF _ assms(2)] assms(1) by (simp add: i machine_placed_def)
  then show ?thesis
    using machine_frame_refines [of m hz fr] isa_frame_placed [of "abs_machine m" "stamps m" fr] assms i
    by (auto simp: machine_placed_def frame_step_def res_bind_Inr_iff split: option.splits)
qed

interpretation addresses: transition_system booted frame_step machine_placed
  by unfold_locales (auto intro: booted_placed frame_step_placed)

text \<open>C12: Where the program counter and the return addresses can point. In every state that the emulator reaches, on
  any ROM and any frames, the program counter is at most 4350, the highest address plus the highest value of a register, so that
  its 16 bits never wrap around. At most twelve calls are open, and each of their return addresses is that of
  the byte behind two bytes of memory, the instruction that called.\<close>

theorem reachable_addresses:
  assumes "reach booted frame_step m"
  shows "unat (pc (cpu m)) \<le> 4350 \<and> stack_count (cpu m) \<le> 12 \<and>
    (\<forall>k < stack_count (cpu m). 2 \<le> unat (stack (cpu m) ! k) \<and> unat (stack (cpu m) ! k) \<le> 4096)"
proof -
  have inv: "machine_wf m" "isa_placed (abs_machine m)"
    using addresses.reach_inv [OF assms] by (simp_all add: machine_placed_def)
  note sizes = machine_wf_sizes [OF inv(1)]
  have "return_address (stack (cpu m) ! k)" if "k < stack_count (cpu m)" for k
    using inv(2) that sizes nth_mem [of k "cpu_stack_contents (cpu m)"]
    by (simp add: isa_placed_def list_all_iff cpu_stack_contents_def)
  then show ?thesis
    using inv(2) sizes by (simp add: isa_placed_def return_address_def)
qed

text \<open>The machine that has started without a ROM is such a state.\<close>

theorem reachable_addresses_witness:
  "\<exists>m. reach booted frame_step m \<and> unat (pc (cpu m)) \<le> 4350 \<and> stack_count (cpu m) \<le> 12"
proof -
  obtain m where "booted m" using boots_without_rom by blast
  then have "reach booted frame_step m" by (rule reach_start)
  with reachable_addresses [OF this] show ?thesis by blast
qed

section \<open>Whole runs\<close>

definition abs_run :: "(machine \<times> bool \<times> sdl_call list) res \<Rightarrow> (isa \<times> bool) option" where
  "abs_run r = (case r of Inl e \<Rightarrow> None | Inr (m, finished, cs) \<Rightarrow> Some (abs_machine m, finished))"

lemma abs_run_simps [simp]:
  "abs_run (Inl e) = None" "abs_run (Inr (m, finished, cs)) = Some (abs_machine m, finished)"
  by (simp_all add: abs_run_def)

lemma abs_run_calls: "abs_run (res_bind r (\<lambda>(m, b, cs'). Inr (m, b, cs @ cs'))) = abs_run r"
  by (cases r) (auto simp: abs_run_def)

lemma run_loop_refines:
  assumes "hz \<noteq> 0"
  shows "machine_wf m \<Longrightarrow> abs_run (run_loop hz frs m) = isa_run (stamps m) frs (abs_machine m)"
proof (induction frs arbitrary: m)
  case (Cons fr frs)
  show ?case
  proof (cases "isa_frame (stamps m) fr (abs_machine m)")
    case None
    then show ?thesis
      using machine_frame_refines [OF Cons.prems assms, of fr] by auto
  next
    case (Some s)
    then obtain m' cs where m': "machine_frame hz fr m = Inr (m', cs)" "abs_machine m' = s" "stamps m' = stamps m" "machine_wf m'"
      using machine_frame_refines [OF Cons.prems assms, of fr] by auto
    then show ?thesis
      using Some Cons.IH [OF m'(4)] by (simp add: abs_run_calls)
  qed
qed simp

lemma machine_run_isa:
  assumes "machine_wf m" and "hz \<noteq> 0"
  shows "abs_run (machine_run hz t t' frs m) = isa_run (t, t') frs (abs_machine m)"
proof -
  let ?m = "m\<lparr>delay_timer := timer_start t (delay_timer m), sound_timer := timer_start t' (sound_timer m)\<rparr>"
  have "machine_wf ?m" "stamps ?m = (t, t')" "abs_machine ?m = abs_machine m"
    using assms(1) by (simp_all add: stamps_def timer_start_def abs_machine_def cong: if_cong)
  then show ?thesis
    using run_loop_refines [OF assms(2), of ?m frs] by (simp add: machine_run_def Let_def)
qed

text \<open>C4: The emulator implements the abstract machine over whole runs. From every well-formed machine, at every clock speed other
  than zero and on every sequence of frames, with any events, keys, random numbers and times, \<open>machine_run\<close> ends in the state that the
  instruction set and the timers prescribe, or goes on, exactly when the abstract machine does; and it fails exactly when
  the abstract machine has no next state.\<close>

theorem machine_run_refines_isa:
  assumes "machine_wf m" and "hz \<noteq> 0"
  shows "abs_run (machine_run hz t t' frs m) = isa_run (t, t') frs (abs_machine m)"
  using assms by (rule machine_run_isa)

text \<open>A program that clears the screen, left in the second frame.\<close>

theorem machine_run_refines_isa_witness:
  "abs_run (machine_run 600 0 0
      (map (\<lambda>evs. \<lparr>events = evs, delay_ticks = 0, sound_ticks = 0,
         inputs = \<lparr>keyboard = \<lambda>_. 0, rand_value = 7\<rparr>, perf_start = 0, perf_end = 0, perf_freq = 1\<rparr>) [[Other_Event], [SDL_QUIT]])
      (power_on ((replicate 4096 0)[513 := 0xE0]))) =
     Some ((abs_machine (power_on ((replicate 4096 0)[513 := 0xE0])))\<lparr>ip := 514\<rparr>, True)"
proof -
  let ?s = "abs_machine (power_on ((replicate 4096 0)[513 := 0xE0]))"
  have "isa_opcode ?s = 0xE0" "decode 0xE0 = Some Clear" "screen ?s = (\<lambda>c r. False)" "ip ?s = 512"
    "delay ?s = 0" "sound ?s = 0"
    by (auto simp: isa_opcode_def power_on_def cpu_init_def MEMORY_PROGRAM_STARTING_ADDRESS_def decode_def Let_def px_clear
        timer_init_def fun_eq_iff)
  note s = this
  have eq: "?s\<lparr>delay := 0, sound := 0\<rparr> = ?s" "?s\<lparr>ip := 514, screen := \<lambda>c r. False\<rparr> = ?s\<lparr>ip := 514\<rparr>"
    using s(3,5,6) by (auto intro!: isa.equality simp del: abs_machine_sel)
  have "isa_step en (?s\<lparr>delay := 0, sound := 0\<rparr>) = Some (?s\<lparr>ip := 514\<rparr>)" for en
    unfolding eq(1) using s eq(2) by (simp add: isa_step_def del: abs_machine_sel)
  then show ?thesis
    by (subst machine_run_refines_isa) (simp_all add: isa_frame_def count_down_def s(5,6) del: abs_machine_sel)
qed

end
