(* ===== verification/Cli.thy ===== *)
theory Cli
  imports Behaviour Execution
begin

text \<open>
  The command line (\<open>main.c\<close>) and the whole program: configuration, arguments, starting the
  machine, loading the ROM, and running or disassembling it. What lies outside, the
  environment variables, the files, SDL, the local time of the log records and the frames, is collected in the
  record \<open>world\<close>. The text of \<open>Exit_Failure\<close> is what the program wrote to the terminal before it ended.
\<close>

section \<open>Operations\<close>

datatype cli_command = CLI_COMMAND_DISASSEMBLE | CLI_COMMAND_RUN

definition usage :: string where
  "usage =
     ''\<newline>'' @
     ''Usage: emulator <COMMAND> <ROM_PATH>\<newline>'' @
     ''\<newline>'' @
     ''COMMAND:\<newline>'' @
     ''    run\<newline>'' @
     ''        Load and run the Chip-8 program rom at ROM_PATH\<newline>'' @
     ''    disassemble\<newline>'' @
     ''        Load and disassemble the Chip-8 program rom at ROM_PATH\<newline>'' @
     ''\<newline>'' @
     ''ROM_PATH:\<newline>'' @
     ''    File path for a Chip-8 Program ROM\<newline>''"

text \<open>\<open>Inl\<close> is the return code 1, with what has been printed.\<close>

definition cli_parse_command :: "string \<Rightarrow> string + cli_command" where
  "cli_parse_command arg =
     (let cmd_disassemble_size = length ''disassemble'' + 1;
          cmd_run_size = length ''run'' + 1;
          max_arg_size = (if cmd_disassemble_size > cmd_run_size then cmd_disassemble_size else cmd_run_size);
          arg_len = strnlen arg max_arg_size in
      if arg_len \<ge> max_arg_size then
        Inl (''error: cli: argument parsing: argument is too big. argv=\"'' @ arg @ ''\"\<newline>'')
      else if strncmp_eq arg ''disassemble'' cmd_disassemble_size then Inr CLI_COMMAND_DISASSEMBLE
      else if strncmp_eq arg ''run'' cmd_run_size then Inr CLI_COMMAND_RUN
      else Inl [])"

record world =
  getenv :: "string \<Rightarrow> string option"
  os_files :: os
  wall_time :: tm
  sdl_ok :: bool
  window_ok :: bool
  start_ticks :: "u64 \<times> u64"
  frames :: "frame list"

text \<open>Both outcomes have the calls to SDL since the start. A run that has not been left yet has not released the window.\<close>

datatype outcome = Disassembled string "sdl_call list" | Ran machine bool "sdl_call list"

definition emulator_main :: "world \<Rightarrow> machine \<Rightarrow> string list \<Rightarrow> outcome res" where
  "emulator_main w machine0 argv =
     res_bind (config_init_from_env (getenv w)
         \<lparr>cfg_log_level = LOG_LEVEL_TRACE, cpu_clock_speed_hz = 0\<rparr>) (\<lambda>cfg.
     let lg = \<lparr>log_config = cfg, local_time = wall_time w\<rparr> in
     if length argv \<noteq> 3 then
       res_bind (log_error lg ''main'' ''ROM_PATH argument not specified'') (\<lambda>txt.
       c_exit (txt @ usage @ ''\<newline>''))
     else
       res_bind (arr_get argv 1) (\<lambda>arg1.
       case cli_parse_command arg1 of
         Inl printed \<Rightarrow>
           res_bind (log_errorf lg ''main'' ''cli: invalid command. argv[1]=\"%s\"'' [Arg_str arg1]) (\<lambda>txt.
           c_exit (printed @ txt @ usage @ ''\<newline>''))
       | Inr command \<Rightarrow>
           res_bind (arr_get argv 2) (\<lambda>rom_file_path.
           res_bind (machine_init (sdl_ok w) (window_ok w) machine0) (\<lambda>m.
           res_bind (machine_load_rom lg (os_files w) m rom_file_path) (\<lambda>m.
           case command of
             CLI_COMMAND_DISASSEMBLE \<Rightarrow>
               res_bind (machine_disassemble m) (\<lambda>out. Inr (Disassembled out (machine_free m)))
           | CLI_COMMAND_RUN \<Rightarrow>
               res_bind (machine_run (cpu_clock_speed_hz cfg) (fst (start_ticks w)) (snd (start_ticks w))
                   (frames w) m) (\<lambda>(m, finished, sdl).
               Inr (Ran m finished (if finished then sdl @ machine_free m else sdl))))))))"

section \<open>Properties\<close>

lemma cli_parse_command_eq:
  assumes "nul \<notin> set arg"
  shows "cli_parse_command arg =
      (if 12 \<le> length arg then
         Inl (''error: cli: argument parsing: argument is too big. argv=\"'' @ arg @ ''\"\<newline>'')
       else if arg = ''disassemble'' then Inr CLI_COMMAND_DISASSEMBLE
       else if arg = ''run'' then Inr CLI_COMMAND_RUN else Inl [])"
proof -
  have names: "strncmp_eq arg ''disassemble'' (length ''disassemble'' + 1) \<longleftrightarrow> arg = ''disassemble''"
    "strncmp_eq arg ''run'' (length ''run'' + 1) \<longleftrightarrow> arg = ''run''"
    unfolding strncmp_eq_commute [of arg]
    by (rule literal_eq [OF assms]; simp add: nul_def)+
  show ?thesis unfolding cli_parse_command_def Let_def names strnlen_def by simp
qed

lemma cli_rejects:
  "\<lbrakk>nul \<notin> set arg; arg \<noteq> ''disassemble''; arg \<noteq> ''run''\<rbrakk> \<Longrightarrow> \<exists>printed. cli_parse_command arg = Inl printed"
  by (simp add: cli_parse_command_eq)

text \<open>The command line accepts exactly the two commands: an argument is parsed as a command
  if and only if it is its name.\<close>

theorem cli_parse_command_iff:
  assumes "nul \<notin> set arg"
  shows "(cli_parse_command arg = Inr CLI_COMMAND_DISASSEMBLE \<longleftrightarrow> arg = ''disassemble'') \<and>
    (cli_parse_command arg = Inr CLI_COMMAND_RUN \<longleftrightarrow> arg = ''run'') \<and>
    ((\<exists>printed. cli_parse_command arg = Inl printed) \<longleftrightarrow> arg \<noteq> ''disassemble'' \<and> arg \<noteq> ''run'')"
proof -
  have "12 \<le> length arg \<Longrightarrow> arg \<noteq> ''disassemble'' \<and> arg \<noteq> ''run''"
    by auto
  with cli_parse_command_eq [OF assms] show ?thesis by auto
qed

theorem cli_parse_command_iff_witness: "cli_parse_command ''run'' = Inr CLI_COMMAND_RUN"
  using cli_parse_command_iff [of "''run''"] by (simp add: nul_def)

lemma cli_commands:
  "cli_parse_command ''disassemble'' = Inr CLI_COMMAND_DISASSEMBLE"
  "cli_parse_command ''run'' = Inr CLI_COMMAND_RUN"
  by (simp_all add: cli_parse_command_def strnlen_def strncmp_eq_def Let_def)

lemma machine_init_ok:
  "length (memory m) = 4096 \<Longrightarrow>
     machine_init True True m = Inr (power_on (font_sprites @ replicate 4016 0)\<lparr>trace := trace m\<rparr>)"
  using machine_init_wp [of m True True]
  by (cases "machine_init True True m")
    (auto simp: machine_init_def memory_init_eq display_init_def init_sdl_def Let_def MEMORY_SIZE_def)

text \<open>Everything before the command is carried out: with a readable ROM that fits, the machine is started and
  loaded.\<close>

definition rom_memory :: "u8 list \<Rightarrow> u8 list" where
  "rom_memory rom = font_sprites @ replicate 432 0 @ rom @ replicate (3584 - length rom) 0"

lemma length_rom_memory: "length rom \<le> 3584 \<Longrightarrow> length (rom_memory rom) = 4096"
  by (simp add: rom_memory_def)

lemma main_boots:
  assumes "length (memory m0) = 4096" and "getenv w ''LOG_LEVEL'' = None"
    and "getenv w ''CPU_CLOCK_HZ'' = None" and "sdl_ok w" and "window_ok w"
    and "open_file (os_files w) path = Some f" and "seek_ok f"
    and "calloc_ok (os_files w) (length (file_bytes f))" and "length (file_bytes f) \<le> read_limit f"
    and "length (file_bytes f) \<le> 3584" and "tm_ok (wall_time w)"
    and "length path + length (strerror_errno (os_files w)) \<le> 900"
  defines "m \<equiv> power_on (rom_memory (file_bytes f))\<lparr>trace := trace m0\<rparr>"
  shows "emulator_main w m0 [prog, ''disassemble'', path] =
      res_bind (machine_disassemble m) (\<lambda>out. Inr (Disassembled out (machine_free m)))"
    and "emulator_main w m0 [prog, ''run'', path] =
      res_bind (machine_run 600 (fst (start_ticks w)) (snd (start_ticks w)) (frames w) m) (\<lambda>(m, finished, sdl).
      Inr (Ran m finished (if finished then sdl @ machine_free m else sdl)))"
proof -
  define m1 where "m1 = power_on (font_sprites @ replicate 4016 0)\<lparr>trace := trace m0\<rparr>"
  have cfg: "config_init_from_env (getenv w) c = Inr (c\<lparr>cfg_log_level := LOG_LEVEL_INFO, cpu_clock_speed_hz := 600\<rparr>)" for c
    using assms(2,3)
    by (simp add: config_init_from_env_def config_init_log_level_def config_init_cpu_clock_speed_def
        log_level_parse_def)
  have init: "machine_init (sdl_ok w) (window_ok w) m0 = Inr m1"
    using machine_init_ok [OF assms(1)] assms(4,5) by (simp add: m1_def)
  have len: "length (memory m1) = 4096" by (simp add: m1_def power_on_def)
  have ok: "rom_readable \<lparr>log_config = cfg, local_time = wall_time w\<rparr> (os_files w) path" for cfg
    using assms(6-12) by (simp add: rom_readable_def)
  have m2: "machine_load_rom \<lparr>log_config = cfg, local_time = wall_time w\<rparr> (os_files w) m1 path = Inr m" for cfg
    unfolding machine_load_rom_eq [OF len ok, unfolded rom_bytes_def assms(6) option.case, OF assms(10)]
    by (simp add: loaded_def m1_def m_def power_on_def rom_memory_def)
  from cfg init m2 show "emulator_main w m0 [prog, ''disassemble'', path] =
      res_bind (machine_disassemble m) (\<lambda>out. Inr (Disassembled out (machine_free m)))"
    "emulator_main w m0 [prog, ''run'', path] =
      res_bind (machine_run 600 (fst (start_ticks w)) (snd (start_ticks w)) (frames w) m) (\<lambda>(m, finished, sdl).
      Inr (Ran m finished (if finished then sdl @ machine_free m else sdl)))"
    by (simp_all add: emulator_main_def cli_commands numeral_2_eq_2 Let_def)
qed

text \<open>The program as a whole disassembles: called as \<open>emulator disassemble ROM\<close> with a
  readable ROM of at most 3584 bytes, it prints the listing of the opcodes of the ROM up to
  the first zero opcode and releases the window, provided that the opcodes before it are instructions and there is such
  a zero opcode in memory.\<close>

theorem main_disassembles_rom:
  assumes "length (memory m0) = 4096" and "getenv w ''LOG_LEVEL'' = None"
    and "getenv w ''CPU_CLOCK_HZ'' = None" and "sdl_ok w" and "window_ok w"
    and "open_file (os_files w) path = Some f" and "seek_ok f"
    and "calloc_ok (os_files w) (length (file_bytes f))" and "length (file_bytes f) \<le> read_limit f"
    and "length (file_bytes f) \<le> 3584" and "tm_ok (wall_time w)"
    and "length path + length (strerror_errno (os_files w)) \<le> 900"
  defines "mem \<equiv> rom_memory (file_bytes f)"
  assumes "n < 1792" and "program_opcode mem n = 0"
    and "\<forall>k<n. program_opcode mem k \<noteq> 0 \<and> decode (program_opcode mem k) \<noteq> None"
  shows "emulator_main w m0 [prog, ''disassemble'', path] =
    Inr (Disassembled (concat (map (program_line mem) [0..<n])) [DestroyRenderer, DestroyWindow, Quit_SDL])"
proof -
  let ?m = "power_on mem\<lparr>trace := trace m0\<rparr>"
  have mem: "memory ?m = mem" "length mem = 4096"
    using assms(10) by (simp_all add: power_on_def mem_def length_rom_memory)
  have "find (program_stops mem) [0..<1792] = Some n"
    using assms(14-16) by (intro find_upt_Some) (auto simp: program_stops_def)
  then have "machine_disassemble ?m = Inr (concat (map (program_line mem) [0..<n]))"
    using machine_disassemble_eq [of ?m] mem by (simp add: assms(15))
  then show ?thesis
    using main_boots(1) [OF assms(1-12), of prog] by (simp add: mem_def machine_free_def display_free_def)
qed

theorem main_disassembles_rom_witness:
  "emulator_main
     \<lparr>getenv = \<lambda>k. None,
      os_files = \<lparr>open_file = \<lambda>p. Some \<lparr>file_bytes = [0x00, 0xE0], seek_ok = True, read_limit = 2\<rparr>,
        calloc_ok = \<lambda>n. True, strerror_errno = []\<rparr>,
      wall_time = local_time quiet, sdl_ok = True, window_ok = True, start_ticks = (0, 0), frames = []\<rparr>
     (power_on (replicate 4096 7)) [''emulator'', ''disassemble'', ''clear.rom''] =
   Inr (Disassembled ''0x0200: OPCODE[0x00E0]: Clear the screen\<newline>'' [DestroyRenderer, DestroyWindow, Quit_SDL])"
proof -
  let ?f = "\<lparr>file_bytes = [0x00, 0xE0] :: u8 list, seek_ok = True, read_limit = 2\<rparr>"
  let ?mem = "font_sprites @ replicate 432 0 @ [0x00, 0xE0] @ replicate 3582 0 :: u8 list"
  have ops: "program_opcode ?mem 0 = 0x00E0" "program_opcode ?mem 1 = 0"
    by (simp_all add: program_opcode_def opcode_at_def nth_append)
  have "program_line ?mem 0 = ''0x0200: OPCODE[0x00E0]: Clear the screen\<newline>''"
    unfolding program_line_def ops
    by (simp add: address_fmt_def opcode_fmt_def fmt_04X_def hex_digit_def Let_def
        disassembler_disassemble_def disassemble_display_clear_def)
  moreover have "decode 0x00E0 = Some Clear" by (simp add: decode_def Let_def)
  ultimately show ?thesis
    using ops
    by (subst main_disassembles_rom [where f = ?f and n = 1]) (simp_all add: power_on_def rom_memory_def)
qed

text \<open>The abstract machine at the start of a program: the memory with the font and the ROM, everything else empty.\<close>

definition isa_start :: "u8 list \<Rightarrow> isa" where
  "isa_start rom =
     \<lparr>V = \<lambda>k. 0, ram = \<lambda>k. if k < 4096 then rom_memory rom ! k else 0, screen = \<lambda>c r. False, calls = [],
      ip = 512, index = 512, delay = 0, sound = 0\<rparr>"

lemma abs_power_on: "abs_machine (power_on (rom_memory rom)\<lparr>trace := t\<rparr>) = isa_start rom"
  by (auto simp: abs_machine_def isa_start_def power_on_def cpu_init_def cpu_stack_contents_def px_clear timer_init_def
      MEMORY_PROGRAM_STARTING_ADDRESS_def REGISTER_COUNT_def fun_eq_iff)

text \<open>What the outside of the program shows of a run: the state it has reached and whether it was left.\<close>

definition ran :: "outcome res \<Rightarrow> (isa \<times> bool) option" where
  "ran r = (case r of Inr (Ran m finished sdl) \<Rightarrow> Some (abs_machine m, finished) | _ \<Rightarrow> None)"

text \<open>C5: The program as a whole runs: called as \<open>emulator run ROM\<close> with a readable ROM of at most 3584 bytes and no
  configuration in the environment, it does what the abstract machine does with this ROM, through any frames: it is left, goes on, or
  fails with it, and the state it reaches is the same.\<close>

theorem main_runs_rom:
  assumes "length (memory m0) = 4096" and "getenv w ''LOG_LEVEL'' = None"
    and "getenv w ''CPU_CLOCK_HZ'' = None" and "sdl_ok w" and "window_ok w"
    and "open_file (os_files w) path = Some f" and "seek_ok f"
    and "calloc_ok (os_files w) (length (file_bytes f))" and "length (file_bytes f) \<le> read_limit f"
    and "length (file_bytes f) \<le> 3584" and "tm_ok (wall_time w)"
    and "length path + length (strerror_errno (os_files w)) \<le> 900"
  shows "ran (emulator_main w m0 [prog, ''run'', path]) = isa_run (start_ticks w) (frames w) (isa_start (file_bytes f))"
proof -
  let ?m = "power_on (rom_memory (file_bytes f))\<lparr>trace := trace m0\<rparr>"
  let ?run = "machine_run 600 (fst (start_ticks w)) (snd (start_ticks w)) (frames w) ?m"
  have "ran (emulator_main w m0 [prog, ''run'', path]) = abs_run ?run"
    unfolding main_boots(2) [OF assms] by (cases ?run) (auto simp: ran_def)
  moreover have "machine_wf ?m" using assms(10) by (simp add: length_rom_memory)
  ultimately show ?thesis
    using machine_run_isa [of ?m 600 "fst (start_ticks w)" "snd (start_ticks w)" "frames w"] abs_power_on by simp
qed

text \<open>The shortest loop: a jump to itself. After two frames it is where it was.\<close>

theorem main_runs_rom_witness:
  "ran (emulator_main
     \<lparr>getenv = \<lambda>k. None,
      os_files = \<lparr>open_file = \<lambda>p. Some \<lparr>file_bytes = [0x12, 0x00], seek_ok = True, read_limit = 2\<rparr>,
        calloc_ok = \<lambda>n. True, strerror_errno = []\<rparr>,
      wall_time = local_time quiet, sdl_ok = True, window_ok = True, start_ticks = (0, 0),
      frames = replicate 2 \<lparr>events = [], delay_ticks = 0, sound_ticks = 0,
        inputs = \<lparr>keyboard = \<lambda>_. 0, rand_value = 7\<rparr>, perf_start = 0, perf_end = 0, perf_freq = 1\<rparr>\<rparr>
     (power_on (replicate 4096 7)) [''emulator'', ''run'', ''loop.rom'']) =
   Some (isa_start [0x12, 0x00], False)"
proof -
  let ?s = "isa_start [0x12, 0x00]"
  have "isa_opcode ?s = 0x1200" "decode 0x1200 = Some (Goto 512)"
    by (simp_all add: isa_opcode_def isa_start_def rom_memory_def nth_append decode_def Let_def word_unat_eq_iff unat_decode)
  then have "isa_step en ?s = Some ?s" for en
    by (simp add: isa_step_def isa_start_def)
  moreover have "?s\<lparr>delay := count_down 0 0 (delay ?s), sound := count_down 0 0 (sound ?s)\<rparr> = ?s"
    by (simp add: isa_start_def count_down_def)
  ultimately show ?thesis
    by (subst main_runs_rom [where f = "\<lparr>file_bytes = [0x12, 0x00], seek_ok = True, read_limit = 2\<rparr>"])
      (simp_all add: isa_frame_def power_on_def numeral_2_eq_2)
qed

text \<open>C14: A command line that is wrong. Without the two arguments the program writes an error record, its usage, and ends.
  An unknown command does the same as long as it has at most 919 characters; a longer one does not fit the buffer of the
  logger and fails an assertion instead. Neither touches the machine, the files or SDL.\<close>

theorem main_bad_arguments:
  assumes "getenv w ''LOG_LEVEL'' = None" and "getenv w ''CPU_CLOCK_HZ'' = None" and "tm_ok (wall_time w)"
    and "nul \<notin> set arg" and "arg \<noteq> ''disassemble''" and "arg \<noteq> ''run''"
  shows "(length argv \<noteq> 3 \<longrightarrow> (\<exists>txt. emulator_main w m0 argv = Inl (Exit_Failure (txt @ usage @ ''\<newline>'')))) \<and>
    (length arg < 920 \<longrightarrow> (\<exists>txt. emulator_main w m0 [prog, arg, path] = Inl (Exit_Failure (txt @ usage @ ''\<newline>'')))) \<and>
    (920 \<le> length arg \<longrightarrow> emulator_main w m0 [prog, arg, path] = Inl Assert_Failure)"
proof -
  have cfg: "config_init_from_env (getenv w) c = Inr (c\<lparr>cfg_log_level := LOG_LEVEL_INFO, cpu_clock_speed_hz := 600\<rparr>)" for c
    using assms(1,2)
    by (simp add: config_init_from_env_def config_init_log_level_def config_init_cpu_clock_speed_def
        log_level_parse_def)
  obtain printed where bad: "cli_parse_command arg = Inl printed"
    using cli_rejects [OF assms(4-6)] by blast
  have fmt: "c_printf ''cli: invalid command. argv[1]=\"%s\"'' [Arg_str arg] =
      Inr (''cli: invalid command. argv[1]=\"'' @ arg @ ''\"'')"
    "c_printf ''ROM_PATH argument not specified'' [Arg_null] = Inr ''ROM_PATH argument not specified''"
    by (simp_all add: printf_simps)
  show ?thesis
    using assms(3) bad
    by (auto simp: emulator_main_def cfg Let_def log_macro_defs log_log_spec fmt
        log_log_spec [where m = "''cli: invalid command. argv[1]=\"'' @ arg @ ''\"''"]
        log_text_length c_exit_def less_log_level_def)
qed

theorem main_bad_arguments_witness:
  "\<exists>txt. emulator_main
     \<lparr>getenv = \<lambda>k. None, os_files = \<lparr>open_file = \<lambda>p. None, calloc_ok = \<lambda>n. True, strerror_errno = []\<rparr>,
      wall_time = local_time quiet, sdl_ok = True, window_ok = True, start_ticks = (0, 0), frames = []\<rparr>
     (power_on []) [''emulator'', ''fly'', ''x.rom''] = Inl (Exit_Failure (txt @ usage @ ''\<newline>''))"
  using main_bad_arguments [of "\<lparr>getenv = \<lambda>k. None, os_files = \<lparr>open_file = \<lambda>p. None, calloc_ok = \<lambda>n. True, strerror_errno = []\<rparr>,
      wall_time = local_time quiet, sdl_ok = True, window_ok = True, start_ticks = (0, 0), frames = []\<rparr>" "''fly''"]
  by (simp add: nul_def)

end
