(* ===== verification/HashTable.thy ===== *)
theory HashTable
  imports Interfaces
begin

text \<open>
  The hash table with open addressing (\<open>hash-table/main.c\<close>). The array of entries is a list;
  a null key is \<open>None\<close>. Whether an allocation of so many bytes succeeds is an input. The probe
  of \<open>hash_table_put\<close> ends because of its assertion, before its counter reaches the capacity. That of
  \<open>hash_table_get\<close> has no such bound: its counter is a 64-bit word that wraps around, and the loop
  is a partial function whose value \<open>None\<close> would stand for not returning; on well-formed tables it is proved
  to return. Capacity and count of a table are sizes, which a \<open>size_t\<close> holds.

  The invariant \<open>table_wf\<close> says that keys are distinct, that the counter counts them, and that
  no free slot lies between the home slot of a key and its slot. The interpretation \<open>table\<close>
  of the locale \<open>bounded_map\<close> shows that \<open>hash_table_put\<close> implements the update of a map.
\<close>

section \<open>State and operations\<close>

record entry =
  key :: "string option"
  val :: int

record hash_table =
  entries :: "entry list"
  capacity :: nat
  count :: nat

definition hash_table_init :: "(nat \<Rightarrow> bool) \<Rightarrow> nat \<Rightarrow> hash_table res" where
  "hash_table_init alloc_ok n =
     (if \<not> alloc_ok n then c_exit ''error: failed to allocate memory for hash table''
      else Inr \<lparr>entries = replicate n \<lparr>key = None, val = 0\<rparr>, capacity = n, count = 0\<rparr>)"

definition hash_table_entry_free :: "entry \<Rightarrow> entry" where
  "hash_table_entry_free e = (if key e \<noteq> None then e\<lparr>key := None\<rparr> else e)"

definition hash_table_free :: "hash_table \<Rightarrow> hash_table" where
  "hash_table_free ht =
     (let freed = map hash_table_entry_free (entries ht) in
      \<lparr>entries = [], capacity = 0, count = 0\<rparr>)"

text \<open>The loop of the hash function takes one character at a time.\<close>

fun fnv_loop :: "u32 \<Rightarrow> string \<Rightarrow> u32" where
  "fnv_loop hash [] = hash"
| "fnv_loop hash (c # cs) = fnv_loop ((hash XOR of_char c) * 16777619) cs"

definition hash_fnv_1a_32 :: "string \<Rightarrow> u32" where
  "hash_fnv_1a_32 k = fnv_loop 2166136261 k"

definition slot_index :: "string \<Rightarrow> nat \<Rightarrow> nat res" where
  "slot_index k cap =
     (if cap = 0 then Inl Division_By_Zero else Inr (unat (hash_fnv_1a_32 k) mod cap))"

lemma res_bind_arg_cong [fundef_cong]:
  "r = r' \<Longrightarrow> (\<And>x. r' = Inr x \<Longrightarrow> f x = g x) \<Longrightarrow> res_bind r f = res_bind r' g"
  by (cases r') simp_all

function put_probe :: "entry list \<Rightarrow> nat \<Rightarrow> string \<Rightarrow> nat \<Rightarrow> nat \<Rightarrow> nat res" where
  "put_probe es cap k i cnt =
     res_bind (arr_get es i) (\<lambda>e.
     if key e \<noteq> None \<and> key e \<noteq> Some k then
       res_bind (c_assert (cnt + 1 < cap)) (\<lambda>_.
       put_probe es cap k ((i + 1) mod cap) (cnt + 1))
     else Inr i)"
  by pat_completeness auto
termination
  by (relation "measure (\<lambda>(es, cap, k, i, cnt). cap - cnt)")
    (auto simp: c_assert_def split: if_splits)

declare put_probe.simps [simp del]

text \<open>Copying the key into a fresh string, or over a string of the same length: the key is in
  the entry afterwards. A failed allocation is a null pointer that \<open>strcpy\<close> writes to.\<close>

definition hash_table_put :: "(nat \<Rightarrow> bool) \<Rightarrow> hash_table \<Rightarrow> string \<Rightarrow> int \<Rightarrow> hash_table res" where
  "hash_table_put alloc_ok ht k value =
     res_bind (slot_index k (capacity ht)) (\<lambda>index.
     res_bind (arr_get (entries ht) index) (\<lambda>e.
     if key e = None then
       (if \<not> alloc_ok (length k + 1) then Inl Null_Deref
        else res_bind (arr_set (entries ht) index \<lparr>key = Some k, val = value\<rparr>) (\<lambda>es.
          Inr (ht\<lparr>entries := es, count := count ht + 1\<rparr>)))
     else
       res_bind (put_probe (entries ht) (capacity ht) k index 0) (\<lambda>i.
       res_bind (arr_get (entries ht) i) (\<lambda>e.
       if key e = None then
         (if \<not> alloc_ok (length k + 1) then Inl Null_Deref
          else res_bind (arr_set (entries ht) i \<lparr>key = Some k, val = value\<rparr>) (\<lambda>es.
            Inr (ht\<lparr>entries := es, count := count ht + 1\<rparr>)))
       else res_bind (arr_set (entries ht) i \<lparr>key = Some k, val = value\<rparr>) (\<lambda>es.
         Inr (ht\<lparr>entries := es\<rparr>))))))"

text \<open>The loop of \<open>hash_table_get\<close>. It calls \<open>strcmp\<close> on the key before it tests it for null. The counter \<open>cnt\<close>
  is a \<open>size_t\<close>: after its greatest value it is zero again.\<close>

partial_function (option) get_loop ::
    "entry list \<Rightarrow> nat \<Rightarrow> nat \<Rightarrow> string \<Rightarrow> nat \<Rightarrow> u64 \<Rightarrow> int option res option" where
  "get_loop es cap ht_count k index cnt =
     (if index \<ge> length es then Some (Inl Out_Of_Bounds)
      else case key (es ! index) of
        None \<Rightarrow> Some (Inl Null_Deref)
      | Some k' \<Rightarrow>
          if k' \<noteq> k then
            if unat (cnt + 1) < ht_count then Some (Inr None)
            else get_loop es cap ht_count k ((index + 1) mod cap) (cnt + 1)
          else Some (Inr (Some (val (es ! index)))))"

definition hash_table_get :: "hash_table \<Rightarrow> string \<Rightarrow> int option res option" where
  "hash_table_get ht k =
     (case slot_index k (capacity ht) of
        Inl e \<Rightarrow> Some (Inl e)
      | Inr index \<Rightarrow>
          (case arr_get (entries ht) index of
             Inl e \<Rightarrow> Some (Inl e)
           | Inr e \<Rightarrow>
               if key e = None then Some (Inr None)
               else get_loop (entries ht) (capacity ht) (count ht) k index 0))"

definition dump_entry :: "nat \<Rightarrow> entry \<Rightarrow> string" where
  "dump_entry i e =
     (case key e of
        None \<Rightarrow> []
      | Some k \<Rightarrow> [CHR 0x5B] @ fmt_u i @ '']: '' @ k @ '' => '' @ fmt_d (val e) @ ''\<newline>'')"

definition hash_table_fdump :: "hash_table \<Rightarrow> string" where
  "hash_table_fdump ht = concat (map (\<lambda>i. dump_entry i (entries ht ! i)) [0..<length (entries ht)])"

text \<open>The program: one stanza per insertion, and the value of the first key, dereferenced without a test. The two
  texts are those of the standard output and of the error stream.\<close>

definition insert_and_dump :: "(nat \<Rightarrow> bool) \<Rightarrow> string \<Rightarrow> int \<Rightarrow> hash_table \<times> string \<Rightarrow> (hash_table \<times> string) res" where
  "insert_and_dump alloc_ok k v =
     (\<lambda>(ht, err).
      res_bind (hash_table_put alloc_ok ht k v) (\<lambda>ht.
      Inr (ht, err @ ''Inserting '' @ [CHR 0x27] @ k @ [CHR 0x27] @ '' => '' @ fmt_d v @ ''\<newline>'' @
               hash_table_fdump ht @ ''----\<newline>'')))"

definition fill_table :: "(nat \<Rightarrow> bool) \<Rightarrow> (hash_table \<times> string) res" where
  "fill_table alloc_ok =
     res_bind (hash_table_init alloc_ok 8) (\<lambda>ht.
     res_bind (insert_and_dump alloc_ok ''hugo'' 2 (ht, [])) (\<lambda>s.
     res_bind (insert_and_dump alloc_ok ''benicio'' 4 s) (\<lambda>s.
     res_bind (insert_and_dump alloc_ok ''miranda'' 8 s) (\<lambda>s.
     res_bind (insert_and_dump alloc_ok ''de'' 16 s) (\<lambda>s.
     insert_and_dump alloc_ok ''oliveira'' 24 s)))))"

definition hash_table_main :: "(nat \<Rightarrow> bool) \<Rightarrow> (hash_table \<times> string \<times> string) res option" where
  "hash_table_main alloc_ok =
     (case fill_table alloc_ok of
        Inl e \<Rightarrow> Some (Inl e)
      | Inr (ht, err) \<Rightarrow>
          map_option (\<lambda>r.
            res_bind r (\<lambda>v.
            case v of
              None \<Rightarrow> Inl Null_Deref
            | Some n \<Rightarrow>
                Inr (hash_table_free ht, ''=== Hash Table implementation ===\<newline>hugo => '' @ fmt_d n @ ''\<newline>'', err)))
            (hash_table_get ht ''hugo''))"

section \<open>Invariant and abstraction\<close>

definition key_at :: "entry list \<Rightarrow> nat \<Rightarrow> string option" where
  "key_at es j = key (es ! j)"

definition home :: "nat \<Rightarrow> string \<Rightarrow> nat" where
  "home cap k = unat (hash_fnv_1a_32 k) mod cap"

definition probe :: "nat \<Rightarrow> string \<Rightarrow> nat \<Rightarrow> nat" where
  "probe cap k d = (home cap k + d) mod cap"

definition used :: "entry list \<Rightarrow> nat set" where
  "used es = {j. j < length es \<and> key_at es j \<noteq> None}"

definition keys_distinct :: "entry list \<Rightarrow> bool" where
  "keys_distinct es \<longleftrightarrow>
     (\<forall>i \<in> used es. \<forall>j \<in> used es. key_at es i = key_at es j \<longrightarrow> i = j)"

definition no_gaps :: "entry list \<Rightarrow> bool" where
  "no_gaps es \<longleftrightarrow>
     (\<forall>j < length es. \<forall>k. key_at es j = Some k \<longrightarrow>
        (\<exists>d < length es. j = probe (length es) k d \<and>
           (\<forall>d' < d. key_at es (probe (length es) k d') \<noteq> None)))"

definition table_wf :: "hash_table \<Rightarrow> bool" where
  "table_wf ht \<longleftrightarrow>
     capacity ht = length (entries ht) \<and> 0 < capacity ht \<and> count ht = card (used (entries ht)) \<and>
     keys_distinct (entries ht) \<and> no_gaps (entries ht)"

definition table_map :: "hash_table \<Rightarrow> string \<Rightarrow> int option" where
  "table_map ht k = map_option val (find (\<lambda>e. key e = Some k) (entries ht))"

lemma finite_used [simp]: "finite (used es)"
  by (simp add: used_def)

lemma keys_distinctD:
  "keys_distinct es \<Longrightarrow> i < length es \<Longrightarrow> j < length es \<Longrightarrow> key_at es i = Some k \<Longrightarrow>
     key_at es j = Some k \<Longrightarrow> i = j"
  by (simp add: keys_distinct_def used_def)

lemma table_map_Some:
  assumes "keys_distinct (entries ht)"
  shows "table_map ht k = Some v \<longleftrightarrow>
    (\<exists>j < length (entries ht). key_at (entries ht) j = Some k \<and> val (entries ht ! j) = v)"
proof
  assume "table_map ht k = Some v"
  then show "\<exists>j < length (entries ht). key_at (entries ht) j = Some k \<and> val (entries ht ! j) = v"
    by (auto simp: table_map_def find_Some_iff key_at_def)
next
  assume "\<exists>j < length (entries ht). key_at (entries ht) j = Some k \<and> val (entries ht ! j) = v"
  then obtain j where j: "j < length (entries ht)" "key_at (entries ht) j = Some k" "val (entries ht ! j) = v"
    by blast
  have "key (entries ht ! i) \<noteq> Some k" if "i < j" for i
    using keys_distinctD [OF assms _ j(1) _ j(2), of i] j(1) that by (auto simp: key_at_def)
  with j have "find (\<lambda>e. key e = Some k) (entries ht) = Some (entries ht ! j)"
    by (auto simp: find_Some_iff key_at_def)
  with j(3) show "table_map ht k = Some v" by (simp add: table_map_def)
qed

lemma table_map_None:
  "table_map ht k = None \<longleftrightarrow> (\<forall>j < length (entries ht). key_at (entries ht) j \<noteq> Some k)"
  by (auto simp: table_map_def find_None_iff key_at_def in_set_conv_nth)

text \<open>The number of keys is the number of used slots.\<close>

lemma dom_table_map:
  assumes "keys_distinct (entries ht)"
  shows "bij_betw (\<lambda>j. the (key_at (entries ht) j)) (used (entries ht)) (dom (table_map ht))"
proof (rule bij_betw_imageI)
  show "inj_on (\<lambda>j. the (key_at (entries ht) j)) (used (entries ht))"
    using assms by (auto simp: inj_on_def keys_distinct_def used_def)
  show "(\<lambda>j. the (key_at (entries ht) j)) ` used (entries ht) = dom (table_map ht)"
    by (force simp: dom_def table_map_Some [OF assms] used_def)
qed

lemma card_dom_table_map:
  "table_wf ht \<Longrightarrow> card (dom (table_map ht)) = count ht \<and> finite (dom (table_map ht))"
  using dom_table_map [of ht] bij_betw_same_card [OF dom_table_map [of ht]]
    bij_betw_finite [OF dom_table_map [of ht]] by (simp add: table_wf_def)

section \<open>Probing\<close>

lemma probe_less [simp]: "0 < cap \<Longrightarrow> probe cap k d < cap"
  by (simp add: probe_def)

lemma probe_next: "0 < cap \<Longrightarrow> (probe cap k d + 1) mod cap = probe cap k (Suc d)"
  by (simp add: probe_def mod_simps)

lemma probe_onto:
  assumes "j < cap"
  shows "\<exists>d<cap. probe cap k d = j"
proof -
  have h: "home cap k < cap" using assms by (simp add: home_def)
  show ?thesis
  proof (cases "home cap k \<le> j")
    case True
    with assms show ?thesis by (intro exI [of _ "j - home cap k"]) (simp add: probe_def)
  next
    case False
    with assms h show ?thesis
      by (intro exI [of _ "j + cap - home cap k"]) (auto simp: probe_def)
  qed
qed

text \<open>A slot at which the probe for a key stops.\<close>

definition stops :: "entry list \<Rightarrow> string \<Rightarrow> nat \<Rightarrow> bool" where
  "stops es k j \<longleftrightarrow> key_at es j = None \<or> key_at es j = Some k"

lemma put_probe_spec:
  assumes "0 < length es"
  shows "d < length es \<Longrightarrow>
    (if \<exists>d'. d \<le> d' \<and> d' < length es \<and> stops es k (probe (length es) k d')
     then \<exists>d'. d \<le> d' \<and> d' < length es \<and>
       put_probe es (length es) k (probe (length es) k d) d = Inr (probe (length es) k d') \<and>
       stops es k (probe (length es) k d') \<and>
       (\<forall>d''. d \<le> d'' \<longrightarrow> d'' < d' \<longrightarrow> \<not> stops es k (probe (length es) k d''))
     else put_probe es (length es) k (probe (length es) k d) d = Inl Assert_Failure)"
proof (induction "length es - d" arbitrary: d rule: less_induct)
  case less
  let ?n = "length es"
  have in_range: "probe ?n k d < ?n" using assms by simp
  show ?case
  proof (cases "stops es k (probe ?n k d)")
    case True
    then have "put_probe es ?n k (probe ?n k d) d = Inr (probe ?n k d)"
      using in_range by (subst put_probe.simps) (auto simp: stops_def key_at_def)
    with True less.prems show ?thesis by auto
  next
    case go: False
    then have step: "put_probe es ?n k (probe ?n k d) d =
        res_bind (c_assert (d + 1 < ?n)) (\<lambda>_. put_probe es ?n k (probe ?n k (Suc d)) (d + 1))"
      using in_range probe_next [OF assms, of k d]
      by (subst put_probe.simps) (auto simp: stops_def key_at_def)
    have split: "d \<le> d' \<longleftrightarrow> d' = d \<or> Suc d \<le> d'" for d' by auto
    show ?thesis
    proof (cases "Suc d < ?n")
      case True
      then have "put_probe es ?n k (probe ?n k d) d = put_probe es ?n k (probe ?n k (Suc d)) (Suc d)"
        using step by (simp add: c_assert_def)
      moreover have "?n - Suc d < ?n - d" using True by simp
      note less.hyps [OF this True]
      ultimately show ?thesis
        using go unfolding split by (auto split: if_splits)
    next
      case False
      then have "put_probe es ?n k (probe ?n k d) d = Inl Assert_Failure"
        using step by (simp add: c_assert_def)
      moreover have "d' = d" if "d \<le> d'" "d' < ?n" for d'
        using that False less.prems by linarith
      ultimately show ?thesis using go by auto
    qed
  qed
qed

section \<open>Insertion\<close>

lemma key_at_update:
  "i < length es \<Longrightarrow> key_at (es[i := \<lparr>key = Some k, val = v\<rparr>]) j = (if j = i then Some k else key_at es j)"
  by (cases "j < length es") (auto simp: key_at_def nth_list_update)

lemma table_wfD:
  assumes "table_wf ht"
  shows "capacity ht = length (entries ht)" "0 < length (entries ht)" "count ht = card (used (entries ht))"
    "keys_distinct (entries ht)" "no_gaps (entries ht)"
  using assms by (auto simp: table_wf_def)

text \<open>The slot where the probe for a key stops first.\<close>

definition first_stop :: "entry list \<Rightarrow> string \<Rightarrow> nat \<Rightarrow> bool" where
  "first_stop es k d \<longleftrightarrow> d < length es \<and> stops es k (probe (length es) k d) \<and>
     (\<forall>d' < d. \<not> stops es k (probe (length es) k d'))"

lemma first_stop_less: "first_stop es k d \<Longrightarrow> probe (length es) k d < length es"
  unfolding first_stop_def by (rule probe_less) linarith

lemma first_stopI:
  assumes "d < length es" and "stops es k (probe (length es) k d)"
  shows "\<exists>d. first_stop es k d"
  using ex_least_nat_le [of "\<lambda>d. stops es k (probe (length es) k d)" d] assms
  by (auto simp: first_stop_def intro: le_less_trans)

text \<open>If the key is in the table, it is there.\<close>

lemma first_stop_unique:
  assumes "keys_distinct es" and "no_gaps es" and "first_stop es k d"
    and "j < length es" and "key_at es j = Some k"
  shows "j = probe (length es) k d"
proof -
  let ?i = "probe (length es) k d"
  have stop: "stops es k ?i" and before: "\<And>d'. d' < d \<Longrightarrow> \<not> stops es k (probe (length es) k d')"
    using assms(3,4) by (auto simp: first_stop_def)
  note i = first_stop_less [OF assms(3)]
  obtain d0 where d0: "j = probe (length es) k d0"
      "\<And>d'. d' < d0 \<Longrightarrow> key_at es (probe (length es) k d') \<noteq> None"
    using assms(2,4,5) by (auto simp: no_gaps_def)
  have "\<not> d0 < d" using before [of d0] d0(1) assms(5) by (auto simp: stops_def)
  moreover have "d < d0 \<Longrightarrow> j = ?i"
    using d0(2) [of d] stop keys_distinctD [OF assms(1) assms(4) i assms(5)] by (auto simp: stops_def)
  ultimately show ?thesis using d0(1) by (cases "d = d0") auto
qed

text \<open>Writing a key where its probe stops keeps the invariant.\<close>

lemma insert_keeps_distinct:
  assumes "keys_distinct es" and "no_gaps es" and "first_stop es k d"
  shows "keys_distinct (es[probe (length es) k d := \<lparr>key = Some k, val = v\<rparr>])"
proof -
  define i where "i = probe (length es) k d"
  have i: "i < length es" using first_stop_less [OF assms(3)] by (simp add: i_def)
  have uniq: "j = i" if "j < length es" "key_at es j = Some k" for j
    using first_stop_unique [OF assms that] by (simp add: i_def)
  have "a = b" if "a < length es" "b < length es" "key_at (es[i := \<lparr>key = Some k, val = v\<rparr>]) a = Some k'"
      "key_at (es[i := \<lparr>key = Some k, val = v\<rparr>]) b = Some k'" for a b k'
    using that keys_distinctD [OF assms(1), of a b k'] uniq [of a] uniq [of b]
    unfolding key_at_update [OF i] by (metis option.inject)
  then show ?thesis
    unfolding i_def [symmetric] by (auto simp: keys_distinct_def used_def)
qed

lemma insert_keeps_no_gaps:
  assumes "no_gaps es" and "first_stop es k d"
  shows "no_gaps (es[probe (length es) k d := \<lparr>key = Some k, val = v\<rparr>])"
proof -
  let ?i = "probe (length es) k d" and ?es = "es[probe (length es) k d := \<lparr>key = Some k, val = v\<rparr>]"
  note i = first_stop_less [OF assms(2)]
  show ?thesis
    unfolding no_gaps_def length_list_update
  proof (intro allI impI)
    fix j k'
    assume j: "j < length es" "key_at ?es j = Some k'"
    show "\<exists>d<length es. j = probe (length es) k' d \<and> (\<forall>d'<d. key_at ?es (probe (length es) k' d') \<noteq> None)"
    proof (cases "j = ?i")
      case True
      with j have "k' = k" by (simp add: key_at_update [OF i])
      then show ?thesis
        using True assms(2) by (intro exI [of _ d]) (auto simp: first_stop_def key_at_update [OF i] stops_def)
    next
      case False
      with j have "key_at es j = Some k'" by (simp add: key_at_update [OF i])
      with j(1) assms(1) obtain d0 where "d0 < length es" "j = probe (length es) k' d0"
          "\<forall>d'<d0. key_at es (probe (length es) k' d') \<noteq> None"
        unfolding no_gaps_def by blast
      then show ?thesis
        by (intro exI [of _ d0]) (simp add: key_at_update [OF i])
    qed
  qed
qed

lemma insert_used:
  assumes "i < length es"
  shows "card (used (es[i := \<lparr>key = Some k, val = v\<rparr>])) =
    (if key_at es i = None then card (used es) + 1 else card (used es))"
proof -
  have "used (es[i := \<lparr>key = Some k, val = v\<rparr>]) = insert i (used es)"
    using assms by (auto simp: used_def key_at_update)
  moreover have "i \<in> used es \<longleftrightarrow> key_at es i \<noteq> None" using assms by (simp add: used_def)
  ultimately show ?thesis by (auto simp: insert_absorb)
qed

definition insert_at :: "hash_table \<Rightarrow> string \<Rightarrow> int \<Rightarrow> nat \<Rightarrow> hash_table" where
  "insert_at ht k v i =
     ht\<lparr>entries := (entries ht)[i := \<lparr>key = Some k, val = v\<rparr>],
        count := (if key_at (entries ht) i = None then count ht + 1 else count ht)\<rparr>"

lemma insert_at_wf:
  assumes "table_wf ht" and "first_stop (entries ht) k d"
  shows "table_wf (insert_at ht k v (probe (capacity ht) k d))"
proof -
  note wf = table_wfD [OF assms(1)]
  have "probe (length (entries ht)) k d < length (entries ht)" using wf(2) by simp
  from insert_used [OF this, of k v] show ?thesis
    using wf insert_keeps_distinct [OF wf(4,5) assms(2), of v] insert_keeps_no_gaps [OF wf(5) assms(2), of v]
    by (simp add: table_wf_def insert_at_def)
qed

lemma insert_at_map:
  assumes "table_wf ht" and "first_stop (entries ht) k d"
  shows "table_map (insert_at ht k v (probe (capacity ht) k d)) = (table_map ht)(k \<mapsto> v)"
proof (rule ext)
  fix k'
  define i where "i = probe (capacity ht) k d"
  note wf = table_wfD [OF assms(1)]
  have wf': "keys_distinct (entries (insert_at ht k v i))"
    using insert_at_wf [OF assms, of v] by (simp add: table_wf_def i_def)
  have i: "i < length (entries ht)" using wf(1,2) by (simp add: i_def)
  have stop: "key_at (entries ht) i = None \<or> key_at (entries ht) i = Some k"
    using assms(2) wf(1) by (simp add: first_stop_def stops_def i_def)
  have uniq: "j = i" if "j < length (entries ht)" "key_at (entries ht) j = Some k" for j
    using first_stop_unique [OF wf(4,5) assms(2) that] wf(1) by (simp add: i_def)
  have at: "key_at (entries (insert_at ht k v i)) j = (if j = i then Some k else key_at (entries ht) j)"
    "val (entries (insert_at ht k v i) ! j) = (if j = i then v else val (entries ht ! j))"
    "length (entries (insert_at ht k v i)) = length (entries ht)" for j
    using i by (simp_all add: insert_at_def key_at_update nth_list_update)
  have "j < length (entries ht) \<and> key_at (entries (insert_at ht k v i)) j = Some k' \<and>
      val (entries (insert_at ht k v i) ! j) = x \<longleftrightarrow>
    (if k' = k then j = i \<and> x = v
     else j < length (entries ht) \<and> key_at (entries ht) j = Some k' \<and> val (entries ht ! j) = x)" for j x
  proof (cases "j = i")
    case True
    with i stop show ?thesis by (auto simp: at)
  next
    case False
    then have "j < length (entries ht) \<Longrightarrow> key_at (entries ht) j \<noteq> Some k" using uniq by blast
    with False show ?thesis by (auto simp: at)
  qed
  then have "table_map (insert_at ht k v i) k' = Some x \<longleftrightarrow> ((table_map ht)(k \<mapsto> v)) k' = Some x" for x
    unfolding table_map_Some [OF wf'] at(3) by (auto simp: table_map_Some [OF wf(4)])
  then show "table_map (insert_at ht k v (probe (capacity ht) k d)) k' = ((table_map ht)(k \<mapsto> v)) k'"
    unfolding i_def by (metis not_Some_eq)
qed

text \<open>\<open>hash_table_put\<close> writes at the first stop of the probe; without one the table is full of
  other keys.\<close>

lemma hash_table_put_at:
  assumes "table_wf ht" and "alloc_ok (length k + 1)" and "first_stop (entries ht) k d"
  shows "hash_table_put alloc_ok ht k v = Inr (insert_at ht k v (probe (capacity ht) k d))"
proof -
  note wf = table_wfD [OF assms(1)]
  let ?n = "length (entries ht)"
  have home: "slot_index k (capacity ht) = Inr (probe ?n k 0)" "probe ?n k 0 < ?n"
    using wf(1,2) by (simp_all add: slot_index_def probe_def home_def)
  obtain d' where d': "d' < ?n" "put_probe (entries ht) ?n k (probe ?n k 0) 0 = Inr (probe ?n k d')"
      "stops (entries ht) k (probe ?n k d')" "\<And>d''. d'' < d' \<Longrightarrow> \<not> stops (entries ht) k (probe ?n k d'')"
    using put_probe_spec [OF wf(2), of 0 k] assms(3) wf(2) by (auto simp: first_stop_def split: if_splits)
  then have "d' = d"
    using assms(3) by (metis first_stop_def linorder_neqE_nat)
  moreover have "d = 0" if "key_at (entries ht) (probe ?n k 0) = None"
    using assms(3) that by (metis first_stop_def gr0I stops_def)
  moreover have "probe ?n k d < ?n" using wf(2) by simp
  ultimately show ?thesis
    using home d'(2) assms(2) wf(1)
    by (auto simp: hash_table_put_def insert_at_def key_at_def)
qed

lemma hash_table_put_full:
  assumes "table_wf ht" and "\<not> (\<exists>d. first_stop (entries ht) k d)"
  shows "hash_table_put alloc_ok ht k v = Inl Assert_Failure"
proof -
  note wf = table_wfD [OF assms(1)]
  let ?n = "length (entries ht)"
  have none: "\<not> stops (entries ht) k (probe ?n k d)" if "d < ?n" for d
    using first_stopI [OF that] assms(2) by blast
  have home: "slot_index k (capacity ht) = Inr (probe ?n k 0)" "probe ?n k 0 < ?n"
    using wf(1,2) by (simp_all add: slot_index_def probe_def home_def)
  moreover have "put_probe (entries ht) ?n k (probe ?n k 0) 0 = Inl Assert_Failure"
    using put_probe_spec [OF wf(2), of 0 k] none wf(2) by (auto split: if_splits)
  moreover have "key_at (entries ht) (probe ?n k 0) \<noteq> None" using none [of 0] wf(2) by (auto simp: stops_def)
  ultimately show ?thesis
    using wf(1) by (auto simp: hash_table_put_def key_at_def)
qed

text \<open>The probe stops exactly when the key is present or a slot is free.\<close>

lemma first_stop_iff:
  assumes "table_wf ht"
  shows "(\<exists>d. first_stop (entries ht) k d) \<longleftrightarrow> k \<in> dom (table_map ht) \<or> count ht < capacity ht"
proof -
  note wf = table_wfD [OF assms]
  let ?es = "entries ht"
  have sub: "used ?es \<subseteq> {..<length ?es}" by (auto simp: used_def)
  have "(\<exists>d. first_stop ?es k d) \<longleftrightarrow> (\<exists>j<length ?es. stops ?es k j)"
    using first_stopI [of _ ?es k] probe_onto [of _ "length ?es" k] first_stop_less [of ?es k]
    by (metis first_stop_def)
  also have "\<dots> \<longleftrightarrow> k \<in> dom (table_map ht) \<or> \<not> {..<length ?es} \<subseteq> used ?es"
    by (auto simp: stops_def dom_def table_map_Some [OF wf(4)] used_def)
  also have "\<not> {..<length ?es} \<subseteq> used ?es \<longleftrightarrow> used ?es \<noteq> {..<length ?es}"
    using sub by blast
  also have "used ?es \<noteq> {..<length ?es} \<longleftrightarrow> count ht < capacity ht"
    using card_seteq [OF finite_lessThan sub] wf(1,3) by (metis card_lessThan le_less_linear less_irrefl_nat)
  finally show ?thesis .
qed

lemma put_spec:
  assumes "table_wf ht" and "alloc_ok (length k + 1)"
  shows "if k \<in> dom (table_map ht) \<or> count ht < capacity ht
    then \<exists>ht'. hash_table_put alloc_ok ht k v = Inr ht' \<and> table_wf ht' \<and>
      table_map ht' = (table_map ht)(k \<mapsto> v) \<and> capacity ht' = capacity ht
    else hash_table_put alloc_ok ht k v = Inl Assert_Failure"
proof (cases "\<exists>d. first_stop (entries ht) k d")
  case True
  then obtain d where d: "first_stop (entries ht) k d" ..
  with True assms hash_table_put_at [where alloc_ok = alloc_ok, OF assms(1) _ d] insert_at_wf [OF assms(1) d] insert_at_map [OF assms(1) d]
  show ?thesis
    using first_stop_iff [OF assms(1), of k] by (auto simp: insert_at_def)
next
  case False
  then show ?thesis
    using first_stop_iff [OF assms(1), of k] hash_table_put_full [OF assms(1) False] by auto
qed

interpretation table: bounded_map "hash_table_put (\<lambda>n. True)" table_map capacity table_wf
proof
  fix s k v
  assume "table_wf s" and "k \<in> dom (table_map s) \<or> card (dom (table_map s)) < capacity s"
  then show "\<exists>s'. hash_table_put (\<lambda>n. True) s k v = Inr s' \<and> table_wf s' \<and>
      table_map s' = (table_map s)(k \<mapsto> v) \<and> capacity s' = capacity s"
    using put_spec [of s "\<lambda>n. True" k v] card_dom_table_map [of s] by auto
next
  fix s
  assume "table_wf s"
  then show "finite (dom (table_map s))" using card_dom_table_map by blast
qed

lemma init_wf:
  assumes "0 < n"
  shows "table_wf \<lparr>entries = replicate n \<lparr>key = None, val = 0\<rparr>, capacity = n, count = 0\<rparr>"
    and "table_map \<lparr>entries = replicate n \<lparr>key = None, val = 0\<rparr>, capacity = n, count = 0\<rparr> = Map.empty"
  using assms
  by (auto simp: table_wf_def keys_distinct_def no_gaps_def used_def key_at_def table_map_def fun_eq_iff
      find_None_iff)

section \<open>The program\<close>

text \<open>A table given by its cells.\<close>

fun cell_entry :: "(string \<times> int) option \<Rightarrow> entry" where
  "cell_entry None = \<lparr>key = None, val = 0\<rparr>"
| "cell_entry (Some (k, v)) = \<lparr>key = Some k, val = v\<rparr>"

definition table_of :: "(string \<times> int) option list \<Rightarrow> hash_table" where
  "table_of cs = \<lparr>entries = map cell_entry cs, capacity = length cs, count = length (filter (\<lambda>c. \<not> Option.is_none c) cs)\<rparr>"

lemma key_cell_entry [simp]: "key (cell_entry c) = map_option fst c"
  by (cases c rule: cell_entry.cases) auto

lemma count_update:
  assumes "i < length cs" and "cs ! i = None"
  shows "length (filter (\<lambda>c. \<not> Option.is_none c) (cs[i := Some x])) = Suc (length (filter (\<lambda>c. \<not> Option.is_none c) cs))"
  using assms
proof (induction cs arbitrary: i)
  case (Cons c cs)
  then show ?case by (cases i) auto
qed simp

lemma put_free_cell:
  assumes "slot_index k n = Inr i" and "length cs = n" and "i < n" and "cs ! i = None"
  shows "hash_table_put (\<lambda>_. True) (table_of cs) k v = Inr (table_of (cs[i := Some (k, v)]))"
  using assms by (simp add: hash_table_put_def table_of_def count_update map_update)

lemma put_next_cell:
  assumes "slot_index k n = Inr i" and "length cs = n" and "Suc i < n" and "cs ! i = Some (k', v')" and "k' \<noteq> k"
    and "cs ! Suc i = None"
  shows "hash_table_put (\<lambda>_. True) (table_of cs) k v = Inr (table_of (cs[Suc i := Some (k, v)]))"
proof -
  have "put_probe (map cell_entry cs) (length cs) k i 0 = Inr (Suc i)"
    using assms(2-6) by (subst put_probe.simps) (simp add: c_assert_def, subst put_probe.simps, simp)
  then show ?thesis
    using assms by (simp add: hash_table_put_def table_of_def count_update map_update)
qed

lemma get_home_cell:
  assumes "slot_index k n = Inr i" and "length cs = n" and "i < n" and "cs ! i = Some (k, v)"
  shows "hash_table_get (table_of cs) k = Some (Inr (Some v))"
  using assms by (simp add: hash_table_get_def table_of_def get_loop.simps)

lemma init_table_of: "hash_table_init (\<lambda>_. True) n = Inr (table_of (replicate n None))"
  by (simp add: hash_table_init_def table_of_def)

lemma example_slots:
  "slot_index ''hugo'' 8 = Inr 4" "slot_index ''benicio'' 8 = Inr 6" "slot_index ''miranda'' 8 = Inr 7"
  "slot_index ''de'' 8 = Inr 2" "slot_index ''oliveira'' 8 = Inr 2"
  by (simp_all add: slot_index_def hash_fnv_1a_32_def)

text \<open>The five insertions: the last key collides and takes the next cell.\<close>

definition example_cells :: "(string \<times> int) option list list" where
  "example_cells =
     [[None, None, None, None, None, None, None, None],
      [None, None, None, None, Some (''hugo'', 2), None, None, None],
      [None, None, None, None, Some (''hugo'', 2), None, Some (''benicio'', 4), None],
      [None, None, None, None, Some (''hugo'', 2), None, Some (''benicio'', 4), Some (''miranda'', 8)],
      [None, None, Some (''de'', 16), None, Some (''hugo'', 2), None, Some (''benicio'', 4), Some (''miranda'', 8)],
      [None, None, Some (''de'', 16), Some (''oliveira'', 24), Some (''hugo'', 2), None,
       Some (''benicio'', 4), Some (''miranda'', 8)]]"

lemma example_puts:
  "hash_table_put (\<lambda>_. True) (table_of (example_cells ! 0)) ''hugo'' 2 = Inr (table_of (example_cells ! 1))"
  "hash_table_put (\<lambda>_. True) (table_of (example_cells ! 1)) ''benicio'' 4 = Inr (table_of (example_cells ! 2))"
  "hash_table_put (\<lambda>_. True) (table_of (example_cells ! 2)) ''miranda'' 8 = Inr (table_of (example_cells ! 3))"
  "hash_table_put (\<lambda>_. True) (table_of (example_cells ! 3)) ''de'' 16 = Inr (table_of (example_cells ! 4))"
  "hash_table_put (\<lambda>_. True) (table_of (example_cells ! 4)) ''oliveira'' 24 = Inr (table_of (example_cells ! 5))"
  by ((rule trans [OF put_free_cell [OF example_slots(1)]] trans [OF put_free_cell [OF example_slots(2)]]
        trans [OF put_free_cell [OF example_slots(3)]] trans [OF put_free_cell [OF example_slots(4)]]
        trans [OF put_next_cell [where k' = "''de''" and v' = 16, OF example_slots(5)]];
      simp add: example_cells_def numeral_eq_Suc)+)

text \<open>The program prints the table after each insertion and the value of the first key, and ends.\<close>

lemma hash_table_main_output:
  "hash_table_main (\<lambda>_. True) =
     Some (Inr (\<lparr>entries = [], capacity = 0, count = 0\<rparr>,
       ''=== Hash Table implementation ===\<newline>hugo => 2\<newline>'',
       ''Inserting '' @ [CHR 0x27] @ ''hugo'' @ [CHR 0x27] @ '' => 2\<newline>[4]: hugo => 2\<newline>----\<newline>'' @
       ''Inserting '' @ [CHR 0x27] @ ''benicio'' @ [CHR 0x27] @ '' => 4\<newline>[4]: hugo => 2\<newline>[6]: benicio => 4\<newline>----\<newline>'' @
       ''Inserting '' @ [CHR 0x27] @ ''miranda'' @ [CHR 0x27] @
         '' => 8\<newline>[4]: hugo => 2\<newline>[6]: benicio => 4\<newline>[7]: miranda => 8\<newline>----\<newline>'' @
       ''Inserting '' @ [CHR 0x27] @ ''de'' @ [CHR 0x27] @
         '' => 16\<newline>[2]: de => 16\<newline>[4]: hugo => 2\<newline>[6]: benicio => 4\<newline>[7]: miranda => 8\<newline>----\<newline>'' @
       ''Inserting '' @ [CHR 0x27] @ ''oliveira'' @ [CHR 0x27] @
         '' => 24\<newline>[2]: de => 16\<newline>[3]: oliveira => 24\<newline>[4]: hugo => 2\<newline>[6]: benicio => 4\<newline>[7]: miranda => 8\<newline>----\<newline>''))"
proof -
  have dumps:
    "hash_table_fdump (table_of (example_cells ! 1)) = ''[4]: hugo => 2\<newline>''"
    "hash_table_fdump (table_of (example_cells ! 2)) = ''[4]: hugo => 2\<newline>[6]: benicio => 4\<newline>''"
    "hash_table_fdump (table_of (example_cells ! 3)) =
       ''[4]: hugo => 2\<newline>[6]: benicio => 4\<newline>[7]: miranda => 8\<newline>''"
    "hash_table_fdump (table_of (example_cells ! 4)) =
       ''[2]: de => 16\<newline>[4]: hugo => 2\<newline>[6]: benicio => 4\<newline>[7]: miranda => 8\<newline>''"
    "hash_table_fdump (table_of (example_cells ! 5)) =
       ''[2]: de => 16\<newline>[3]: oliveira => 24\<newline>[4]: hugo => 2\<newline>[6]: benicio => 4\<newline>[7]: miranda => 8\<newline>''"
    by code_simp+
  have init: "hash_table_init (\<lambda>_. True) 8 = Inr (table_of (example_cells ! 0))"
    unfolding init_table_of by code_simp
  have digits: "fmt_d 2 = ''2''" "fmt_d 4 = ''4''" "fmt_d 8 = ''8''" "fmt_d 16 = ''16''" "fmt_d 24 = ''24''"
    by code_simp+
  have get: "hash_table_get (table_of (example_cells ! 5)) ''hugo'' = Some (Inr (Some 2))"
    by (rule get_home_cell [OF example_slots(1)]; simp add: example_cells_def)
  show ?thesis
    unfolding hash_table_main_def fill_table_def insert_and_dump_def init res_bind.simps prod.case example_puts dumps digits
    by (simp add: get digits hash_table_free_def)
qed

section \<open>Properties\<close>

text \<open>C17: \<open>hash_table_put\<close> implements the update of a map: on a well-formed table it sets the key
  to the value and changes no other key, keeps the table well formed, and stops at its
  assertion exactly when the key is new and the table is full.\<close>

theorem hash_table_put_refines_update:
  assumes "table_wf ht" and "alloc_ok (length k + 1)"
  shows "if k \<in> dom (table_map ht) \<or> count ht < capacity ht
    then \<exists>ht'. hash_table_put alloc_ok ht k v = Inr ht' \<and> table_wf ht' \<and>
      table_map ht' = (table_map ht)(k \<mapsto> v)
    else hash_table_put alloc_ok ht k v = Inl Assert_Failure"
  using put_spec [of ht alloc_ok k v] assms by (auto split: if_splits)

theorem hash_table_put_refines_update_witness:
  "\<exists>ht'. hash_table_put (\<lambda>n. True)
      \<lparr>entries = replicate 8 \<lparr>key = None, val = 0\<rparr>, capacity = 8, count = 0\<rparr> ''hugo'' 2 = Inr ht' \<and>
     table_map ht' ''hugo'' = Some 2"
  using hash_table_put_refines_update [OF init_wf(1) [of 8], of "\<lambda>n. True" "''hugo''" 2] by auto

text \<open>C18: A table filled by any sequence of puts, from \<open>hash_table_init\<close> on, holds the last value
  put for every key, as long as the number of different keys is within its capacity.\<close>

theorem hash_table_holds_last_puts:
  assumes "0 < n" and "card (fst ` set kvs) \<le> n"
  shows "\<exists>ht ht'. hash_table_init (\<lambda>n. True) n = Inr ht \<and>
    fold_res (\<lambda>s (k, v). hash_table_put (\<lambda>n. True) s k v) ht kvs = Inr ht' \<and>
    table_wf ht' \<and> table_map ht' = map_of (rev kvs)"
  using table.put_all [OF init_wf(1) [OF assms(1)], of kvs] assms init_wf(2) [OF assms(1)]
  by (auto simp: hash_table_init_def)

theorem hash_table_holds_last_puts_witness:
  "\<exists>ht ht'. hash_table_init (\<lambda>n. True) 2 = Inr ht \<and>
    fold_res (\<lambda>s (k, v). hash_table_put (\<lambda>n. True) s k v) ht [(''a'', 1), (''b'', 2), (''a'', 3)] = Inr ht' \<and>
    table_map ht' ''a'' = Some 3 \<and> table_map ht' ''b'' = Some 2"
proof -
  have "card (fst ` set [(''a'', 1), (''b'', 2), (''a'', 3 :: int)]) \<le> 2"
    by (simp add: card_insert_if)
  then show ?thesis
    using hash_table_holds_last_puts [of 2 "[(''a'', 1), (''b'', 2), (''a'', 3)]"] by fastforce
qed

text \<open>With one slot, taken by another key, the loop of \<open>hash_table_get\<close> looks at the same slot again and again. The
  test \<open>++count < ht->count\<close> fails as long as the counter is not zero, so that the loop ends only when the counter
  wraps around.\<close>

lemma get_loop_single_slot:
  assumes "length es = 1" and "key (es ! 0) = Some k'" and "k' \<noteq> k"
  shows "get_loop es 1 1 k 0 cnt = (if cnt + 1 = 0 then Some (Inr None) else get_loop es 1 1 k 0 (cnt + 1))"
  using assms by (subst get_loop.simps) (auto simp: unat_eq_zero)

lemma get_loop_wraps:
  assumes "length es = 1" and "key (es ! 0) = Some k'" and "k' \<noteq> k"
  shows "get_loop es 1 1 k 0 cnt = Some (Inr None)"
proof (induction "unat (- (cnt + 1))" arbitrary: cnt rule: less_induct)
  case less
  show ?case
  proof (cases "cnt + 1 = 0")
    case True
    then show ?thesis using get_loop_single_slot [OF assms, of cnt] by simp
  next
    case False
    then have "- (cnt + 1) \<noteq> 0" by (simp only: neg_equal_0_iff_equal not_False_eq_True)
    then have "unat (- (cnt + 1) - 1) < unat (- (cnt + 1))" by (simp add: unat_minus_one unat_gt_0 del: minus_add_distrib)
    then have "unat (- (cnt + 1 + 1)) < unat (- (cnt + 1))" by (simp add: algebra_simps)
    from less.hyps [OF this] False show ?thesis using get_loop_single_slot [OF assms, of cnt] by simp
  qed
qed

lemma used_single:
  assumes "card (used es) \<le> 1" and "i \<in> used es" and "j < length es" and "j \<noteq> i"
  shows "key_at es j = None"
proof (rule ccontr)
  assume "key_at es j \<noteq> None"
  with assms(3) have "{i, j} \<subseteq> used es" using assms(2) by (simp add: used_def)
  from card_mono [OF finite_used this] assms(1,4) show False by simp
qed

text \<open>C19: What \<open>hash_table_get\<close> does, on every well-formed table, is decided by the home slot of the
  key. It returns the value if the key is there, and null if the slot is free. If another key is
  there, it returns null without looking further when the table holds at least two keys; with
  one key it dereferences a null pointer, unless the table has only that one slot: then it returns null, after its
  counter, a 64-bit word, has wrapped around. It returns, or stops at the null pointer, in every case.\<close>

theorem hash_table_get_spec:
  fixes k :: string
  assumes "table_wf ht"
  defines "h \<equiv> home (capacity ht) k"
  shows "hash_table_get ht k =
    (case key_at (entries ht) h of
       None \<Rightarrow> Some (Inr None)
     | Some k' \<Rightarrow>
         if k' = k then Some (Inr (Some (val (entries ht ! h))))
         else if 2 \<le> count ht then Some (Inr None)
         else if capacity ht = 1 then Some (Inr None)
         else Some (Inl Null_Deref))"
proof -
  note wf = table_wfD [OF assms(1)]
  have h: "h < length (entries ht)" using wf(1,2) by (simp add: h_def home_def)
  have get: "hash_table_get ht k = (if key_at (entries ht) h = None then Some (Inr None)
      else get_loop (entries ht) (length (entries ht)) (count ht) k h 0)"
    using wf(1,2) h by (simp add: hash_table_get_def slot_index_def key_at_def h_def home_def)
  show ?thesis
  proof (cases "key_at (entries ht) h")
    case None
    then show ?thesis by (simp add: get)
  next
    case (Some k')
    then have in_used: "h \<in> used (entries ht)" using h by (simp add: used_def)
    have step: "get_loop (entries ht) (length (entries ht)) (count ht) k h 0 =
        (if k' = k then Some (Inr (Some (val (entries ht ! h))))
         else if 2 \<le> count ht then Some (Inr None)
         else get_loop (entries ht) (length (entries ht)) (count ht) k ((h + 1) mod length (entries ht)) 1)"
      using h Some by (subst get_loop.simps) (auto simp: key_at_def)
    show ?thesis
    proof (cases "k' \<noteq> k \<and> \<not> 2 \<le> count ht")
      case True
      then have few: "card (used (entries ht)) \<le> 1" using wf(3) by simp
      have count: "count ht = 1"
        using few in_used wf(3) card_gt_0_iff [of "used (entries ht)"] by fastforce
      show ?thesis
      proof (cases "length (entries ht) = 1")
        case one: True
        then have "h = 0" using h by simp
        then show ?thesis
          using one True wf(1,3) in_used Some step get get_loop_wraps [of "entries ht" k' k 1] count
          by (simp add: key_at_def)
      next
        case False
        define j where "j = (h + 1) mod length (entries ht)"
        have j: "j < length (entries ht)" "j \<noteq> h"
          using h False wf(2) by (auto simp: j_def mod_Suc)
        from used_single [OF few in_used this] j(1)
        have "get_loop (entries ht) (length (entries ht)) (count ht) k j 1 = Some (Inl Null_Deref)"
          by (subst get_loop.simps) (simp add: key_at_def)
        with False True wf(1) Some step get show ?thesis by (simp add: j_def)
      qed
    next
      case False
      then show ?thesis using Some step get by auto
    qed
  qed
qed

text \<open>A table of one slot that holds the key \<open>a\<close>, asked for \<open>b\<close>.\<close>

theorem hash_table_get_spec_witness:
  "hash_table_get \<lparr>entries = [\<lparr>key = Some ''a'', val = 1\<rparr>], capacity = 1, count = 1\<rparr> ''b'' = Some (Inr None)"
proof -
  let ?ht = "\<lparr>entries = [\<lparr>key = Some ''a'', val = 1\<rparr>], capacity = 1, count = 1\<rparr>"
  have "used (entries ?ht) = {0}" by (auto simp: used_def key_at_def)
  then have "table_wf ?ht"
    by (simp add: table_wf_def keys_distinct_def no_gaps_def probe_def home_def)
  from hash_table_get_spec [OF this, of "''b''"] show ?thesis
    by (simp add: home_def key_at_def)
qed

end
