(* ===== verification/Defer.thy ===== *)
theory Defer
  imports Interfaces
begin

text \<open>
  Deferred calls (\<open>defer/defer.h\<close>, \<open>defer/defer.c\<close>) and the program that compares three ways
  of releasing resources (\<open>defer/main.c\<close>). A function pointer and a pointer argument are
  values of type parameters, and what calling an item does to the state of the program is a
  parameter \<open>run\<close> of \<open>defer_scope_end\<close>. In \<open>main.c\<close> the state is the list of the effects so
  far: allocations, releases and error messages; which allocations succeed is an input.
\<close>

section \<open>State and operations\<close>

definition DEFER_ITEMS_MAX_SIZE :: nat where
  "DEFER_ITEMS_MAX_SIZE = 16"

datatype ('f, 'a) defer_item =
    DEFER_ITEM_KIND_NO_ARG 'f
  | DEFER_ITEM_KIND_SINGLE_PTR_ARG 'f 'a

record ('f, 'a) defer_scope =
  items :: "('f, 'a) defer_item list"
  len :: nat

definition defer_scope_begin :: "('f, 'a) defer_scope \<Rightarrow> ('f, 'a) defer_scope" where
  "defer_scope_begin d = d\<lparr>len := 0\<rparr>"

definition defer_push_no_arg :: "('f, 'a) defer_scope \<Rightarrow> 'f \<Rightarrow> ('f, 'a) defer_scope res" where
  "defer_push_no_arg d func =
     res_bind (c_assert (len d < DEFER_ITEMS_MAX_SIZE)) (\<lambda>_.
     res_bind (arr_set (items d) (len d) (DEFER_ITEM_KIND_NO_ARG func)) (\<lambda>xs.
     Inr (d\<lparr>items := xs, len := len d + 1\<rparr>)))"

definition defer_push_single_ptr_arg :: "('f, 'a) defer_scope \<Rightarrow> 'f \<Rightarrow> 'a \<Rightarrow> ('f, 'a) defer_scope res" where
  "defer_push_single_ptr_arg d func arg =
     res_bind (c_assert (len d < DEFER_ITEMS_MAX_SIZE)) (\<lambda>_.
     res_bind (arr_set (items d) (len d) (DEFER_ITEM_KIND_SINGLE_PTR_ARG func arg)) (\<lambda>xs.
     Inr (d\<lparr>items := xs, len := len d + 1\<rparr>)))"

text \<open>The loop of \<open>defer_scope_end\<close>: \<open>n\<close> items are left, the next one of index \<open>n - 1\<close>.\<close>

fun scope_end_loop ::
    "(('f, 'a) defer_item \<Rightarrow> 's \<Rightarrow> 's) \<Rightarrow> ('f, 'a) defer_item list \<Rightarrow> nat \<Rightarrow> 's \<Rightarrow> 's res" where
  "scope_end_loop run xs 0 s = Inr s"
| "scope_end_loop run xs (Suc n) s =
     res_bind (arr_get xs n) (\<lambda>item. scope_end_loop run xs n (run item s))"

definition defer_scope_end ::
    "(('f, 'a) defer_item \<Rightarrow> 's \<Rightarrow> 's) \<Rightarrow> ('f, 'a) defer_scope \<Rightarrow> 's \<Rightarrow> (('f, 'a) defer_scope \<times> 's) res" where
  "defer_scope_end run d s =
     res_bind (scope_end_loop run (items d) (len d) s) (\<lambda>s. Inr (d\<lparr>len := 0\<rparr>, s))"

subsection \<open>The example program\<close>

text \<open>The four allocations have the numbers 1 to 4; \<open>ok n\<close> says whether the one of number \<open>n\<close>
  succeeds. A function returns its code and the effects.\<close>

datatype effect = Malloc nat | Free nat | Perror

definition gotoless_duplicated_approach :: "(nat \<Rightarrow> bool) \<Rightarrow> int \<times> effect list" where
  "gotoless_duplicated_approach ok =
     (let s = [Malloc 1] in
      if \<not> ok 1 then (1, s @ [Perror]) else
      let s = s @ [Malloc 2] in
      if \<not> ok 2 then (1, s @ [Perror] @ [Free 1]) else
      let s = s @ [Malloc 3] in
      if \<not> ok 3 then (1, s @ [Perror] @ [Free 2] @ [Free 1]) else
      let s = s @ [Malloc 4] in
      if \<not> ok 4 then (1, s @ [Perror] @ [Free 3] @ [Free 2] @ [Free 1]) else
      (0, s @ [Free 4] @ [Free 3] @ [Free 2] @ [Free 1]))"

text \<open>A label falls through to the next one.\<close>

definition err_free_1 :: "effect list \<Rightarrow> int \<times> effect list" where
  "err_free_1 s = (1, s @ [Free 1])"

definition err_free_2 :: "effect list \<Rightarrow> int \<times> effect list" where
  "err_free_2 s = err_free_1 (s @ [Free 2])"

definition err_free_3 :: "effect list \<Rightarrow> int \<times> effect list" where
  "err_free_3 s = err_free_2 (s @ [Free 3])"

definition goto_approach :: "(nat \<Rightarrow> bool) \<Rightarrow> int \<times> effect list" where
  "goto_approach ok =
     (let s = [Malloc 1] in
      if \<not> ok 1 then (1, s @ [Perror]) else
      let s = s @ [Malloc 2] in
      if \<not> ok 2 then err_free_1 (s @ [Perror]) else
      let s = s @ [Malloc 3] in
      if \<not> ok 3 then err_free_2 (s @ [Perror]) else
      let s = s @ [Malloc 4] in
      if \<not> ok 4 then err_free_3 (s @ [Perror]) else
      (0, s @ [Free 4] @ [Free 3] @ [Free 2] @ [Free 1]))"

text \<open>The only deferred function is \<open>free\<close>.\<close>

fun run_free :: "(unit, nat) defer_item \<Rightarrow> effect list \<Rightarrow> effect list" where
  "run_free (DEFER_ITEM_KIND_NO_ARG f) s = s"
| "run_free (DEFER_ITEM_KIND_SINGLE_PTR_ARG f p) s = s @ [Free p]"

definition leave_scope :: "int \<Rightarrow> (unit, nat) defer_scope \<Rightarrow> effect list \<Rightarrow> (int \<times> effect list) res" where
  "leave_scope code d s = res_bind (defer_scope_end run_free d s) (\<lambda>(d, s). Inr (code, s))"

definition defer_gotoless_approach ::
    "(unit, nat) defer_scope \<Rightarrow> (nat \<Rightarrow> bool) \<Rightarrow> (int \<times> effect list) res" where
  "defer_gotoless_approach d0 ok =
     (let d = defer_scope_begin d0; s = [Malloc 1] in
      if \<not> ok 1 then leave_scope 1 d (s @ [Perror]) else
      res_bind (defer_push_single_ptr_arg d () 1) (\<lambda>d. let s = s @ [Malloc 2] in
      if \<not> ok 2 then leave_scope 1 d (s @ [Perror]) else
      res_bind (defer_push_single_ptr_arg d () 2) (\<lambda>d. let s = s @ [Malloc 3] in
      if \<not> ok 3 then leave_scope 1 d (s @ [Perror]) else
      res_bind (defer_push_single_ptr_arg d () 3) (\<lambda>d. let s = s @ [Malloc 4] in
      if \<not> ok 4 then leave_scope 1 d (s @ [Perror]) else
      res_bind (defer_push_single_ptr_arg d () 4) (\<lambda>d.
      leave_scope 0 d s)))))"

section \<open>Deferred calls as a bounded list\<close>

definition deferred :: "('f, 'a) defer_scope \<Rightarrow> ('f, 'a) defer_item list" where
  "deferred d = take (len d) (items d)"

definition defer_ok :: "('f, 'a) defer_scope \<Rightarrow> bool" where
  "defer_ok d \<longleftrightarrow> length (items d) = DEFER_ITEMS_MAX_SIZE \<and> len d \<le> DEFER_ITEMS_MAX_SIZE"

fun defer_push :: "('f, 'a) defer_scope \<Rightarrow> ('f, 'a) defer_item \<Rightarrow> ('f, 'a) defer_scope res" where
  "defer_push d (DEFER_ITEM_KIND_NO_ARG func) = defer_push_no_arg d func"
| "defer_push d (DEFER_ITEM_KIND_SINGLE_PTR_ARG func arg) = defer_push_single_ptr_arg d func arg"

lemma defer_push_eq:
  "defer_push d x =
     res_bind (c_assert (len d < DEFER_ITEMS_MAX_SIZE)) (\<lambda>_.
     res_bind (arr_set (items d) (len d) x) (\<lambda>xs. Inr (d\<lparr>items := xs, len := len d + 1\<rparr>)))"
  by (cases x) (simp_all add: defer_push_no_arg_def defer_push_single_ptr_arg_def)

interpretation defers: bounded_push defer_push deferred DEFER_ITEMS_MAX_SIZE defer_ok
proof (unfold_locales, goal_cases)
  case (1 d x)
  then have "len d < DEFER_ITEMS_MAX_SIZE"
    by (simp add: deferred_def defer_ok_def)
  with 1 show ?case
    by (auto simp: defer_push_eq c_assert_def deferred_def defer_ok_def take_Suc_conv_app_nth)
next
  case (2 d x)
  then show ?case
    by (simp add: defer_push_eq c_assert_def deferred_def defer_ok_def)
next
  case (3 d)
  then show ?case by (simp add: deferred_def defer_ok_def)
qed

lemma scope_end_loop_eq:
  "n \<le> length xs \<Longrightarrow> scope_end_loop run xs n s = Inr (foldr run (take n xs) s)"
  by (induction n arbitrary: s) (simp_all add: take_Suc_conv_app_nth)

lemma defer_scope_end_eq:
  "defer_ok d \<Longrightarrow> defer_scope_end run d s = Inr (d\<lparr>len := 0\<rparr>, foldr run (deferred d) s)"
  by (simp add: defer_scope_end_def scope_end_loop_eq deferred_def defer_ok_def)

lemma defer_approach_eq:
  "defer_ok d \<Longrightarrow> defer_gotoless_approach d ok = Inr (gotoless_duplicated_approach ok)"
  by (simp add: defer_gotoless_approach_def gotoless_duplicated_approach_def Let_def
      defer_push_single_ptr_arg_def c_assert_def leave_scope_def defer_scope_begin_def
      defer_scope_end_def DEFER_ITEMS_MAX_SIZE_def defer_ok_def numeral_eq_Suc)

section \<open>Properties\<close>

text \<open>C20: Deferred calls run in reverse order. From the start of a scope, any sequence of up to
  sixteen deferred items is accepted and the end of the scope runs each of them once, the last
  first, on whatever state; a longer sequence is stopped by an assertion.\<close>

theorem deferred_calls_run_in_reverse:
  assumes "defer_ok d"
  shows "if length xs \<le> 16
    then \<exists>d1 d2. fold_res defer_push (defer_scope_begin d) xs = Inr d1 \<and>
      defer_scope_end run d1 s = Inr (d2, fold run (rev xs) s) \<and> len d2 = 0
    else \<exists>e. fold_res defer_push (defer_scope_begin d) xs = Inl e"
proof -
  have ok: "defer_ok (defer_scope_begin d)" and empty: "deferred (defer_scope_begin d) = []"
    using assms by (simp_all add: defer_ok_def defer_scope_begin_def deferred_def)
  show ?thesis
  proof (cases "length xs \<le> 16")
    case True
    then obtain d1 where "fold_res defer_push (defer_scope_begin d) xs = Inr d1" "defer_ok d1" "deferred d1 = xs"
      using defers.push_all [OF ok, of xs] empty by (auto simp: DEFER_ITEMS_MAX_SIZE_def)
    with True show ?thesis
      by (auto simp: defer_scope_end_eq foldr_conv_fold)
  next
    case False
    then show ?thesis
      using defers.push_all_overflow [OF ok, of xs] empty by (simp add: DEFER_ITEMS_MAX_SIZE_def)
  qed
qed

definition new_defer :: "(unit, nat) defer_scope" where
  "new_defer = \<lparr>items = replicate 16 (DEFER_ITEM_KIND_NO_ARG ()), len = 5\<rparr>"

theorem deferred_calls_run_in_reverse_witness:
  "\<exists>d1 d2. fold_res defer_push (defer_scope_begin new_defer)
       [DEFER_ITEM_KIND_SINGLE_PTR_ARG () 7, DEFER_ITEM_KIND_SINGLE_PTR_ARG () 8] = Inr d1 \<and>
     defer_scope_end run_free d1 [] = Inr (d2, [Free 8, Free 7]) \<and> len d2 = 0"
  using deferred_calls_run_in_reverse [of new_defer
      "[DEFER_ITEM_KIND_SINGLE_PTR_ARG () 7, DEFER_ITEM_KIND_SINGLE_PTR_ARG () 8]" run_free "[]"]
  by (simp add: new_defer_def defer_ok_def DEFER_ITEMS_MAX_SIZE_def)

text \<open>C21: The three ways of releasing resources are equivalent: whichever allocations fail, the
  duplicated code, the \<open>goto\<close> version and the deferred version have the same effects in the same
  order and return the same code.\<close>

theorem three_approaches_equivalent:
  assumes "defer_ok d"
  shows "goto_approach ok = gotoless_duplicated_approach ok \<and>
    defer_gotoless_approach d ok = Inr (gotoless_duplicated_approach ok)"
proof
  show "goto_approach ok = gotoless_duplicated_approach ok"
    by (simp add: goto_approach_def gotoless_duplicated_approach_def err_free_1_def err_free_2_def
        err_free_3_def Let_def)
  show "defer_gotoless_approach d ok = Inr (gotoless_duplicated_approach ok)"
    using assms by (rule defer_approach_eq)
qed

theorem three_approaches_equivalent_witness:
  "defer_gotoless_approach new_defer (\<lambda>n. n < 3) =
     Inr (1, [Malloc 1, Malloc 2, Malloc 3, Perror, Free 2, Free 1])"
  using three_approaches_equivalent [of new_defer "\<lambda>n. n < 3"]
  by (simp add: new_defer_def defer_ok_def DEFER_ITEMS_MAX_SIZE_def gotoless_duplicated_approach_def Let_def)

text \<open>No leak and no double free: in the deferred version, every allocation that succeeded is
  released exactly once before the function returns, in the reverse of the order of
  allocation, and nothing else is released.\<close>

theorem defer_frees_what_was_allocated:
  assumes "defer_ok d" and "defer_gotoless_approach d ok = Inr (code, s)"
  shows "[p. Free p \<leftarrow> s] = rev [p. Malloc p \<leftarrow> s, ok p] \<and> (code = 0 \<longleftrightarrow> Perror \<notin> set s)"
proof -
  have "(code, s) = gotoless_duplicated_approach ok"
    using assms by (simp add: defer_approach_eq)
  then show ?thesis
    by (auto simp: gotoless_duplicated_approach_def Let_def split: if_splits)
qed

theorem defer_frees_what_was_allocated_witness:
  "\<exists>code s. defer_gotoless_approach new_defer (\<lambda>n. n < 3) = Inr (code, s) \<and>
     [p. Free p \<leftarrow> s] = rev [p. Malloc p \<leftarrow> s, p < 3]"
proof -
  have ok: "defer_ok new_defer" by (simp add: new_defer_def defer_ok_def DEFER_ITEMS_MAX_SIZE_def)
  obtain code s where "defer_gotoless_approach new_defer (\<lambda>n. n < 3) = Inr (code, s)"
    unfolding defer_approach_eq [OF ok] by (cases "gotoless_duplicated_approach (\<lambda>n. n < 3)") auto
  with defer_frees_what_was_allocated [OF ok this] show ?thesis by blast
qed

text \<open>The program calls the three versions; their results are ignored, and it returns 0 and holds nothing, whichever
  allocations of each of them fail.\<close>

definition defer_main ::
    "(unit, nat) defer_scope \<Rightarrow> (nat \<Rightarrow> bool) \<Rightarrow> (nat \<Rightarrow> bool) \<Rightarrow> (nat \<Rightarrow> bool) \<Rightarrow> (int \<times> effect list list) res" where
  "defer_main d ok1 ok2 ok3 =
     (case gotoless_duplicated_approach ok1 of (_, s1) \<Rightarrow>
      case goto_approach ok2 of (_, s2) \<Rightarrow>
      res_bind (defer_gotoless_approach d ok3) (\<lambda>(_, s3).
      Inr (0, [s1, s2, s3])))"

lemma defer_main_releases:
  assumes "defer_ok d"
  shows "\<exists>s1 s2 s3. defer_main d ok1 ok2 ok3 = Inr (0, [s1, s2, s3]) \<and>
    [p. Free p \<leftarrow> s1] = rev [p. Malloc p \<leftarrow> s1, ok1 p] \<and> [p. Free p \<leftarrow> s2] = rev [p. Malloc p \<leftarrow> s2, ok2 p] \<and>
    [p. Free p \<leftarrow> s3] = rev [p. Malloc p \<leftarrow> s3, ok3 p]"
proof -
  have "goto_approach ok = gotoless_duplicated_approach ok" for ok
    by (simp add: goto_approach_def gotoless_duplicated_approach_def err_free_1_def err_free_2_def
        err_free_3_def Let_def)
  moreover have "[p. Free p \<leftarrow> s] = rev [p. Malloc p \<leftarrow> s, ok p]" if "gotoless_duplicated_approach ok = (c, s)" for ok c s
    using that by (auto simp: gotoless_duplicated_approach_def Let_def split: if_splits)
  ultimately show ?thesis
    using defer_approach_eq [OF assms]
    by (cases "gotoless_duplicated_approach ok1"; cases "gotoless_duplicated_approach ok2";
        cases "gotoless_duplicated_approach ok3") (simp add: defer_main_def)
qed

end
