(* ===== verification/TokenQueue.thy ===== *)
theory TokenQueue
  imports Interfaces
begin

text \<open>
  The ring buffer of look-ahead tokens of the AQLS lexer (\<open>token/queue.h\<close>, \<open>token/queue.c\<close>), for
  any type of items. The interpretation \<open>token_queue\<close> of the locale \<open>bounded_fifo\<close> shows that
  it is a queue: the indices wrap around, the items keep their order.
\<close>

section \<open>State and operations\<close>

record 'a token_queue =
  q_items :: "'a list"
  q_start :: nat
  q_end :: nat
  q_capacity :: nat
  q_len :: nat

text \<open>\<open>calloc\<close> fills the array with zero bytes; \<open>zero\<close> is the item they represent.\<close>

definition aqls_token_queue_init :: "bool \<Rightarrow> 'a \<Rightarrow> nat \<Rightarrow> 'a token_queue res" where
  "aqls_token_queue_init alloc_ok zero cap =
     (if \<not> alloc_ok then c_exit ''error: aqls: token: queue: out of memory.''
      else Inr \<lparr>q_items = replicate cap zero, q_start = 0, q_end = 0, q_capacity = cap, q_len = 0\<rparr>)"

text \<open>The array is released; the pointer and the numbers stay as they are, so that any later access is to memory that
  is no longer there.\<close>

definition aqls_token_queue_free :: "'a token_queue \<Rightarrow> 'a token_queue" where
  "aqls_token_queue_free q = q\<lparr>q_items := []\<rparr>"

definition aqls_token_queue_is_empty :: "'a token_queue \<Rightarrow> bool" where
  "aqls_token_queue_is_empty q \<longleftrightarrow> q_len q = 0"

definition aqls_token_queue_is_full :: "'a token_queue \<Rightarrow> bool" where
  "aqls_token_queue_is_full q \<longleftrightarrow> q_len q = q_capacity q"

definition aqls_token_queue_append :: "'a token_queue \<Rightarrow> 'a \<Rightarrow> 'a token_queue res" where
  "aqls_token_queue_append q item =
     res_bind (c_assert (\<not> aqls_token_queue_is_full q)) (\<lambda>_.
     res_bind (arr_set (q_items q) (q_end q) item) (\<lambda>xs.
     if q_capacity q = 0 then Inl Division_By_Zero
     else Inr (q\<lparr>q_items := xs, q_end := (q_end q + 1) mod q_capacity q, q_len := q_len q + 1\<rparr>)))"

definition aqls_token_queue_pop :: "'a token_queue \<Rightarrow> ('a \<times> 'a token_queue) res" where
  "aqls_token_queue_pop q =
     res_bind (c_assert (\<not> aqls_token_queue_is_empty q)) (\<lambda>_.
     res_bind (arr_get (q_items q) (q_start q)) (\<lambda>token.
     if q_capacity q = 0 then Inl Division_By_Zero
     else Inr (token, q\<lparr>q_start := (q_start q + 1) mod q_capacity q, q_len := q_len q - 1\<rparr>)))"

definition aqls_token_queue_peek :: "'a token_queue \<Rightarrow> 'a res" where
  "aqls_token_queue_peek q =
     res_bind (c_assert (\<not> aqls_token_queue_is_empty q)) (\<lambda>_. arr_get (q_items q) (q_start q))"

section \<open>The queue as a list\<close>

definition queue_wf :: "'a token_queue \<Rightarrow> bool" where
  "queue_wf q \<longleftrightarrow>
     length (q_items q) = q_capacity q \<and> 0 < q_capacity q \<and> q_start q < q_capacity q \<and>
     q_len q \<le> q_capacity q \<and> q_end q = (q_start q + q_len q) mod q_capacity q"

definition queue_items :: "'a token_queue \<Rightarrow> 'a list" where
  "queue_items q = map (\<lambda>i. q_items q ! ((q_start q + i) mod q_capacity q)) [0..<q_len q]"

lemma length_queue_items [simp]: "length (queue_items q) = q_len q"
  by (simp add: queue_items_def)

lemma ring_slots_distinct:
  assumes "s < cap" and "i < n" and "n < (cap :: nat)"
  shows "(s + i) mod cap \<noteq> (s + n) mod cap"
proof
  assume "(s + i) mod cap = (s + n) mod cap"
  then have "cap dvd n - i"
    using mod_eq_dvd_iff_nat [of "s + i" "s + n" cap] assms(2) by simp
  with assms show False by (auto dest: dvd_imp_le)
qed

lemma queue_append_spec:
  assumes "queue_wf q" and "q_len q < q_capacity q"
  shows "\<exists>q'. aqls_token_queue_append q x = Inr q' \<and> queue_wf q' \<and>
    queue_items q' = queue_items q @ [x] \<and> q_capacity q' = q_capacity q"
proof -
  let ?q = "q\<lparr>q_items := (q_items q)[q_end q := x], q_end := (q_end q + 1) mod q_capacity q, q_len := q_len q + 1\<rparr>"
  have in_range: "q_end q < q_capacity q" using assms(1) by (simp add: queue_wf_def)
  have append: "aqls_token_queue_append q x = Inr ?q"
    using assms in_range
    by (simp add: aqls_token_queue_append_def aqls_token_queue_is_full_def c_assert_def queue_wf_def)
  have wf: "queue_wf ?q"
    using assms by (simp add: queue_wf_def mod_simps)
  have old: "((q_items q)[q_end q := x]) ! ((q_start q + i) mod q_capacity q) =
      q_items q ! ((q_start q + i) mod q_capacity q)" if "i < q_len q" for i
    using ring_slots_distinct [of "q_start q" "q_capacity q" i "q_len q"] assms that
    by (simp add: queue_wf_def nth_list_update)
  have new: "((q_items q)[q_end q := x]) ! ((q_start q + q_len q) mod q_capacity q) = x"
    using assms in_range by (simp add: queue_wf_def)
  have "queue_items ?q = queue_items q @ [x]"
    by (auto simp: queue_items_def new old)
  with append wf show ?thesis by simp
qed

lemma queue_pop_spec:
  assumes "queue_wf q" and "queue_items q = y # ys"
  shows "\<exists>q'. aqls_token_queue_pop q = Inr (y, q') \<and> queue_wf q' \<and> queue_items q' = ys \<and>
    q_capacity q' = q_capacity q"
proof -
  let ?q = "q\<lparr>q_start := (q_start q + 1) mod q_capacity q, q_len := q_len q - 1\<rparr>"
  have len: "q_len q = Suc (length ys)"
    using arg_cong [OF assms(2), of length] by simp
  then have upt: "[0..<q_len q] = 0 # map Suc [0..<length ys]"
    by (simp only: map_Suc_upt upt_conv_Cons zero_less_Suc)
  have items: "y = q_items q ! q_start q"
    "ys = map (\<lambda>i. q_items q ! ((q_start q + Suc i) mod q_capacity q)) [0..<length ys]"
    using assms unfolding queue_items_def upt by (simp_all add: queue_wf_def comp_def)
  have "aqls_token_queue_pop q = Inr (y, ?q)"
    using assms(1) len items(1)
    by (simp add: aqls_token_queue_pop_def aqls_token_queue_is_empty_def c_assert_def queue_wf_def)
  moreover have "queue_wf ?q"
    using assms(1) len by (simp add: queue_wf_def mod_simps)
  moreover have "queue_items ?q = ys"
    using len by (subst items(2)) (simp add: queue_items_def mod_simps)
  ultimately show ?thesis by simp
qed

interpretation token_queue: bounded_fifo
  aqls_token_queue_append aqls_token_queue_pop aqls_token_queue_peek queue_items q_capacity queue_wf
proof (unfold_locales, goal_cases)
  case (1 q x)
  then show ?case using queue_append_spec [of q x] by simp
next
  case (2 q x)
  then show ?case
    by (simp add: aqls_token_queue_append_def aqls_token_queue_is_full_def c_assert_def)
next
  case (3 q y ys)
  then show ?case by (rule queue_pop_spec)
next
  case (4 q)
  then have "q_len q = 0" using length_queue_items [of q] by simp
  then show ?case
    by (simp add: aqls_token_queue_pop_def aqls_token_queue_is_empty_def c_assert_def)
next
  case (5 q y ys)
  then have "0 < q_len q" by (cases "q_len q") (simp_all add: queue_items_def)
  moreover from this have "q_items q ! q_start q = y"
    using 5 by (simp add: queue_items_def upt_rec [of 0] queue_wf_def)
  ultimately show ?case
    using 5(1)
    by (simp add: aqls_token_queue_peek_def aqls_token_queue_is_empty_def c_assert_def queue_wf_def)
qed

text \<open>C22: The ring buffer is first in, first out. On a well-formed queue, wherever its start has
  moved to, appending items as long as there is room and then popping until it is empty gives
  the items it held and then the appended ones, in order.\<close>

theorem token_queue_fifo:
  assumes "queue_wf q" and "length (queue_items q) + length xs \<le> q_capacity q"
  shows "\<exists>q1 q2. fold_res aqls_token_queue_append q xs = Inr q1 \<and>
    iter_res (q_len q1) aqls_token_queue_pop q1 = Inr (queue_items q @ xs, q2) \<and>
    aqls_token_queue_is_empty q2"
proof -
  obtain q1 where q1: "fold_res aqls_token_queue_append q xs = Inr q1" "queue_wf q1"
      "queue_items q1 = queue_items q @ xs"
    using token_queue.append_all [OF assms] by blast
  obtain q2 where q2: "iter_res (length (queue_items q1)) aqls_token_queue_pop q1 = Inr (queue_items q1, q2)"
      "queue_items q2 = []"
    using token_queue.drain [OF q1(2) refl] by blast
  from q2(2) have "aqls_token_queue_is_empty q2"
    using length_queue_items [of q2] by (simp add: aqls_token_queue_is_empty_def)
  moreover have "q_len q1 = length (queue_items q1)" by simp
  ultimately show ?thesis using q1 q2(1) by auto
qed

text \<open>A queue of three slots that starts at the last one.\<close>

theorem token_queue_fifo_witness:
  "\<exists>q1 q2. fold_res aqls_token_queue_append
       \<lparr>q_items = [0, 0, 7], q_start = 2, q_end = 0, q_capacity = 3, q_len = 1\<rparr> [8, 9] = Inr q1 \<and>
     iter_res (q_len q1) aqls_token_queue_pop q1 = Inr ([7, 8, 9 :: nat], q2) \<and>
     aqls_token_queue_is_empty q2"
  using token_queue_fifo [of "\<lparr>q_items = [0, 0, 7 :: nat], q_start = 2, q_end = 0, q_capacity = 3, q_len = 1\<rparr>" "[8, 9]"]
  by (simp add: queue_wf_def queue_items_def)

end
