(* ===== verification/Lexer.thy ===== *)
theory Lexer
  imports TokenQueue
begin

text \<open>
  The string views, tokens and lexer of the AQLS parser (\<open>string-view.c\<close>, \<open>token/token.c\<close>,
  \<open>lexer.c\<close>). A pointer into the input is an index, so that the pointer comparisons of the
  lexer are comparisons of numbers. The POSIX regular expressions that \<open>aqls_lexer_init\<close>
  compiles are functions that return the length of the match at the start of a string; in
  a bracket expression a backslash is an ordinary character, so that identifiers may contain
  it. \<open>regexec\<close> reads a C string, so that no match goes past a zero byte of the input.
\<close>

section \<open>String views\<close>

datatype cptr = NullPtr | InputPtr nat | LiteralPtr string

record strview =
  sv_str :: cptr
  sv_len :: nat

definition string_view_empty :: strview where
  "string_view_empty = \<lparr>sv_str = NullPtr, sv_len = 0\<rparr>"

definition string_view_from_sized_cstr :: "cptr \<Rightarrow> nat \<Rightarrow> strview" where
  "string_view_from_sized_cstr str str_len = \<lparr>sv_str = str, sv_len = str_len\<rparr>"

definition string_view_from_cstr :: "string \<Rightarrow> strview" where
  "string_view_from_cstr str = string_view_from_sized_cstr (LiteralPtr str) (length str)"

text \<open>The \<open>n\<close> bytes at a pointer.\<close>

fun read_bytes :: "string \<Rightarrow> cptr \<Rightarrow> nat \<Rightarrow> string res" where
  "read_bytes input NullPtr n = (if n = 0 then Inr [] else Inl Null_Deref)"
| "read_bytes input (InputPtr p) n =
     (if p + n \<le> length input then Inr (take n (drop p input)) else Inl Out_Of_Bounds)"
| "read_bytes input (LiteralPtr s) n = (if n \<le> length s then Inr (take n s) else Inl Out_Of_Bounds)"

definition string_view_fwrite :: "string \<Rightarrow> strview \<Rightarrow> string res" where
  "string_view_fwrite input sv =
     (if sv_str sv \<noteq> NullPtr \<and> sv_len sv > 0 then read_bytes input (sv_str sv) (sv_len sv) else Inr [])"

text \<open>Of the result of \<open>memcmp\<close> the sources only use whether it is zero, which is \<open>True\<close> here.\<close>

definition string_view_cmp :: "string \<Rightarrow> strview \<Rightarrow> strview \<Rightarrow> bool res" where
  "string_view_cmp input a b =
     (let n = (if sv_len a < sv_len b then sv_len a else sv_len b) in
      res_bind (read_bytes input (sv_str a) n) (\<lambda>x.
      res_bind (read_bytes input (sv_str b) n) (\<lambda>y.
      Inr (x = y))))"

definition string_view_cmp_sized_cstr :: "string \<Rightarrow> strview \<Rightarrow> string \<Rightarrow> nat \<Rightarrow> bool res" where
  "string_view_cmp_sized_cstr input a b b_len =
     string_view_cmp input a (string_view_from_sized_cstr (LiteralPtr b) b_len)"

definition string_view_cmp_cstr :: "string \<Rightarrow> strview \<Rightarrow> string \<Rightarrow> bool res" where
  "string_view_cmp_cstr input a b = string_view_cmp_sized_cstr input a b (length b)"

section \<open>Tokens\<close>

datatype aqls_token_kind =
    AQLS_TOKEN_ERROR | AQLS_TOKEN_EOF | AQLS_TOKEN_STRING_LITERAL | AQLS_TOKEN_ID

record aqls_token =
  token_kind :: aqls_token_kind
  lexeme :: strview

fun aqls_token_str :: "aqls_token_kind \<Rightarrow> string" where
  "aqls_token_str AQLS_TOKEN_ERROR = ''ERROR''"
| "aqls_token_str AQLS_TOKEN_EOF = ''EOF''"
| "aqls_token_str AQLS_TOKEN_STRING_LITERAL = ''STRING_LITERAL''"
| "aqls_token_str AQLS_TOKEN_ID = ''ID''"

definition aqls_token_fprint :: "string \<Rightarrow> aqls_token \<Rightarrow> string res" where
  "aqls_token_fprint input t =
     res_bind
       (if token_kind t \<in> {AQLS_TOKEN_STRING_LITERAL, AQLS_TOKEN_ID} \<and> sv_len (lexeme t) > 0
        then res_bind (string_view_fwrite input (lexeme t)) (\<lambda>s. Inr (''('' @ s @ '')''))
        else Inr []) (\<lambda>body.
     Inr (''<'' @ aqls_token_str (token_kind t) @ body @ ''> ''))"

definition aqls_token_eof :: aqls_token where
  "aqls_token_eof = \<lparr>token_kind = AQLS_TOKEN_EOF, lexeme = string_view_empty\<rparr>"

definition aqls_token_error :: aqls_token where
  "aqls_token_error = \<lparr>token_kind = AQLS_TOKEN_ERROR, lexeme = string_view_empty\<rparr>"

definition aqls_token_string_literal :: aqls_token where
  "aqls_token_string_literal = \<lparr>token_kind = AQLS_TOKEN_STRING_LITERAL, lexeme = string_view_empty\<rparr>"

definition aqls_token_id :: "string \<Rightarrow> aqls_token" where
  "aqls_token_id s = \<lparr>token_kind = AQLS_TOKEN_ID, lexeme = string_view_from_cstr s\<rparr>"

section \<open>The patterns\<close>

definition is_ignored :: "char \<Rightarrow> bool" where
  "is_ignored c \<longleftrightarrow> c \<in> {CHR '' '', CHR 0x09, CHR 0x0D, CHR 0x0A}"

definition is_letter :: "char \<Rightarrow> bool" where
  "is_letter c \<longleftrightarrow>
     (65 \<le> (of_char c :: nat) \<and> (of_char c :: nat) \<le> 90) \<or>
     (97 \<le> (of_char c :: nat) \<and> (of_char c :: nat) \<le> 122)"

definition is_id_start :: "char \<Rightarrow> bool" where
  "is_id_start c \<longleftrightarrow> is_letter c \<or> c = CHR ''#''"

definition is_id_char :: "char \<Rightarrow> bool" where
  "is_id_char c \<longleftrightarrow> is_letter c \<or> c = CHR ''#'' \<or> c = CHR ''.'' \<or> c = CHR 0x5C"

definition quote :: char where
  "quote = CHR 0x27"

definition match_ignore :: "string \<Rightarrow> nat option" where
  "match_ignore s = (let n = length (takeWhile is_ignored s) in if n = 0 then None else Some n)"

text \<open>The text of a literal is every character but the quote; the zero byte is the end of the string that is matched.\<close>

definition match_string_literal :: "string \<Rightarrow> nat option" where
  "match_string_literal s =
     (case s of
        [] \<Rightarrow> None
      | c # cs \<Rightarrow>
          let n = length (takeWhile (\<lambda>c. c \<noteq> quote \<and> c \<noteq> nul) cs) in
          if c = quote \<and> n < length cs \<and> cs ! n = quote then Some (n + 2) else None)"

definition match_id :: "string \<Rightarrow> nat option" where
  "match_id s =
     (case s of
        [] \<Rightarrow> None
      | c # cs \<Rightarrow> if is_id_start c then Some (length (takeWhile is_id_char cs) + 1) else None)"

text \<open>The loop over the patterns: the first that matches, with the length of the match.\<close>

definition match_patterns :: "string \<Rightarrow> (aqls_token_kind \<times> nat) option" where
  "match_patterns s =
     (case match_string_literal s of
        Some n \<Rightarrow> Some (AQLS_TOKEN_STRING_LITERAL, n)
      | None \<Rightarrow>
          (case match_id s of
             Some n \<Rightarrow> Some (AQLS_TOKEN_ID, n)
           | None \<Rightarrow> None))"

section \<open>The lexer\<close>

definition AQLS_LOOKAHEAD :: nat where
  "AQLS_LOOKAHEAD = 10"

record aqls_lexer =
  input :: string
  input_len :: nat
  cursor :: nat
  pos :: nat
  lookahead :: "aqls_token token_queue"

text \<open>\<open>regcomp_ok\<close> is whether \<open>regcomp\<close> compiles a pattern; it may lack the memory to do so.\<close>

definition regex_compile_or_die :: "(string \<Rightarrow> bool) \<Rightarrow> string \<Rightarrow> unit res" where
  "regex_compile_or_die regcomp_ok pattern =
     (if regcomp_ok pattern then Inr ()
      else c_exit (''error: aqls: lexer: regex: compilation failed. pattern='' @ [CHR 0x22] @ pattern @ [CHR 0x22]))"

definition ignore_pattern :: string where
  "ignore_pattern = ''^[ '' @ [CHR 0x09, CHR 0x0D, CHR 0x0A] @ '']+''"

definition string_pattern :: string where
  "string_pattern = ''^'' @ [quote] @ ''[^'' @ [quote] @ '']*'' @ [quote]"

definition id_pattern :: string where
  "id_pattern = ''^[a-zA-Z#][a-zA-Z#'' @ [CHR 0x5C] @ ''.]*''"

definition aqls_lexer_init :: "bool \<Rightarrow> (string \<Rightarrow> bool) \<Rightarrow> string \<Rightarrow> nat \<Rightarrow> aqls_lexer res" where
  "aqls_lexer_init alloc_ok regcomp_ok inp inp_len =
     res_bind (aqls_token_queue_init alloc_ok aqls_token_error AQLS_LOOKAHEAD) (\<lambda>q.
     res_bind (regex_compile_or_die regcomp_ok ignore_pattern) (\<lambda>_.
     res_bind (regex_compile_or_die regcomp_ok string_pattern) (\<lambda>_.
     res_bind (regex_compile_or_die regcomp_ok id_pattern) (\<lambda>_.
     Inr \<lparr>input = inp, input_len = inp_len, cursor = 0, pos = 0, lookahead = q\<rparr>))))"

text \<open>After the release every pointer is null; \<open>free\<close> leaves nothing of the queue that could be read.\<close>

definition aqls_lexer_free :: "aqls_lexer \<Rightarrow> aqls_lexer" where
  "aqls_lexer_free l =
     l\<lparr>input := [], input_len := 0, cursor := 0, pos := 0, lookahead := aqls_token_queue_free (lookahead l)\<rparr>"

text \<open>Not implemented yet: it looks at nothing and writes no token.\<close>

definition aqls_lexer_peek_tokens :: "aqls_lexer \<Rightarrow> nat \<Rightarrow> aqls_token list \<Rightarrow> nat \<times> aqls_token list" where
  "aqls_lexer_peek_tokens l n tokens = (0, tokens)"

definition aqls_lexer_has_more_tokens :: "aqls_lexer \<Rightarrow> bool" where
  "aqls_lexer_has_more_tokens l \<longleftrightarrow> pos l < input_len l"

definition advance :: "aqls_lexer \<Rightarrow> nat \<Rightarrow> aqls_lexer res" where
  "advance l offset =
     res_bind (c_assert (pos l + offset \<le> input_len l)) (\<lambda>_.
     Inr (l\<lparr>pos := pos l + offset, cursor := cursor l + offset\<rparr>))"

definition advance_token :: "aqls_lexer \<Rightarrow> aqls_token \<Rightarrow> aqls_lexer res" where
  "advance_token l t =
     res_bind (c_assert (pos l + sv_len (lexeme t) \<le> input_len l)) (\<lambda>_.
     advance l (sv_len (lexeme t)))"

definition skip_ignored :: "aqls_lexer \<Rightarrow> aqls_lexer res" where
  "skip_ignored l =
     (case match_ignore (drop (cursor l) (input l)) of
        None \<Rightarrow> Inr l
      | Some match_len \<Rightarrow>
          res_bind (c_assert (match_len > 0)) (\<lambda>_. advance l match_len))"

definition push_lookahead :: "aqls_lexer \<Rightarrow> aqls_token \<Rightarrow> (aqls_token \<times> aqls_lexer) res" where
  "push_lookahead l t =
     res_bind (aqls_token_queue_append (lookahead l) t) (\<lambda>q. Inr (t, l\<lparr>lookahead := q\<rparr>))"

definition token_at :: "aqls_token_kind \<Rightarrow> nat \<Rightarrow> nat \<Rightarrow> aqls_token" where
  "token_at k c n = \<lparr>token_kind = k, lexeme = \<lparr>sv_str = InputPtr c, sv_len = n\<rparr>\<rparr>"

definition aqls_lexer_peek_token :: "aqls_lexer \<Rightarrow> (aqls_token \<times> aqls_lexer) res" where
  "aqls_lexer_peek_token l =
     (if \<not> aqls_token_queue_is_empty (lookahead l) then
        res_bind (aqls_token_queue_peek (lookahead l)) (\<lambda>t. Inr (t, l))
      else if \<not> aqls_lexer_has_more_tokens l then push_lookahead l aqls_token_eof
      else
        res_bind
          (case match_ignore (drop (cursor l) (input l)) of
             None \<Rightarrow> Inr (cursor l, pos l)
           | Some match_len \<Rightarrow>
               res_bind (c_assert (match_len > 0)) (\<lambda>_.
               res_bind (c_assert (pos l + match_len \<le> input_len l)) (\<lambda>_.
               Inr (cursor l + match_len, pos l + match_len)))) (\<lambda>(c, p).
        if p \<ge> input_len l then push_lookahead l aqls_token_eof
        else
          (case match_patterns (drop c (input l)) of
             Some (k, match_len) \<Rightarrow>
               res_bind (c_assert (match_len > 0)) (\<lambda>_. push_lookahead l (token_at k c match_len))
           | None \<Rightarrow> push_lookahead l (token_at AQLS_TOKEN_ERROR c 0))))"

text \<open>The loop that counts the bytes from the cursor to the lexeme of a token ends if the
  lexeme does not lie before the cursor; else it runs out of the input.\<close>

definition lexeme_offset :: "aqls_lexer \<Rightarrow> cptr \<Rightarrow> nat res" where
  "lexeme_offset l p =
     (case p of
        InputPtr a \<Rightarrow> if cursor l \<le> a then Inr (a - cursor l) else Inl Out_Of_Bounds
      | _ \<Rightarrow> Inl Out_Of_Bounds)"

definition aqls_lexer_next_token :: "aqls_lexer \<Rightarrow> (aqls_token \<times> aqls_lexer) res" where
  "aqls_lexer_next_token l =
     (if \<not> aqls_token_queue_is_empty (lookahead l) then
        res_bind (aqls_token_queue_pop (lookahead l)) (\<lambda>(t, q).
        let l = l\<lparr>lookahead := q\<rparr> in
        if sv_str (lexeme t) \<noteq> NullPtr then
          res_bind (lexeme_offset l (sv_str (lexeme t))) (\<lambda>offset.
          res_bind (advance l offset) (\<lambda>l.
          res_bind (advance_token l t) (\<lambda>l.
          Inr (t, l))))
        else Inr (t, l))
      else if \<not> aqls_lexer_has_more_tokens l then Inr (aqls_token_eof, l)
      else
        res_bind (skip_ignored l) (\<lambda>l.
        if \<not> aqls_lexer_has_more_tokens l then Inr (aqls_token_eof, l)
        else
          (case match_patterns (drop (cursor l) (input l)) of
             Some (k, match_len) \<Rightarrow>
               res_bind (c_assert (match_len > 0)) (\<lambda>_.
               let t = token_at k (cursor l) match_len in
               res_bind (advance_token l t) (\<lambda>l. Inr (t, l)))
           | None \<Rightarrow> Inr (token_at AQLS_TOKEN_ERROR (cursor l) 0, l))))"

text \<open>Lines and columns count from one.\<close>

fun line_column_step :: "nat \<times> nat \<Rightarrow> char \<Rightarrow> nat \<times> nat" where
  "line_column_step (line, column) c = (if c = CHR 0x0A then (line + 1, 1) else (line, column + 1))"

fun line_column_loop :: "string \<Rightarrow> nat \<Rightarrow> nat \<Rightarrow> nat \<times> nat \<Rightarrow> (nat \<times> nat) res" where
  "line_column_loop inp i 0 lc = Inr lc"
| "line_column_loop inp i (Suc n) lc =
     res_bind (arr_get inp i) (\<lambda>c. line_column_loop inp (Suc i) n (line_column_step lc c))"

definition aqls_lexer_get_line_column_from_pos :: "aqls_lexer \<Rightarrow> nat \<Rightarrow> (nat \<times> nat) res" where
  "aqls_lexer_get_line_column_from_pos l p = line_column_loop (input l) 0 (min p (input_len l)) (1, 1)"

definition aqls_lexer_get_line_column :: "aqls_lexer \<Rightarrow> (nat \<times> nat) res" where
  "aqls_lexer_get_line_column l = aqls_lexer_get_line_column_from_pos l (pos l)"

definition aqls_lexer_get_line_column_from_cursor :: "aqls_lexer \<Rightarrow> nat \<Rightarrow> (nat \<times> nat) res" where
  "aqls_lexer_get_line_column_from_cursor l c = line_column_loop (input l) 0 c (1, 1)"

section \<open>What a token is\<close>

text \<open>\<open>scan inp p\<close> is the token after position \<open>p\<close> and the position behind it.\<close>

definition blanks :: "string \<Rightarrow> nat \<Rightarrow> nat" where
  "blanks inp p = length (takeWhile is_ignored (drop p inp))"

definition scan :: "string \<Rightarrow> nat \<Rightarrow> aqls_token \<times> nat" where
  "scan inp p =
     (let c = p + blanks inp p in
      if c \<ge> length inp then (aqls_token_eof, c)
      else case match_patterns (drop c inp) of
        Some (k, n) \<Rightarrow> (token_at k c n, c + n)
      | None \<Rightarrow> (token_at AQLS_TOKEN_ERROR c 0, c))"

definition lexer_wf :: "aqls_lexer \<Rightarrow> bool" where
  "lexer_wf l \<longleftrightarrow>
     queue_wf (lookahead l) \<and> cursor l = pos l \<and> input_len l = length (input l) \<and> pos l \<le> input_len l"

lemma match_patterns_bounds:
  assumes "match_patterns s = Some (k, n)"
  shows "0 < n" "n \<le> length s" "k = AQLS_TOKEN_STRING_LITERAL \<or> k = AQLS_TOKEN_ID"
proof -
  have "length (takeWhile P xs) \<le> length xs" for P and xs :: string
    by (rule length_takeWhile_le)
  with assms show "0 < n" "n \<le> length s" "k = AQLS_TOKEN_STRING_LITERAL \<or> k = AQLS_TOKEN_ID"
    by (auto simp: match_patterns_def match_string_literal_def match_id_def Let_def
        split: option.splits list.splits if_splits)
qed

lemma blanks_bound: "p \<le> length inp \<Longrightarrow> p + blanks inp p \<le> length inp"
  using length_takeWhile_le [of is_ignored "drop p inp"] by (simp add: blanks_def)

lemma match_ignore_blanks:
  "match_ignore (drop p inp) = (if blanks inp p = 0 then None else Some (blanks inp p))"
  by (simp add: match_ignore_def blanks_def Let_def)

lemma scan_bounds:
  assumes "p \<le> length inp"
  shows "p \<le> snd (scan inp p)" "snd (scan inp p) \<le> length inp"
proof -
  have "p + blanks inp p \<le> length inp" using blanks_bound [OF assms] .
  then show "p \<le> snd (scan inp p)" "snd (scan inp p) \<le> length inp"
    using match_patterns_bounds(2) [of "drop (p + blanks inp p) inp"]
    by (auto simp: scan_def Let_def split: option.splits)
qed

text \<open>Without look-ahead, the lexer returns the next token and moves behind it.\<close>

lemma next_token_fresh:
  assumes "lexer_wf l" and "queue_items (lookahead l) = []"
  shows "aqls_lexer_next_token l =
    Inr (fst (scan (input l) (pos l)),
      l\<lparr>pos := snd (scan (input l) (pos l)), cursor := snd (scan (input l) (pos l))\<rparr>)"
proof -
  let ?c = "pos l + blanks (input l) (pos l)"
  have empty: "aqls_token_queue_is_empty (lookahead l)"
    using assms(2) length_queue_items [of "lookahead l"] by (simp add: aqls_token_queue_is_empty_def)
  have l: "cursor l = pos l" "input_len l = length (input l)" "pos l \<le> length (input l)"
    using assms(1) by (simp_all add: lexer_wf_def)
  have c: "?c \<le> length (input l)" using blanks_bound [OF l(3)] .
  have skip: "skip_ignored l = Inr (l\<lparr>pos := ?c, cursor := ?c\<rparr>)"
    using c l by (auto simp: skip_ignored_def match_ignore_blanks advance_def c_assert_def)
  show ?thesis
  proof (cases "pos l < length (input l)")
    case False
    then have "blanks (input l) (pos l) = 0" using l(3) by (simp add: blanks_def)
    with False l empty show ?thesis
      by (simp add: aqls_lexer_next_token_def aqls_lexer_has_more_tokens_def scan_def)
  next
    case True
    then have "aqls_lexer_next_token l =
        (if ?c \<ge> length (input l) then Inr (aqls_token_eof, l\<lparr>pos := ?c, cursor := ?c\<rparr>)
         else case match_patterns (drop ?c (input l)) of
             Some (k, n) \<Rightarrow>
               res_bind (c_assert (n > 0)) (\<lambda>_.
               res_bind (advance_token (l\<lparr>pos := ?c, cursor := ?c\<rparr>) (token_at k ?c n)) (\<lambda>l'. Inr (token_at k ?c n, l')))
           | None \<Rightarrow> Inr (token_at AQLS_TOKEN_ERROR ?c 0, l\<lparr>pos := ?c, cursor := ?c\<rparr>))"
      using l empty skip
      by (simp add: aqls_lexer_next_token_def aqls_lexer_has_more_tokens_def Let_def not_less split: option.splits)
    then show ?thesis
      using match_patterns_bounds(1,2) [of "drop ?c (input l)"] l
      by (auto simp: scan_def Let_def advance_token_def advance_def c_assert_def token_at_def
          split: option.splits)
  qed
qed

text \<open>Looking ahead puts the next token into the queue and does not move.\<close>

lemma peek_token_fresh:
  assumes "lexer_wf l" and "queue_items (lookahead l) = []"
  shows "\<exists>q. aqls_lexer_peek_token l = Inr (fst (scan (input l) (pos l)), l\<lparr>lookahead := q\<rparr>) \<and>
    queue_wf q \<and> queue_items q = [fst (scan (input l) (pos l))]"
proof -
  let ?c = "pos l + blanks (input l) (pos l)"
  have empty: "aqls_token_queue_is_empty (lookahead l)"
    using assms(2) length_queue_items [of "lookahead l"] by (simp add: aqls_token_queue_is_empty_def)
  have l: "cursor l = pos l" "input_len l = length (input l)" "pos l \<le> length (input l)" "queue_wf (lookahead l)"
    using assms(1) by (simp_all add: lexer_wf_def)
  have c: "?c \<le> length (input l)" using blanks_bound [OF l(3)] .
  have push: "\<exists>q. push_lookahead l t = Inr (t, l\<lparr>lookahead := q\<rparr>) \<and> queue_wf q \<and> queue_items q = [t]" for t
  proof -
    have "length (queue_items (lookahead l)) < q_capacity (lookahead l)"
      using l(4) assms(2) by (simp add: queue_wf_def)
    from token_queue.append_ok [OF l(4) this, of t] assms(2) show ?thesis
      by (auto simp: push_lookahead_def)
  qed
  have skip: "(case match_ignore (drop (cursor l) (input l)) of
             None \<Rightarrow> Inr (cursor l, pos l)
           | Some match_len \<Rightarrow>
               res_bind (c_assert (match_len > 0)) (\<lambda>_.
               res_bind (c_assert (pos l + match_len \<le> input_len l)) (\<lambda>_.
               Inr (cursor l + match_len, pos l + match_len)))) = Inr (?c, ?c)"
    using c l by (auto simp: match_ignore_blanks c_assert_def)
  have "aqls_lexer_peek_token l = push_lookahead l (fst (scan (input l) (pos l)))"
  proof (cases "pos l < length (input l)")
    case False
    then have "blanks (input l) (pos l) = 0" using l(3) by (simp add: blanks_def)
    with False l empty show ?thesis
      by (simp add: aqls_lexer_peek_token_def aqls_lexer_has_more_tokens_def scan_def)
  next
    case True
    then show ?thesis
      using empty l match_patterns_bounds(1) [of "drop ?c (input l)"]
      unfolding aqls_lexer_peek_token_def skip
      by (auto simp: aqls_lexer_has_more_tokens_def scan_def Let_def c_assert_def split: option.splits)
  qed
  with push show ?thesis by simp
qed

text \<open>Taking a token that was looked at moves to where taking it at once would have moved to,
  except at the end of the input, where the cursor stays.\<close>

lemma next_token_queued:
  assumes "lexer_wf l" and "queue_items (lookahead l) = [fst (scan (input l) (pos l))]"
  shows "\<exists>q. aqls_lexer_next_token l = Inr (fst (scan (input l) (pos l)),
      l\<lparr>pos := if token_kind (fst (scan (input l) (pos l))) = AQLS_TOKEN_EOF then pos l else snd (scan (input l) (pos l)),
        cursor := if token_kind (fst (scan (input l) (pos l))) = AQLS_TOKEN_EOF then pos l else snd (scan (input l) (pos l)),
        lookahead := q\<rparr>) \<and> queue_wf q \<and> queue_items q = []"
proof -
  let ?c = "pos l + blanks (input l) (pos l)"
  have l: "cursor l = pos l" "input_len l = length (input l)" "pos l \<le> length (input l)" "queue_wf (lookahead l)"
    using assms(1) by (simp_all add: lexer_wf_def)
  have c: "?c \<le> length (input l)" using blanks_bound [OF l(3)] .
  have nonempty: "\<not> aqls_token_queue_is_empty (lookahead l)"
    using assms(2) length_queue_items [of "lookahead l"] by (simp add: aqls_token_queue_is_empty_def)
  obtain q where q: "aqls_token_queue_pop (lookahead l) = Inr (fst (scan (input l) (pos l)), q)"
      "queue_wf q" "queue_items q = []"
    using queue_pop_spec [OF l(4) assms(2)] by auto
  have bounds: "0 < n" "?c + n \<le> length (input l)" "k \<noteq> AQLS_TOKEN_EOF"
    if "match_patterns (drop ?c (input l)) = Some (k, n)" for k n
    using match_patterns_bounds [OF that] c by auto
  show ?thesis
    using nonempty q l c bounds
    by (intro exI [of _ q])
      (auto simp: aqls_lexer_next_token_def scan_def Let_def aqls_token_eof_def string_view_empty_def
        token_at_def lexeme_offset_def advance_def advance_token_def c_assert_def split: option.splits)
qed

section \<open>Correctness of the lexer\<close>

lemma quote_not_nul [simp]: "quote \<noteq> nul" "nul \<noteq> quote"
  by (simp_all add: quote_def nul_def)

lemma match_string_literal_iff:
  "match_string_literal s = Some n \<longleftrightarrow>
     (\<exists>body rest. s = quote # body @ quote # rest \<and> quote \<notin> set body \<and> nul \<notin> set body \<and> n = length body + 2)"
proof
  let ?P = "\<lambda>c. c \<noteq> quote \<and> c \<noteq> nul"
  assume "match_string_literal s = Some n"
  then obtain cs where s: "s = quote # cs" and n: "n = length (takeWhile ?P cs) + 2"
    and q: "length (takeWhile ?P cs) < length cs" "cs ! length (takeWhile ?P cs) = quote"
    by (auto simp: match_string_literal_def Let_def split: list.splits if_splits)
  from q id_take_nth_drop [OF q(1)]
  have "cs = takeWhile ?P cs @ quote # drop (Suc (length (takeWhile ?P cs))) cs"
    by (simp add: takeWhile_eq_take [symmetric])
  moreover have "quote \<notin> set (takeWhile ?P cs)" "nul \<notin> set (takeWhile ?P cs)"
    by (auto dest: set_takeWhileD)
  ultimately show "\<exists>body rest. s = quote # body @ quote # rest \<and> quote \<notin> set body \<and> nul \<notin> set body \<and> n = length body + 2"
    using s n by blast
next
  assume "\<exists>body rest. s = quote # body @ quote # rest \<and> quote \<notin> set body \<and> nul \<notin> set body \<and> n = length body + 2"
  then obtain body rest where
      s: "s = quote # body @ quote # rest" "quote \<notin> set body" "nul \<notin> set body" "n = length body + 2"
    by blast
  then have "takeWhile (\<lambda>c. c \<noteq> quote \<and> c \<noteq> nul) (body @ quote # rest) = body"
    by (subst takeWhile_append2) auto
  with s show "match_string_literal s = Some n" by (simp add: match_string_literal_def)
qed

lemma match_id_iff:
  "match_id s = Some n \<longleftrightarrow>
     (\<exists>c cs. s = c # cs \<and> is_id_start c \<and> n = Suc (length (takeWhile is_id_char cs)))"
  by (auto simp: match_id_def split: list.splits)

lemma quote_not_id_start [simp]: "\<not> is_id_start quote"
  by (simp add: is_id_start_def is_letter_def quote_def)

text \<open>The bytes that a token of each kind stands for, in front of \<open>rest\<close>: a string literal runs
  to the next quote and contains no zero byte, an identifier takes as many characters as it can, there is an error
  token where neither starts.\<close>

fun token_shape :: "aqls_token_kind \<Rightarrow> string \<Rightarrow> string \<Rightarrow> bool" where
  "token_shape AQLS_TOKEN_EOF body rest \<longleftrightarrow> body = [] \<and> rest = []"
| "token_shape AQLS_TOKEN_STRING_LITERAL body rest \<longleftrightarrow>
     (\<exists>s. body = quote # s @ [quote] \<and> quote \<notin> set s \<and> nul \<notin> set s)"
| "token_shape AQLS_TOKEN_ID body rest \<longleftrightarrow>
     (\<exists>c cs. body = c # cs \<and> is_id_start c \<and> list_all is_id_char cs) \<and>
     (case rest of [] \<Rightarrow> True | c # _ \<Rightarrow> \<not> is_id_char c)"
| "token_shape AQLS_TOKEN_ERROR body rest \<longleftrightarrow>
     body = [] \<and> (\<exists>c cs. rest = c # cs \<and> \<not> is_ignored c \<and> \<not> is_id_start c \<and> (c = quote \<longrightarrow> quote \<notin> set (takeWhile (\<lambda>c. c \<noteq> nul) cs)))"

lemma match_patterns_shape:
  assumes "match_patterns s = Some (k, n)"
  shows "token_shape k (take n s) (drop n s)"
proof (cases "match_string_literal s")
  case (Some m)
  with assms have [simp]: "k = AQLS_TOKEN_STRING_LITERAL" "m = n" by (simp_all add: match_patterns_def)
  from Some obtain body rest where
      s: "s = quote # body @ quote # rest" "quote \<notin> set body" "nul \<notin> set body" "n = length body + 2"
    by (auto simp: match_string_literal_iff)
  then have "take n s = quote # body @ [quote]" by simp
  with s(2,3) show ?thesis by simp
next
  case None
  with assms have [simp]: "k = AQLS_TOKEN_ID" and "match_id s = Some n"
    by (simp_all add: match_patterns_def split: option.splits)
  then obtain c cs where s: "s = c # cs" "is_id_start c" "n = Suc (length (takeWhile is_id_char cs))"
    by (auto simp: match_id_iff)
  have "take n s = c # takeWhile is_id_char cs" "drop n s = dropWhile is_id_char cs"
    using s by (simp_all add: takeWhile_eq_take [symmetric] dropWhile_eq_drop [symmetric])
  moreover have "list_all is_id_char (takeWhile is_id_char cs)"
    by (auto simp: list_all_iff dest: set_takeWhileD)
  moreover have "case dropWhile is_id_char cs of [] \<Rightarrow> True | x # _ \<Rightarrow> \<not> is_id_char x"
    by (simp add: dropWhile_eq_Cons_conv split: list.splits)
  ultimately show ?thesis using s(2) by simp
qed

lemma match_patterns_None:
  assumes "match_patterns (c # cs) = None"
  shows "\<not> is_id_start c" and "c = quote \<Longrightarrow> quote \<notin> set (takeWhile (\<lambda>c. c \<noteq> nul) cs)"
proof -
  from assms have none: "match_string_literal (c # cs) = None" "match_id (c # cs) = None"
    by (auto simp: match_patterns_def split: option.splits)
  then show "\<not> is_id_start c" by (simp add: match_id_def split: if_splits)
  show "quote \<notin> set (takeWhile (\<lambda>c. c \<noteq> nul) cs)" if "c = quote"
  proof
    let ?t = "takeWhile (\<lambda>c. c \<noteq> nul) cs"
    assume "quote \<in> set ?t"
    then obtain body rest where b: "?t = body @ quote # rest" "quote \<notin> set body"
      by (meson split_list_first)
    moreover have "nul \<notin> set ?t" by (auto dest: set_takeWhileD)
    moreover have "cs = body @ quote # rest @ dropWhile (\<lambda>c. c \<noteq> nul) cs"
      using takeWhile_dropWhile_id [of "\<lambda>c. c \<noteq> nul" cs] b(1) by simp
    ultimately have "match_string_literal (c # cs) = Some (length body + 2)"
      using that by (auto simp: match_string_literal_iff)
    with none show False by simp
  qed
qed

text \<open>What stands between a position and the end of the next token.\<close>

lemma scan_shape:
  assumes "p \<le> length inp"
  defines "t \<equiv> fst (scan inp p)" and "p' \<equiv> snd (scan inp p)"
  shows "\<exists>ws body. list_all is_ignored ws \<and> drop p inp = ws @ body @ drop p' inp \<and>
    string_view_fwrite inp (lexeme t) = Inr body \<and> token_shape (token_kind t) body (drop p' inp) \<and>
    p' = p + length ws + length body"
proof -
  let ?ws = "takeWhile is_ignored (drop p inp)"
  let ?c = "p + length ?ws"
  have c: "p + blanks inp p = ?c" by (simp add: blanks_def)
  have le: "?c \<le> length inp" using blanks_bound [OF assms(1)] c by simp
  have split: "drop p inp = ?ws @ drop ?c inp"
    by (metis add.commute drop_drop dropWhile_eq_drop takeWhile_dropWhile_id)
  have ws: "list_all is_ignored ?ws" by (auto simp: list_all_iff dest: set_takeWhileD)
  have "\<exists>body. drop ?c inp = body @ drop p' inp \<and> string_view_fwrite inp (lexeme t) = Inr body \<and>
      token_shape (token_kind t) body (drop p' inp) \<and> p' = ?c + length body"
  proof (cases "drop ?c inp")
    case Nil
    then show ?thesis
      using le by (simp add: t_def p'_def scan_def Let_def c aqls_token_eof_def string_view_empty_def
          string_view_fwrite_def)
  next
    case (Cons x xs)
    then have lt: "?c < length inp" using le by (cases "?c < length inp") simp_all
    have x: "\<not> is_ignored x"
      using Cons dropWhile_eq_drop [of is_ignored "drop p inp"]
      by (simp add: add.commute dropWhile_eq_Cons_conv)
    show ?thesis
    proof (cases "match_patterns (drop ?c inp)")
      case None
      with lt have "t = token_at AQLS_TOKEN_ERROR ?c 0" "p' = ?c"
        by (simp_all add: t_def p'_def scan_def Let_def c)
      then show ?thesis
        using x Cons match_patterns_None [of x xs] None
        by (auto simp: token_at_def string_view_fwrite_def)
    next
      case (Some kn)
      then obtain k n where m: "match_patterns (drop ?c inp) = Some (k, n)" by (cases kn) simp
      with lt have "t = token_at k ?c n" "p' = ?c + n"
        by (simp_all add: t_def p'_def scan_def Let_def c)
      then show ?thesis
        using match_patterns_shape [OF m] match_patterns_bounds(1,2) [OF m] lt
        by (intro exI [of _ "take n (drop ?c inp)"])
          (simp add: token_at_def string_view_fwrite_def add.commute del: take_drop drop_drop
            flip: drop_drop)
    qed
  qed
  with split ws show ?thesis by fastforce
qed

text \<open>C23: The lexer splits the input. On a well-formed lexer with an empty look-ahead,
  \<open>aqls_lexer_next_token\<close> returns; the input behind the old position is blanks, then the
  bytes of the returned lexeme, then the input behind the new position; the lexeme has the
  shape of its kind (a string literal up to the next quote, without a zero byte, the longest identifier, nothing
  at the end of the input, nothing in front of a character that starts no token), and a token that is not the end or
  an error moves the position forward.\<close>

theorem next_token_splits_input:
  assumes "lexer_wf l" and "queue_items (lookahead l) = []"
  shows "\<exists>t l' ws body. aqls_lexer_next_token l = Inr (t, l') \<and> lexer_wf l' \<and>
    input l' = input l \<and> queue_items (lookahead l') = [] \<and>
    drop (pos l) (input l) = ws @ body @ drop (pos l') (input l) \<and> list_all is_ignored ws \<and>
    string_view_fwrite (input l) (lexeme t) = Inr body \<and>
    token_shape (token_kind t) body (drop (pos l') (input l)) \<and>
    (token_kind t \<notin> {AQLS_TOKEN_EOF, AQLS_TOKEN_ERROR} \<longrightarrow> pos l < pos l')"
proof -
  let ?t = "fst (scan (input l) (pos l))" and ?p = "snd (scan (input l) (pos l))"
  have le: "pos l \<le> length (input l)" using assms(1) by (simp add: lexer_wf_def)
  obtain ws body where shape: "list_all is_ignored ws" "drop (pos l) (input l) = ws @ body @ drop ?p (input l)"
      "string_view_fwrite (input l) (lexeme ?t) = Inr body"
      "token_shape (token_kind ?t) body (drop ?p (input l))" "?p = pos l + length ws + length body"
    using scan_shape [OF le] by blast
  have "token_kind ?t \<notin> {AQLS_TOKEN_EOF, AQLS_TOKEN_ERROR} \<longrightarrow> pos l < ?p"
    using shape(4,5) by (cases "token_kind ?t") auto
  moreover have "lexer_wf (l\<lparr>pos := ?p, cursor := ?p\<rparr>)"
    using assms(1) scan_bounds(2) [OF le] by (simp add: lexer_wf_def)
  ultimately show ?thesis
    using next_token_fresh [OF assms] shape assms(2) by (intro exI conjI) (assumption | simp)+
qed

definition sample_lexer :: aqls_lexer where
  "sample_lexer = \<lparr>input = ''  WRITE 'hi' END '', input_len = 17, cursor = 0, pos = 0,
     lookahead = \<lparr>q_items = replicate 10 aqls_token_error, q_start = 0, q_end = 0, q_capacity = 10, q_len = 0\<rparr>\<rparr>"

lemma sample_lexer_is_init: "aqls_lexer_init True (\<lambda>_. True) ''  WRITE 'hi' END '' 17 = Inr sample_lexer"
  by (simp add: aqls_lexer_init_def regex_compile_or_die_def aqls_token_queue_init_def sample_lexer_def AQLS_LOOKAHEAD_def)

lemma sample_lexer_ok: "lexer_wf sample_lexer" "queue_items (lookahead sample_lexer) = []"
  by (simp_all add: sample_lexer_def lexer_wf_def queue_wf_def queue_items_def)

theorem next_token_splits_input_witness:
  "\<exists>t l' ws body. aqls_lexer_next_token sample_lexer = Inr (t, l') \<and> lexer_wf l' \<and>
    input l' = input sample_lexer \<and> queue_items (lookahead l') = [] \<and>
    drop (pos sample_lexer) (input sample_lexer) = ws @ body @ drop (pos l') (input sample_lexer) \<and>
    list_all is_ignored ws \<and> string_view_fwrite (input sample_lexer) (lexeme t) = Inr body \<and>
    token_shape (token_kind t) body (drop (pos l') (input sample_lexer)) \<and>
    (token_kind t \<notin> {AQLS_TOKEN_EOF, AQLS_TOKEN_ERROR} \<longrightarrow> pos sample_lexer < pos l')"
  by (rule next_token_splits_input [OF sample_lexer_ok])

text \<open>C24: Looking ahead does not change what the lexer returns. On a well-formed lexer with an
  empty look-ahead, \<open>aqls_lexer_peek_token\<close> returns the token that \<open>aqls_lexer_next_token\<close>
  would return and does not move; a second look returns it again; taking it then gives it
  once more, with the look-ahead empty and the same position as taking it at once, except
  at the end of the input, where the blanks before the end stay unread.\<close>

theorem peek_then_next:
  assumes "lexer_wf l" and "queue_items (lookahead l) = []"
  shows "\<exists>t l1 l2 l3. aqls_lexer_peek_token l = Inr (t, l1) \<and> pos l1 = pos l \<and>
    aqls_lexer_peek_token l1 = Inr (t, l1) \<and>
    aqls_lexer_next_token l1 = Inr (t, l2) \<and> aqls_lexer_next_token l = Inr (t, l3) \<and>
    lexer_wf l2 \<and> queue_items (lookahead l2) = [] \<and>
    pos l2 = (if token_kind t = AQLS_TOKEN_EOF then pos l else pos l3)"
proof -
  let ?t = "fst (scan (input l) (pos l))"
  obtain q where q: "aqls_lexer_peek_token l = Inr (?t, l\<lparr>lookahead := q\<rparr>)" "queue_wf q" "queue_items q = [?t]"
    using peek_token_fresh [OF assms] by blast
  have nonempty: "\<not> aqls_token_queue_is_empty q"
    using q(3) length_queue_items [of q] by (simp add: aqls_token_queue_is_empty_def)
  have again: "aqls_lexer_peek_token (l\<lparr>lookahead := q\<rparr>) = Inr (?t, l\<lparr>lookahead := q\<rparr>)"
    using nonempty token_queue.peek_front [OF q(2,3)] by (simp add: aqls_lexer_peek_token_def)
  have wf: "lexer_wf (l\<lparr>lookahead := q\<rparr>)" using assms(1) q(2) by (simp add: lexer_wf_def)
  have le: "pos l \<le> length (input l)" using assms(1) by (simp add: lexer_wf_def)
  obtain q2 where taken: "aqls_lexer_next_token (l\<lparr>lookahead := q\<rparr>) = Inr (?t,
      l\<lparr>pos := if token_kind ?t = AQLS_TOKEN_EOF then pos l else snd (scan (input l) (pos l)),
        cursor := if token_kind ?t = AQLS_TOKEN_EOF then pos l else snd (scan (input l) (pos l)),
        lookahead := q2\<rparr>)" "queue_wf q2" "queue_items q2 = []"
    using next_token_queued [OF wf] q(3) by (auto cong: if_cong)
  show ?thesis
    using q(1) again taken next_token_fresh [OF assms] assms(1) scan_bounds(2) [OF le]
    by (intro exI conjI) (assumption | simp add: lexer_wf_def)+
qed

theorem peek_then_next_witness:
  "\<exists>t l1 l2 l3. aqls_lexer_peek_token sample_lexer = Inr (t, l1) \<and> pos l1 = pos sample_lexer \<and>
    aqls_lexer_peek_token l1 = Inr (t, l1) \<and>
    aqls_lexer_next_token l1 = Inr (t, l2) \<and> aqls_lexer_next_token sample_lexer = Inr (t, l3) \<and>
    lexer_wf l2 \<and> queue_items (lookahead l2) = [] \<and>
    pos l2 = (if token_kind t = AQLS_TOKEN_EOF then pos sample_lexer else pos l3)"
  by (rule peek_then_next [OF sample_lexer_ok])

section \<open>Lines and columns\<close>

definition line_column_of :: "string \<Rightarrow> nat \<times> nat" where
  "line_column_of s =
     (1 + length (filter (\<lambda>c. c = CHR 0x0A) s), 1 + length (takeWhile (\<lambda>c. c \<noteq> CHR 0x0A) (rev s)))"

lemma line_column_of_snoc: "line_column_of (s @ [c]) = line_column_step (line_column_of s) c"
  by (simp add: line_column_of_def)

lemma line_column_loop_spec:
  "i + n \<le> length inp \<Longrightarrow>
    line_column_loop inp i n (line_column_of (take i inp)) = Inr (line_column_of (take (i + n) inp))"
proof (induction n arbitrary: i)
  case 0
  then show ?case by simp
next
  case (Suc n)
  then have "line_column_step (line_column_of (take i inp)) (inp ! i) = line_column_of (take (Suc i) inp)"
    by (simp add: take_Suc_conv_app_nth line_column_of_snoc)
  with Suc show ?case by simp
qed

text \<open>The position of an error message: the line is one more than the number of newlines before
  it, the column one more than the number of characters since the last of them.\<close>

lemma get_line_column_spec:
  assumes "lexer_wf l"
  shows "aqls_lexer_get_line_column l = Inr (line_column_of (take (pos l) (input l)))"
  using line_column_loop_spec [of 0 "pos l" "input l"] assms
  by (simp add: aqls_lexer_get_line_column_def aqls_lexer_get_line_column_from_pos_def lexer_wf_def
      line_column_of_def)

section \<open>The lexer as a position\<close>

text \<open>For its clients, a lexer is a position in the input, whether the next token has been looked
  at or not.\<close>

definition lexer_at :: "string \<Rightarrow> nat \<Rightarrow> aqls_lexer \<Rightarrow> bool" where
  "lexer_at inp p l \<longleftrightarrow>
     lexer_wf l \<and> input l = inp \<and> pos l = p \<and>
     (queue_items (lookahead l) = [] \<or> queue_items (lookahead l) = [fst (scan inp p)])"

lemma lexer_at_wf: "lexer_at inp p l \<Longrightarrow> lexer_wf l \<and> input l = inp \<and> pos l = p"
  by (simp add: lexer_at_def)

lemma peek_token_at:
  assumes "lexer_at inp p l"
  shows "\<exists>l'. aqls_lexer_peek_token l = Inr (fst (scan inp p), l') \<and> lexer_at inp p l'"
proof (cases "queue_items (lookahead l) = []")
  case True
  then show ?thesis
    using peek_token_fresh [of l] assms by (auto simp: lexer_at_def lexer_wf_def)
next
  case False
  with assms have q: "queue_wf (lookahead l)" "queue_items (lookahead l) = [fst (scan inp p)]"
    by (simp_all add: lexer_at_def lexer_wf_def)
  then have "\<not> aqls_token_queue_is_empty (lookahead l)"
    using length_queue_items [of "lookahead l"] by (simp add: aqls_token_queue_is_empty_def)
  then show ?thesis
    using token_queue.peek_front [OF q] assms by (simp add: aqls_lexer_peek_token_def)
qed

lemma next_token_at:
  assumes "lexer_at inp p l"
  shows "\<exists>l' p'. aqls_lexer_next_token l = Inr (fst (scan inp p), l') \<and> lexer_at inp p' l' \<and>
    (token_kind (fst (scan inp p)) \<noteq> AQLS_TOKEN_EOF \<longrightarrow> p' = snd (scan inp p))"
proof (cases "queue_items (lookahead l) = []")
  case True
  then show ?thesis
    using next_token_fresh [of l] assms scan_bounds(2) [of p inp]
    by (auto simp: lexer_at_def lexer_wf_def)
next
  case False
  with assms have wf: "lexer_wf l" "input l = inp" "pos l = p"
    and q: "queue_items (lookahead l) = [fst (scan (input l) (pos l))]"
    by (auto simp: lexer_at_def)
  then show ?thesis
    using next_token_queued [OF wf(1) q] scan_bounds(2) [of p inp]
    by (auto simp: lexer_at_def lexer_wf_def)
qed

text \<open>Initialisation succeeds exactly when the queue is allocated and the three patterns compile.\<close>

definition patterns_compile :: "(string \<Rightarrow> bool) \<Rightarrow> bool" where
  "patterns_compile regcomp_ok \<longleftrightarrow> regcomp_ok ignore_pattern \<and> regcomp_ok string_pattern \<and> regcomp_ok id_pattern"

lemma lexer_init_fails:
  "\<not> (alloc_ok \<and> patterns_compile regcomp_ok) \<Longrightarrow>
   \<exists>msg. aqls_lexer_init alloc_ok regcomp_ok inp n = Inl (Exit_Failure msg)"
  by (auto simp: aqls_lexer_init_def aqls_token_queue_init_def regex_compile_or_die_def patterns_compile_def c_exit_def)

lemma lexer_init_at:
  "patterns_compile regcomp_ok \<Longrightarrow>
   \<exists>l. aqls_lexer_init True regcomp_ok inp (length inp) = Inr l \<and> lexer_at inp 0 l"
  by (simp add: aqls_lexer_init_def patterns_compile_def regex_compile_or_die_def aqls_token_queue_init_def lexer_at_def lexer_wf_def queue_wf_def
      queue_items_def AQLS_LOOKAHEAD_def)

text \<open>The lexeme of an identifier lies in the input.\<close>

lemma scan_id:
  assumes "p \<le> length inp" and "token_kind (fst (scan inp p)) = AQLS_TOKEN_ID"
  shows "\<exists>c n. fst (scan inp p) = token_at AQLS_TOKEN_ID c n \<and> snd (scan inp p) = c + n \<and>
    p \<le> c \<and> 0 < n \<and> c + n \<le> length inp"
proof -
  let ?c = "p + blanks inp p"
  have "?c \<le> length inp" using blanks_bound [OF assms(1)] .
  moreover obtain k n where "match_patterns (drop ?c inp) = Some (k, n)" "\<not> length inp \<le> ?c"
    using assms(2) by (auto simp: scan_def Let_def aqls_token_eof_def token_at_def split: if_splits option.splits)
  ultimately show ?thesis
    using assms(2) match_patterns_bounds(1,2) [of "drop ?c inp" k n]
    by (auto simp: scan_def Let_def token_at_def)
qed

end
