(* ===== verification/Parser.thy ===== *)
theory Parser
  imports Lexer "HOL-Library.Sublist"
begin

text \<open>
  The syntax tree and the recursive-descent parser of the AQLS parser (\<open>ast/ast.c\<close>,
  \<open>parser.c\<close>). The nodes live in an explicit heap, a list of cells in the order of their allocation, so
  that sharing and reachability are visible; a pointer is an index into it. \<open>malloc_ok n\<close>
  says whether the \<open>n\<close>-th allocation of a node succeeds. The loop over the statements may not
  end for all the types say, so that it is a partial function to options; it is proved to
  return on every input. \<open>grammar\<close> and \<open>program\<close> are the language that the parser accepts. It is larger than the one that
  the comments of \<open>parser.c\<close> describe in two ways: the end of the input is not required behind \<open>END\<close>, and a
  keyword is any identifier that it is a prefix of, or that is a prefix of it.
\<close>

section \<open>The syntax tree\<close>

datatype aqls_ast_stmt_kind = AQLS_AST_STATEMENT_WRITE

datatype ast_cell =
    Ast (ast_unit: "nat option")
  | Compilation_Unit (unit_statements: "nat option") (unit_end: "nat option")
  | Stmt_List (list_statement: nat) (list_next: "nat option")
  | Stmt (stmt_kind: aqls_ast_stmt_kind) (stmt_write: nat)
  | Stmt_Write (write_token: aqls_token) (write_operand: aqls_token)
  | Ast_End (end_token: aqls_token)

record aqls_parser =
  input_file_path :: strview
  parser_lexer :: aqls_lexer
  parser_ast :: "nat option"
  cells :: "ast_cell list"

definition alloc_or_panic :: "(nat \<Rightarrow> bool) \<Rightarrow> ast_cell \<Rightarrow> aqls_parser \<Rightarrow> (nat \<times> aqls_parser) res" where
  "alloc_or_panic malloc_ok c p =
     (if malloc_ok (length (cells p)) then Inr (length (cells p), p\<lparr>cells := cells p @ [c]\<rparr>)
      else c_exit ''error: aqls: parser: out of memory'')"

definition aqls_ast_new :: "(nat \<Rightarrow> bool) \<Rightarrow> nat option \<Rightarrow> aqls_parser \<Rightarrow> (nat \<times> aqls_parser) res" where
  "aqls_ast_new malloc_ok cu p = alloc_or_panic malloc_ok (Ast cu) p"

definition aqls_ast_compilation_unit_new ::
  "(nat \<Rightarrow> bool) \<Rightarrow> nat option \<Rightarrow> nat option \<Rightarrow> aqls_parser \<Rightarrow> (nat \<times> aqls_parser) res" where
  "aqls_ast_compilation_unit_new malloc_ok stmts e p = alloc_or_panic malloc_ok (Compilation_Unit stmts e) p"

definition aqls_ast_statements_new ::
  "(nat \<Rightarrow> bool) \<Rightarrow> nat \<Rightarrow> aqls_parser \<Rightarrow> (nat \<times> aqls_parser) res" where
  "aqls_ast_statements_new malloc_ok st p = alloc_or_panic malloc_ok (Stmt_List st None) p"

text \<open>\<open>list->next = node\<close>\<close>

definition set_next :: "nat \<Rightarrow> nat \<Rightarrow> ast_cell list \<Rightarrow> ast_cell list res" where
  "set_next n node h =
     res_bind (arr_get h n) (\<lambda>c.
     case c of
       Stmt_List st _ \<Rightarrow> Inr (h[n := Stmt_List st (Some node)])
     | _ \<Rightarrow> Inl Out_Of_Bounds)"

definition aqls_ast_statements_append ::
  "(nat \<Rightarrow> bool) \<Rightarrow> nat option \<Rightarrow> nat \<Rightarrow> aqls_parser \<Rightarrow> (nat \<times> aqls_parser) res" where
  "aqls_ast_statements_append malloc_ok last_node st p =
     res_bind (aqls_ast_statements_new malloc_ok st p) (\<lambda>(node, p).
     case last_node of
       None \<Rightarrow> Inr (node, p)
     | Some n \<Rightarrow> res_bind (set_next n node (cells p)) (\<lambda>h. Inr (node, p\<lparr>cells := h\<rparr>)))"

definition aqls_ast_statement_write_new ::
  "(nat \<Rightarrow> bool) \<Rightarrow> aqls_token \<Rightarrow> aqls_token \<Rightarrow> aqls_parser \<Rightarrow> (nat \<times> aqls_parser) res" where
  "aqls_ast_statement_write_new malloc_ok write operand p =
     res_bind (alloc_or_panic malloc_ok (Stmt_Write write operand) p) (\<lambda>(w, p).
     alloc_or_panic malloc_ok (Stmt AQLS_AST_STATEMENT_WRITE w) p)"

definition aqls_ast_end_new ::
  "(nat \<Rightarrow> bool) \<Rightarrow> aqls_token \<Rightarrow> aqls_parser \<Rightarrow> (nat \<times> aqls_parser) res" where
  "aqls_ast_end_new malloc_ok t p = alloc_or_panic malloc_ok (Ast_End t) p"

section \<open>The parser\<close>

text \<open>The character at the cursor; the input ends with a zero byte.\<close>

definition cursor_char :: "aqls_lexer \<Rightarrow> char res" where
  "cursor_char l =
     (if cursor l < length (input l) then Inr (input l ! cursor l)
      else if cursor l = length (input l) then Inr (CHR 0x00)
      else Inl Out_Of_Bounds)"

fun fprint_expected :: "string \<Rightarrow> nat \<Rightarrow> aqls_token list \<Rightarrow> string res" where
  "fprint_expected inp i [] = Inr []"
| "fprint_expected inp i (t # ts) =
     res_bind (aqls_token_fprint inp t) (\<lambda>s.
     res_bind (fprint_expected inp (Suc i) ts) (\<lambda>r.
     Inr ((if i \<noteq> 0 then '', '' else []) @ s @ r)))"

definition panic_unexpected_token :: "aqls_parser \<Rightarrow> aqls_token list \<Rightarrow> 'a res" where
  "panic_unexpected_token p expected_tokens =
     res_bind (aqls_lexer_get_line_column (parser_lexer p)) (\<lambda>(line, column).
     res_bind (fprint_expected (input (parser_lexer p)) 0 expected_tokens) (\<lambda>ts.
     res_bind (cursor_char (parser_lexer p)) (\<lambda>c.
     c_exit (''error: aqls: parser: unexpected token at line '' @ fmt_u line @ '', column '' @ fmt_u column @
       ''. expecting tokens ['' @ ts @ ''], but '' @ [quote, c, quote] @ '' was found.''))))"

definition peek :: "aqls_parser \<Rightarrow> (aqls_token \<times> aqls_parser) res" where
  "peek p = res_bind (aqls_lexer_peek_token (parser_lexer p)) (\<lambda>(t, l). Inr (t, p\<lparr>parser_lexer := l\<rparr>))"

definition take_token :: "aqls_parser \<Rightarrow> (aqls_token \<times> aqls_parser) res" where
  "take_token p = res_bind (aqls_lexer_next_token (parser_lexer p)) (\<lambda>(t, l). Inr (t, p\<lparr>parser_lexer := l\<rparr>))"

text \<open>\<open>token.kind == AQLS_TOKEN_ID && string_view_cmp_sized_cstr(token.lexeme, word, len) == 0\<close>\<close>

definition is_word :: "aqls_parser \<Rightarrow> aqls_token \<Rightarrow> string \<Rightarrow> bool res" where
  "is_word p t word =
     (if token_kind t = AQLS_TOKEN_ID
      then string_view_cmp_sized_cstr (input (parser_lexer p)) (lexeme t) word (length word)
      else Inr False)"

definition parse_statement_write :: "(nat \<Rightarrow> bool) \<Rightarrow> aqls_parser \<Rightarrow> (nat \<times> aqls_parser) res" where
  "parse_statement_write malloc_ok p =
     res_bind (take_token p) (\<lambda>(write, p).
     res_bind (take_token p) (\<lambda>(operand, p).
     if token_kind operand \<noteq> AQLS_TOKEN_STRING_LITERAL
     then panic_unexpected_token p [aqls_token_string_literal]
     else aqls_ast_statement_write_new malloc_ok write operand p))"

definition parse_statement :: "(nat \<Rightarrow> bool) \<Rightarrow> aqls_parser \<Rightarrow> (nat option \<times> aqls_parser) res" where
  "parse_statement malloc_ok p =
     res_bind (peek p) (\<lambda>(t, p).
     res_bind (is_word p t ''WRITE'') (\<lambda>write.
     if write then res_bind (parse_statement_write malloc_ok p) (\<lambda>(st, p). Inr (Some st, p))
     else Inr (None, p)))"

partial_function (option) parse_statements_loop ::
  "(nat \<Rightarrow> bool) \<Rightarrow> nat option \<Rightarrow> aqls_parser \<Rightarrow> (nat option \<times> aqls_parser) res option" where
  "parse_statements_loop malloc_ok last_node p =
     (case parse_statement malloc_ok p of
        Inl e \<Rightarrow> Some (Inl e)
      | Inr (None, p) \<Rightarrow> Some (Inr (last_node, p))
      | Inr (Some st, p) \<Rightarrow>
          (case aqls_ast_statements_append malloc_ok last_node st p of
             Inl e \<Rightarrow> Some (Inl e)
           | Inr (node, p) \<Rightarrow> parse_statements_loop malloc_ok (Some node) p))"

declare parse_statements_loop.simps [code]

text \<open>The function returns the variable \<open>statements\<close>, which it never assigns.\<close>

definition parse_statements ::
  "(nat \<Rightarrow> bool) \<Rightarrow> aqls_parser \<Rightarrow> (nat option \<times> aqls_parser) res option" where
  "parse_statements malloc_ok p =
     (let statements = None in
      map_option (\<lambda>r. res_bind r (\<lambda>(last_node, p). Inr (statements, p))) (parse_statements_loop malloc_ok None p))"

definition parse_end :: "(nat \<Rightarrow> bool) \<Rightarrow> aqls_parser \<Rightarrow> (nat \<times> aqls_parser) res" where
  "parse_end malloc_ok p =
     res_bind (take_token p) (\<lambda>(t, p).
     res_bind (is_word p t ''END'') (\<lambda>is_end.
     if \<not> is_end then panic_unexpected_token p [aqls_token_id ''END'']
     else aqls_ast_end_new malloc_ok t p))"

definition parse_compilation_unit ::
  "(nat \<Rightarrow> bool) \<Rightarrow> aqls_parser \<Rightarrow> (nat option \<times> aqls_parser) res option" where
  "parse_compilation_unit malloc_ok p =
     map_option (\<lambda>r.
       res_bind r (\<lambda>(statements, p).
       res_bind (parse_end malloc_ok p) (\<lambda>(e, p).
       res_bind (aqls_ast_compilation_unit_new malloc_ok statements (Some e) p) (\<lambda>(cu, p).
       Inr (Some cu, p))))) (parse_statements malloc_ok p)"

definition aqls_parser_init :: "aqls_parser \<Rightarrow> strview \<Rightarrow> aqls_parser" where
  "aqls_parser_init p path = p\<lparr>parser_ast := None, input_file_path := path\<rparr>"

definition aqls_parser_parse ::
  "bool \<Rightarrow> (string \<Rightarrow> bool) \<Rightarrow> (nat \<Rightarrow> bool) \<Rightarrow> aqls_parser \<Rightarrow> string \<Rightarrow> nat \<Rightarrow> (int \<times> aqls_parser) res option" where
  "aqls_parser_parse calloc_ok regcomp_ok malloc_ok p inp inp_len =
     (case aqls_lexer_init calloc_ok regcomp_ok inp inp_len of
        Inl e \<Rightarrow> Some (Inl e)
      | Inr l \<Rightarrow>
          map_option (\<lambda>r.
            res_bind r (\<lambda>(cu, p).
            if cu = None then Inr (1, p)
            else res_bind (aqls_ast_new malloc_ok cu p) (\<lambda>(ast, p). Inr (0, p\<lparr>parser_ast := Some ast\<rparr>))))
          (parse_compilation_unit malloc_ok (p\<lparr>parser_lexer := l\<rparr>)))"

section \<open>The language\<close>

text \<open>The lexer is released; the nodes of the tree are not.\<close>

definition aqls_parser_free :: "aqls_parser \<Rightarrow> aqls_parser" where
  "aqls_parser_free p = p\<lparr>parser_lexer := aqls_lexer_free (parser_lexer p)\<rparr>"

text \<open>The text of a token; what passes for a keyword is any identifier that agrees with it as far
  as the shorter of the two goes.\<close>

definition token_text :: "string \<Rightarrow> aqls_token \<Rightarrow> string" where
  "token_text inp t =
     (case sv_str (lexeme t) of InputPtr c \<Rightarrow> take (sv_len (lexeme t)) (drop c inp) | _ \<Rightarrow> [])"

definition keyword :: "string \<Rightarrow> string \<Rightarrow> aqls_token \<Rightarrow> bool" where
  "keyword inp word t \<longleftrightarrow>
     token_kind t = AQLS_TOKEN_ID \<and> (prefix (token_text inp t) word \<or> prefix word (token_text inp t))"

text \<open>\<open>grammar inp p ss q\<close>: the statements \<open>ss\<close> lie between the positions \<open>p\<close> and \<open>q\<close>, and no further
  statement starts at \<open>q\<close>.\<close>

inductive grammar :: "string \<Rightarrow> nat \<Rightarrow> (aqls_token \<times> aqls_token) list \<Rightarrow> nat \<Rightarrow> bool" for inp where
  no_statement: "\<not> keyword inp ''WRITE'' (fst (scan inp p)) \<Longrightarrow> grammar inp p [] p"
| statement: "scan inp p = (w, p1) \<Longrightarrow> keyword inp ''WRITE'' w \<Longrightarrow>
    scan inp p1 = (s, p2) \<Longrightarrow> token_kind s = AQLS_TOKEN_STRING_LITERAL \<Longrightarrow>
    grammar inp p2 ss q \<Longrightarrow> grammar inp p ((w, s) # ss) q"

text \<open>Statements and something that passes for \<open>END\<close>; what follows it is not looked at.\<close>

definition program :: "string \<Rightarrow> (aqls_token \<times> aqls_token) list \<Rightarrow> aqls_token \<Rightarrow> bool" where
  "program inp ss e \<longleftrightarrow> (\<exists>q. grammar inp 0 ss q \<and> e = fst (scan inp q) \<and> keyword inp ''END'' e)"

text \<open>The chain of list nodes that holds the statements.\<close>

fun stmt_chain :: "ast_cell list \<Rightarrow> nat option \<Rightarrow> (aqls_token \<times> aqls_token) list \<Rightarrow> bool" where
  "stmt_chain h ptr [] \<longleftrightarrow> ptr = None"
| "stmt_chain h ptr ((w, s) # ss) \<longleftrightarrow>
     (\<exists>n st next wr. ptr = Some n \<and>
       arr_get h n = Inr (Stmt_List st next) \<and> arr_get h st = Inr (Stmt AQLS_AST_STATEMENT_WRITE wr) \<and>
       arr_get h wr = Inr (Stmt_Write w s) \<and> stmt_chain h next ss)"

lemma grammar_iff:
  "grammar inp p ss q \<longleftrightarrow>
     (if keyword inp ''WRITE'' (fst (scan inp p)) then
        \<exists>ss'. token_kind (fst (scan inp (snd (scan inp p)))) = AQLS_TOKEN_STRING_LITERAL \<and>
          ss = (fst (scan inp p), fst (scan inp (snd (scan inp p)))) # ss' \<and>
          grammar inp (snd (scan inp (snd (scan inp p)))) ss' q
      else ss = [] \<and> q = p)"
  by (subst grammar.simps) (cases "scan inp p"; cases "scan inp (snd (scan inp p))"; auto)

lemma grammar_deterministic: "grammar inp p ss q \<Longrightarrow> grammar inp p ss' q' \<Longrightarrow> ss' = ss \<and> q' = q"
proof (induction arbitrary: ss' q' rule: grammar.induct)
  case (no_statement p)
  then show ?case by (simp add: grammar_iff [of inp p])
next
  case (statement p w p1 s p2 ss q)
  from statement.prems have "\<exists>ss''. ss' = (w, s) # ss'' \<and> grammar inp p2 ss'' q'"
    using statement.hyps(1-4) by (subst (asm) grammar_iff) simp
  with statement.IH show ?case by blast
qed

section \<open>The parser parses the language\<close>

lemma take_min_prefix:
  "take (min (length a) (length b)) a = take (min (length a) (length b)) b \<longleftrightarrow> prefix a b \<or> prefix b a"
proof (cases "length a \<le> length b")
  case True
  then have "prefix b a \<Longrightarrow> a = b" by (auto simp: prefix_def)
  with True show ?thesis by (auto simp: min_def prefix_def take_is_prefix intro: append_take_drop_id [symmetric])
    (metis append_take_drop_id)
next
  case False
  then have "prefix a b \<Longrightarrow> False" by (auto simp: prefix_def)
  with False show ?thesis by (auto simp: min_def prefix_def)
    (metis append_take_drop_id)
qed

lemma is_word_spec:
  assumes "p \<le> length inp" and "input (parser_lexer P) = inp"
  shows "is_word P (fst (scan inp p)) word = Inr (keyword inp word (fst (scan inp p)))"
proof (cases "token_kind (fst (scan inp p)) = AQLS_TOKEN_ID")
  case True
  then obtain c n where t: "fst (scan inp p) = token_at AQLS_TOKEN_ID c n" "c + n \<le> length inp"
    using scan_id [OF assms(1)] by blast
  let ?a = "take n (drop c inp)"
  have len: "length ?a = n" using t(2) by simp
  have "min n (length word) \<le> n" "min n (length word) \<le> length word" by simp_all
  then have "is_word P (fst (scan inp p)) word =
      Inr (take (min n (length word)) (drop c inp) = take (min n (length word)) word)"
    using t assms(2)
    by (auto simp: is_word_def string_view_cmp_sized_cstr_def string_view_cmp_def string_view_from_sized_cstr_def
        token_at_def Let_def min_def)
  also have "take (min n (length word)) (drop c inp) = take (min n (length word)) ?a"
    by (simp add: min_def)
  finally show ?thesis
    using take_min_prefix [of ?a word] len t(1)
    by (simp add: keyword_def token_text_def token_at_def)
next
  case False
  then show ?thesis by (simp add: is_word_def keyword_def)
qed

lemma panic_exits:
  assumes "lexer_wf (parser_lexer P)" and "ts = [aqls_token_string_literal] \<or> ts = [aqls_token_id ''END'']"
  shows "\<exists>msg. panic_unexpected_token P ts = Inl (Exit_Failure msg)"
proof -
  obtain line column where "aqls_lexer_get_line_column (parser_lexer P) = Inr (line, column)"
    using get_line_column_spec [OF assms(1)] by (simp add: line_column_of_def)
  moreover obtain s where "fprint_expected (input (parser_lexer P)) 0 ts = Inr s"
    using assms(2)
    by (auto simp: aqls_token_fprint_def aqls_token_string_literal_def aqls_token_id_def
        string_view_empty_def string_view_from_cstr_def string_view_from_sized_cstr_def string_view_fwrite_def)
  moreover obtain c where "cursor_char (parser_lexer P) = Inr c"
    using assms(1)
    by (cases "cursor (parser_lexer P) < length (input (parser_lexer P))")
      (simp_all add: cursor_char_def lexer_wf_def)
  ultimately show ?thesis by (simp add: panic_unexpected_token_def c_exit_def)
qed

lemma panic_bind: "res_bind (panic_unexpected_token P ts) f = panic_unexpected_token P ts"
  by (auto simp: panic_unexpected_token_def c_exit_def split: prod.split
      intro: res_bind.cases [of "(aqls_lexer_get_line_column (parser_lexer P), undefined)"])

lemma peek_at:
  assumes "lexer_at inp p (parser_lexer P)"
  shows "\<exists>l. peek P = Inr (fst (scan inp p), P\<lparr>parser_lexer := l\<rparr>) \<and> lexer_at inp p l"
  using peek_token_at [OF assms] by (auto simp: peek_def)

lemma take_token_at:
  assumes "lexer_at inp p (parser_lexer P)"
  shows "\<exists>l p'. take_token P = Inr (fst (scan inp p), P\<lparr>parser_lexer := l\<rparr>) \<and> lexer_at inp p' l \<and>
    (token_kind (fst (scan inp p)) \<noteq> AQLS_TOKEN_EOF \<longrightarrow> p' = snd (scan inp p))"
  using next_token_at [OF assms] by (auto simp: take_token_def)

lemma lexer_at_bound: "lexer_at inp p l \<Longrightarrow> p \<le> length inp \<and> input l = inp"
  by (auto simp: lexer_at_def lexer_wf_def)

lemma parse_statement_none:
  assumes "lexer_at inp p (parser_lexer P)" and "\<not> keyword inp ''WRITE'' (fst (scan inp p))"
  shows "\<exists>l. parse_statement ok P = Inr (None, P\<lparr>parser_lexer := l\<rparr>) \<and> lexer_at inp p l"
proof -
  obtain l where l: "peek P = Inr (fst (scan inp p), P\<lparr>parser_lexer := l\<rparr>)" "lexer_at inp p l"
    using peek_at [OF assms(1)] by blast
  with assms(2) show ?thesis
    using is_word_spec [of p inp "P\<lparr>parser_lexer := l\<rparr>" "''WRITE''"] lexer_at_bound [OF l(2)]
    by (intro exI [of _ l]) (simp add: parse_statement_def)
qed

lemma parse_statement_write:
  assumes "lexer_at inp p (parser_lexer P)" and "keyword inp ''WRITE'' (fst (scan inp p))"
  defines "w \<equiv> fst (scan inp p)" and "p1 \<equiv> snd (scan inp p)"
  defines "s \<equiv> fst (scan inp p1)" and "p2 \<equiv> snd (scan inp p1)"
  shows "\<exists>l p'. lexer_at inp p' l \<and>
    (token_kind s \<noteq> AQLS_TOKEN_EOF \<longrightarrow> p' = p2) \<and>
    parse_statement ok P =
      (if token_kind s \<noteq> AQLS_TOKEN_STRING_LITERAL then panic_unexpected_token (P\<lparr>parser_lexer := l\<rparr>) [aqls_token_string_literal]
       else res_bind (aqls_ast_statement_write_new ok w s (P\<lparr>parser_lexer := l\<rparr>)) (\<lambda>(st, p). Inr (Some st, p)))"
proof -
  obtain l where l: "peek P = Inr (w, P\<lparr>parser_lexer := l\<rparr>)" "lexer_at inp p l"
    using peek_at [OF assms(1)] unfolding w_def by blast
  have kind: "token_kind w \<noteq> AQLS_TOKEN_EOF" using assms(2) by (auto simp: keyword_def w_def)
  obtain l1 where l1: "take_token (P\<lparr>parser_lexer := l\<rparr>) = Inr (w, P\<lparr>parser_lexer := l1\<rparr>)" "lexer_at inp p1 l1"
    using take_token_at [of inp p "P\<lparr>parser_lexer := l\<rparr>"] l(2) kind unfolding w_def p1_def by auto
  obtain l2 p' where l2: "take_token (P\<lparr>parser_lexer := l1\<rparr>) = Inr (s, P\<lparr>parser_lexer := l2\<rparr>)" "lexer_at inp p' l2"
      "token_kind s \<noteq> AQLS_TOKEN_EOF \<longrightarrow> p' = p2"
    using take_token_at [of inp p1 "P\<lparr>parser_lexer := l1\<rparr>"] l1(2) unfolding s_def p2_def by auto
  have "is_word (P\<lparr>parser_lexer := l\<rparr>) w ''WRITE'' = Inr True"
    using is_word_spec [of p inp "P\<lparr>parser_lexer := l\<rparr>" "''WRITE''"] lexer_at_bound [OF l(2)] assms(2)
    by (simp add: w_def)
  with l(1) l1(1) l2(1) have "parse_statement ok P =
      (if token_kind s \<noteq> AQLS_TOKEN_STRING_LITERAL then panic_unexpected_token (P\<lparr>parser_lexer := l2\<rparr>) [aqls_token_string_literal]
       else res_bind (aqls_ast_statement_write_new ok w s (P\<lparr>parser_lexer := l2\<rparr>)) (\<lambda>(st, p). Inr (Some st, p)))"
    by (simp add: parse_statement_def parse_statement_write_def panic_bind)
  with l2(2,3) show ?thesis by blast
qed

text \<open>The cells that the loop allocates: three for every statement, the list nodes linked to the
  next; the node before them gets a link to the first.\<close>

fun stmt_cells :: "nat \<Rightarrow> (aqls_token \<times> aqls_token) list \<Rightarrow> ast_cell list" where
  "stmt_cells b [] = []"
| "stmt_cells b ((w, s) # ss) =
     [Stmt_Write w s, Stmt AQLS_AST_STATEMENT_WRITE b,
      Stmt_List (Suc b) (if ss = [] then None else Some (b + 5))] @ stmt_cells (b + 3) ss"

fun link :: "ast_cell list \<Rightarrow> nat option \<Rightarrow> (aqls_token \<times> aqls_token) list \<Rightarrow> ast_cell list" where
  "link h (Some n) (x # xs) = h[n := Stmt_List (list_statement (h ! n)) (Some (length h + 2))]"
| "link h _ _ = h"

lemma length_link [simp]: "length (link h n ss) = length h"
  by (induction h n ss rule: link.induct) simp_all

definition node_ok :: "ast_cell list \<Rightarrow> nat option \<Rightarrow> bool" where
  "node_ok h n \<longleftrightarrow> (case n of None \<Rightarrow> True | Some i \<Rightarrow> i < length h \<and> (\<exists>st nx. h ! i = Stmt_List st nx))"

lemma append_statement:
  assumes "node_ok (cells P) n"
  shows "res_bind (aqls_ast_statement_write_new ok w s P) (\<lambda>(st, p). aqls_ast_statements_append ok n st p) =
    (if ok (length (cells P)) \<and> ok (length (cells P) + 1) \<and> ok (length (cells P) + 2)
     then Inr (length (cells P) + 2, P\<lparr>cells := link (cells P) n [(w, s)] @
       [Stmt_Write w s, Stmt AQLS_AST_STATEMENT_WRITE (length (cells P)), Stmt_List (Suc (length (cells P))) None]\<rparr>)
     else Inl (Exit_Failure ''error: aqls: parser: out of memory''))"
proof (cases n)
  case None
  then show ?thesis
    by (simp add: aqls_ast_statement_write_new_def aqls_ast_statements_append_def aqls_ast_statements_new_def
        alloc_or_panic_def c_exit_def)
next
  case (Some i)
  with assms obtain st nx where i: "i < length (cells P)" "cells P ! i = Stmt_List st nx"
    by (auto simp: node_ok_def)
  then show ?thesis
    using Some
    by (simp add: aqls_ast_statement_write_new_def aqls_ast_statements_append_def aqls_ast_statements_new_def
        alloc_or_panic_def c_exit_def set_next_def arr_get_def nth_append list_update_append)
qed

lemma link_step:
  "link (h @ [a, b, Stmt_List c None]) (Some (length h + 2)) ss @ stmt_cells (length h + 3) ss =
     h @ [a, b, Stmt_List c (if ss = [] then None else Some (length h + 5))] @ stmt_cells (length h + 3) ss"
  by (cases ss) (simp_all add: nth_append list_update_append)

text \<open>What the loop does from a position on: it returns; either it prints a message and exits, and
  then no statements lie there or the memory is exhausted, or it has read the statements
  and built their nodes.\<close>

definition loop_outcome ::
  "(nat \<Rightarrow> bool) \<Rightarrow> string \<Rightarrow> nat \<Rightarrow> nat option \<Rightarrow> aqls_parser \<Rightarrow> (nat option \<times> aqls_parser) res \<Rightarrow> bool" where
  "loop_outcome ok inp p n P r \<longleftrightarrow>
     (case r of
        Inl e \<Rightarrow> (\<exists>msg. e = Exit_Failure msg) \<and> ((\<forall>i. ok i) \<longrightarrow> (\<nexists>ss q. grammar inp p ss q))
      | Inr (_, P') \<Rightarrow> (\<exists>ss q l. grammar inp p ss q \<and> lexer_at inp q l \<and>
          P' = P\<lparr>parser_lexer := l, cells := link (cells P) n ss @ stmt_cells (length (cells P)) ss\<rparr>))"

lemma loop_outcome_step:
  fixes P :: aqls_parser
  assumes word: "keyword inp ''WRITE'' (fst (scan inp p))"
    and operand: "token_kind (fst (scan inp (snd (scan inp p)))) = AQLS_TOKEN_STRING_LITERAL"
    and r: "loop_outcome ok inp (snd (scan inp (snd (scan inp p)))) (Some (length (cells P) + 2))
      (P\<lparr>parser_lexer := l, cells := link (cells P) n [x] @
        [Stmt_Write (fst (scan inp p)) (fst (scan inp (snd (scan inp p)))),
         Stmt AQLS_AST_STATEMENT_WRITE (length (cells P)), Stmt_List (Suc (length (cells P))) None]\<rparr>) r"
  shows "loop_outcome ok inp p n P r"
proof -
  let ?w = "fst (scan inp p)" and ?s = "fst (scan inp (snd (scan inp p)))"
  have same: "link h n [x] = link h n ((?w, ?s) # ss)" for h ss
    by (cases n) simp_all
  show ?thesis
  proof (cases r)
    case (Inl e)
    with r word show ?thesis by (auto simp: loop_outcome_def grammar_iff [of inp p])
  next
    case (Inr y)
    have cells: "link (link (cells P) n [x] @ [Stmt_Write ?w ?s, Stmt AQLS_AST_STATEMENT_WRITE (length (cells P)),
          Stmt_List (Suc (length (cells P))) None]) (Some (length (cells P) + 2)) ss @
          stmt_cells (length (cells P) + 3) ss =
        link (cells P) n ((?w, ?s) # ss) @ stmt_cells (length (cells P)) ((?w, ?s) # ss)" for ss
      using link_step [of "link (cells P) n [x]" _ _ _ ss] by (simp add: same [of _ ss] cong: if_cong)
    from r Inr obtain m ss q l' where "y = (m, P\<lparr>parser_lexer := l', cells :=
          link (link (cells P) n [x] @ [Stmt_Write ?w ?s, Stmt AQLS_AST_STATEMENT_WRITE (length (cells P)),
            Stmt_List (Suc (length (cells P))) None]) (Some (length (cells P) + 2)) ss @
          stmt_cells (length (cells P) + 3) ss\<rparr>)"
        "lexer_at inp q l'" "grammar inp (snd (scan inp (snd (scan inp p)))) ss q"
      by (cases y) (auto simp: loop_outcome_def numeral_3_eq_3)
    then have y: "y = (m, P\<lparr>parser_lexer := l', cells :=
          link (cells P) n ((?w, ?s) # ss) @ stmt_cells (length (cells P)) ((?w, ?s) # ss)\<rparr>)"
        "lexer_at inp q l'" "grammar inp (snd (scan inp (snd (scan inp p)))) ss q"
      by (simp_all only: cells)
    moreover have "grammar inp p ((?w, ?s) # ss) q"
      using y(3) word operand by (simp add: grammar_iff [of inp p])
    ultimately show ?thesis unfolding Inr y(1) loop_outcome_def sum.case prod.case by blast
  qed
qed

lemma parse_statements_loop_unfold:
  assumes "parse_statement ok P = res_bind X (\<lambda>(st, p). Inr (Some st, p))"
  shows "parse_statements_loop ok n P =
    (case res_bind X (\<lambda>(st, p). aqls_ast_statements_append ok n st p) of
       Inl e \<Rightarrow> Some (Inl e)
     | Inr (node, p) \<Rightarrow> parse_statements_loop ok (Some node) p)"
  using assms by (subst parse_statements_loop.simps) (cases X; auto)

lemma parse_statements_loop_returns:
  assumes "lexer_at inp p (parser_lexer P)" and "node_ok (cells P) n"
  shows "\<exists>r. parse_statements_loop ok n P = Some r \<and> loop_outcome ok inp p n P r"
  using assms
proof (induction "length inp - p" arbitrary: p P n rule: less_induct)
  case less
  let ?p1 = "snd (scan inp p)"
  let ?s = "fst (scan inp ?p1)" and ?p2 = "snd (scan inp ?p1)"
  have p: "p \<le> length inp" using lexer_at_bound [OF less.prems(1)] by simp
  show ?case
  proof (cases "keyword inp ''WRITE'' (fst (scan inp p))")
    case False
    then obtain l where "parse_statement ok P = Inr (None, P\<lparr>parser_lexer := l\<rparr>)" "lexer_at inp p l"
      using parse_statement_none [OF less.prems(1)] by blast
    with False show ?thesis
      by (subst parse_statements_loop.simps) (auto simp: loop_outcome_def grammar_iff [of inp p])
  next
    case True
    then obtain l p' where l: "lexer_at inp p' l" "token_kind ?s \<noteq> AQLS_TOKEN_EOF \<longrightarrow> p' = ?p2"
      "parse_statement ok P =
        (if token_kind ?s \<noteq> AQLS_TOKEN_STRING_LITERAL then panic_unexpected_token (P\<lparr>parser_lexer := l\<rparr>) [aqls_token_string_literal]
         else res_bind (aqls_ast_statement_write_new ok (fst (scan inp p)) ?s (P\<lparr>parser_lexer := l\<rparr>)) (\<lambda>(st, p). Inr (Some st, p)))"
      using parse_statement_write [OF less.prems(1) True] by blast
    show ?thesis
    proof (cases "token_kind ?s = AQLS_TOKEN_STRING_LITERAL")
      case False
      obtain msg where "parse_statement ok P = Inl (Exit_Failure msg)"
        using l False panic_exits [of "P\<lparr>parser_lexer := l\<rparr>" "[aqls_token_string_literal]"]
        by (auto dest: lexer_at_wf)
      with False True show ?thesis
        by (subst parse_statements_loop.simps) (auto simp: loop_outcome_def grammar_iff [of inp p])
    next
      case operand: True
      have bounds: "p < ?p1" "?p1 \<le> ?p2" "?p2 \<le> length inp"
        using scan_id [OF p] True scan_bounds [of ?p1 inp] scan_bounds [OF p] by (auto simp: keyword_def)
      let ?b = "length (cells P)"
      let ?P = "P\<lparr>parser_lexer := l, cells := link (cells P) n [(fst (scan inp p), ?s)] @
        [Stmt_Write (fst (scan inp p)) ?s, Stmt AQLS_AST_STATEMENT_WRITE ?b, Stmt_List (Suc ?b) None]\<rparr>"
      have loop: "parse_statements_loop ok n P =
        (if ok ?b \<and> ok (?b + 1) \<and> ok (?b + 2) then parse_statements_loop ok (Some (?b + 2)) ?P
         else Some (Inl (Exit_Failure ''error: aqls: parser: out of memory'')))"
        using l(3) operand append_statement [of "P\<lparr>parser_lexer := l\<rparr>" n ok "fst (scan inp p)" ?s] less.prems(2)
        by (subst parse_statements_loop_unfold [where X = "aqls_ast_statement_write_new ok (fst (scan inp p)) ?s (P\<lparr>parser_lexer := l\<rparr>)"])
          simp_all
      have "\<exists>r. parse_statements_loop ok (Some (?b + 2)) ?P = Some r \<and> loop_outcome ok inp ?p2 (Some (?b + 2)) ?P r"
        using less.hyps [of ?p2 ?P "Some (?b + 2)"] bounds l(1,2) operand
        by (simp add: node_ok_def nth_append)
      then show ?thesis
        using loop loop_outcome_step [OF True operand] by (auto simp: loop_outcome_def [where r = "Inl e" for e])
    qed
  qed
qed

text \<open>The nodes of the statements form a chain.\<close>

lemma stmt_cells_chain:
  "b = length h \<Longrightarrow> stmt_chain (h @ stmt_cells b ss @ rest) (if ss = [] then None else Some (b + 2)) ss"
proof (induction ss arbitrary: h b)
  case Nil
  then show ?case by simp
next
  case (Cons x ss)
  obtain w s where x: "x = (w, s)" by (cases x)
  let ?cs = "[Stmt_Write w s, Stmt AQLS_AST_STATEMENT_WRITE b, Stmt_List (Suc b) (if ss = [] then None else Some (b + 5))]"
  let ?h = "(h @ ?cs) @ stmt_cells (b + 3) ss @ rest"
  have h: "h @ stmt_cells b (x # ss) @ rest = ?h" by (simp add: x)
  have "stmt_chain ?h (if ss = [] then None else Some (b + 3 + 2)) ss"
    using Cons.IH [of "b + 3" "h @ ?cs"] Cons.prems by (simp del: append_assoc append_Cons)
  moreover have "(if ss = [] then None else Some (b + 3 + 2)) = (if ss = [] then None else Some (b + 5))" by simp
  moreover have "arr_get ?h (b + 2) = Inr (Stmt_List (Suc b) (if ss = [] then None else Some (b + 5)))"
    "arr_get ?h (Suc b) = Inr (Stmt AQLS_AST_STATEMENT_WRITE b)" "arr_get ?h b = Inr (Stmt_Write w s)"
    using Cons.prems by (simp_all add: arr_get_def nth_append)
  ultimately show ?case
    unfolding h unfolding x by (simp only: stmt_chain.simps) auto
qed

lemma parse_end_at:
  assumes "lexer_at inp q (parser_lexer P)"
  defines "e \<equiv> fst (scan inp q)"
  shows "if keyword inp ''END'' e
    then \<exists>l. parse_end ok P = aqls_ast_end_new ok e (P\<lparr>parser_lexer := l\<rparr>)
    else \<exists>msg. parse_end ok P = Inl (Exit_Failure msg)"
proof -
  obtain l q' where l: "take_token P = Inr (e, P\<lparr>parser_lexer := l\<rparr>)" "lexer_at inp q' l"
    using take_token_at [OF assms(1)] unfolding e_def by blast
  have "is_word (P\<lparr>parser_lexer := l\<rparr>) e ''END'' = Inr (keyword inp ''END'' e)"
    using is_word_spec [of q inp "P\<lparr>parser_lexer := l\<rparr>"] lexer_at_bound [OF assms(1)] lexer_at_bound [OF l(2)]
    by (simp add: e_def)
  with l(1) panic_exits [of "P\<lparr>parser_lexer := l\<rparr>" "[aqls_token_id ''END'']"] lexer_at_wf [OF l(2)]
  show ?thesis by (auto simp: parse_end_def)
qed

lemma parse_compilation_unit_returns:
  assumes "lexer_at inp 0 (parser_lexer P)" and "cells P = []"
  shows "\<exists>r. parse_compilation_unit ok P = Some r \<and>
    (case r of
       Inl e \<Rightarrow> (\<exists>msg. e = Exit_Failure msg) \<and> ((\<forall>i. ok i) \<longrightarrow> (\<nexists>ss e. program inp ss e))
     | Inr (cu, P') \<Rightarrow> \<exists>ss e. program inp ss e \<and> cu = Some (length (stmt_cells 0 ss) + 1) \<and>
         cells P' = stmt_cells 0 ss @ [Ast_End e, Compilation_Unit None (Some (length (stmt_cells 0 ss)))])"
proof -
  obtain r where r: "parse_statements_loop ok None P = Some r" "loop_outcome ok inp 0 None P r"
    using parse_statements_loop_returns [OF assms(1), of None ok] by (auto simp: node_ok_def)
  show ?thesis
  proof (cases r)
    case (Inl e)
    with r show ?thesis
      by (auto simp: parse_compilation_unit_def parse_statements_def loop_outcome_def program_def)
  next
    case (Inr y)
    with r(2) obtain m ss q l where y: "r = Inr (m, P\<lparr>parser_lexer := l, cells := stmt_cells 0 ss\<rparr>)"
        "grammar inp 0 ss q" "lexer_at inp q l"
      using assms(2) unfolding loop_outcome_def by (cases y) (simp add: Inr, blast)
    let ?e = "fst (scan inp q)" and ?P = "P\<lparr>parser_lexer := l, cells := stmt_cells 0 ss\<rparr>"
    have unit: "parse_compilation_unit ok P = Some (res_bind (parse_end ok ?P) (\<lambda>(e, p).
        res_bind (aqls_ast_compilation_unit_new ok None (Some e) p) (\<lambda>(cu, p). Inr (Some cu, p))))"
      using r(1) y(1) by (simp add: parse_compilation_unit_def parse_statements_def)
    have prog: "program inp ss' e' \<longleftrightarrow> keyword inp ''END'' ?e \<and> ss' = ss \<and> e' = ?e" for ss' e'
      unfolding program_def using y(2) by (metis grammar_deterministic)
    show ?thesis
    proof (cases "keyword inp ''END'' ?e")
      case True
      then obtain l' where "parse_end ok ?P = aqls_ast_end_new ok ?e (?P\<lparr>parser_lexer := l'\<rparr>)"
        using parse_end_at [of inp q ?P ok] y(3) by auto
      then have "parse_compilation_unit ok P = Some
          (if ok (length (stmt_cells 0 ss)) \<and> ok (length (stmt_cells 0 ss) + 1)
           then Inr (Some (length (stmt_cells 0 ss) + 1), P\<lparr>parser_lexer := l', cells :=
             stmt_cells 0 ss @ [Ast_End ?e, Compilation_Unit None (Some (length (stmt_cells 0 ss)))]\<rparr>)
           else Inl (Exit_Failure ''error: aqls: parser: out of memory''))"
        by (simp add: unit aqls_ast_end_new_def aqls_ast_compilation_unit_new_def alloc_or_panic_def c_exit_def)
      with True prog show ?thesis by auto
    next
      case False
      then obtain msg where "parse_end ok ?P = Inl (Exit_Failure msg)"
        using parse_end_at [of inp q ?P ok] y(3) by auto
      with False prog unit show ?thesis by simp
    qed
  qed
qed

text \<open>C25: What the parser accepts, and that it loses what it read. Parsing returns on
  every input, whatever allocations fail and whether or not the patterns of the lexer compile, and the only fault is the exit with a message. With
  enough memory and patterns that compile it exits exactly when the input does not start with a \<open>program\<close>: statements, each an
  identifier that passes for \<open>WRITE\<close> and a string literal, and then an identifier that passes for \<open>END\<close>. An identifier
  passes for a keyword if one is a prefix of the other, which includes the keyword itself. What follows \<open>END\<close> is not
  looked at, although the comment of \<open>aqls_parser_parse\<close> requires the end of the input there. On such an input it returns zero and the
  tree holds the token of \<open>END\<close>; the nodes of the statements were built and linked in
  order, but the pointer to them in the tree is null.\<close>

theorem parser_parses_grammar:
  assumes "cells P = []"
  shows "\<exists>r. aqls_parser_parse calloc_ok regcomp_ok malloc_ok P inp (length inp) = Some r \<and>
    (case r of
       Inl e \<Rightarrow> (\<exists>msg. e = Exit_Failure msg) \<and>
         (calloc_ok \<and> patterns_compile regcomp_ok \<and> (\<forall>i. malloc_ok i) \<longrightarrow> (\<nexists>ss e. program inp ss e))
     | Inr (rc, P') \<Rightarrow> rc = 0 \<and>
         (\<exists>ss e ast cu en first. program inp ss e \<and> parser_ast P' = Some ast \<and>
            arr_get (cells P') ast = Inr (Ast (Some cu)) \<and>
            arr_get (cells P') cu = Inr (Compilation_Unit None (Some en)) \<and>
            arr_get (cells P') en = Inr (Ast_End e) \<and> stmt_chain (cells P') first ss))"
proof (cases "calloc_ok \<and> patterns_compile regcomp_ok")
  case False
  then obtain msg where "aqls_lexer_init calloc_ok regcomp_ok inp (length inp) = Inl (Exit_Failure msg)"
    using lexer_init_fails by blast
  with False show ?thesis by (auto simp: aqls_parser_parse_def)
next
  case True
  obtain l where l: "aqls_lexer_init calloc_ok regcomp_ok inp (length inp) = Inr l" "lexer_at inp 0 l"
    using lexer_init_at [of regcomp_ok] True by auto
  let ?P = "P\<lparr>parser_lexer := l\<rparr>"
  obtain r where r: "parse_compilation_unit malloc_ok ?P = Some r"
    "case r of
       Inl e \<Rightarrow> (\<exists>msg. e = Exit_Failure msg) \<and> ((\<forall>i. malloc_ok i) \<longrightarrow> (\<nexists>ss e. program inp ss e))
     | Inr (cu, P') \<Rightarrow> \<exists>ss e. program inp ss e \<and> cu = Some (length (stmt_cells 0 ss) + 1) \<and>
         cells P' = stmt_cells 0 ss @ [Ast_End e, Compilation_Unit None (Some (length (stmt_cells 0 ss)))]"
    using parse_compilation_unit_returns [of inp ?P malloc_ok] l(2) assms by auto
  show ?thesis
  proof (cases r)
    case (Inl e)
    with r True l(1) show ?thesis by (simp add: aqls_parser_parse_def)
  next
    case (Inr y)
    with r(2) obtain P' ss e where y: "r = Inr (Some (length (stmt_cells 0 ss) + 1), P')" "program inp ss e"
        "cells P' = stmt_cells 0 ss @ [Ast_End e, Compilation_Unit None (Some (length (stmt_cells 0 ss)))]"
      by (cases y) auto
    let ?n = "length (stmt_cells 0 ss)"
    let ?h = "cells P' @ [Ast (Some (?n + 1))]"
    have chain: "stmt_chain ?h (if ss = [] then None else Some (0 + 2)) ss"
      using stmt_cells_chain [of 0 "[]" ss "[Ast_End e, Compilation_Unit None (Some ?n), Ast (Some (?n + 1))]"] y(3)
      by simp
    have heap: "arr_get ?h (?n + 2) = Inr (Ast (Some (?n + 1)))"
      "arr_get ?h (?n + 1) = Inr (Compilation_Unit None (Some ?n))" "arr_get ?h ?n = Inr (Ast_End e)"
      using y(3) by (simp_all add: arr_get_def nth_append)
    have parse: "aqls_parser_parse calloc_ok regcomp_ok malloc_ok P inp (length inp) =
      Some (if malloc_ok (?n + 2) then Inr (0, P'\<lparr>parser_ast := Some (?n + 2), cells := ?h\<rparr>)
        else Inl (Exit_Failure ''error: aqls: parser: out of memory''))"
      using r(1) y True l(1) by (simp add: aqls_parser_parse_def aqls_ast_new_def alloc_or_panic_def c_exit_def)
    show ?thesis
    proof (cases "malloc_ok (?n + 2)")
      case True
      let ?P' = "P'\<lparr>parser_ast := Some (?n + 2), cells := ?h\<rparr>"
      have "parser_ast ?P' = Some (?n + 2)" "cells ?P' = ?h" by simp_all
      with heap chain y(2) parse True show ?thesis
        by (intro exI [of _ "Inr (0, ?P')"]) (simp only: if_True sum.case prod.case, blast)
    next
      case False
      with parse show ?thesis by auto
    qed
  qed
qed

definition sample_parser :: aqls_parser where
  "sample_parser = aqls_parser_init \<lparr>input_file_path = string_view_empty, parser_lexer = sample_lexer,
     parser_ast = None, cells = []\<rparr> (string_view_from_cstr ''minimal.nsp'')"

theorem parser_parses_grammar_witness:
  "cells sample_parser = [] \<and>
   (\<exists>r. aqls_parser_parse True (\<lambda>_. True) (\<lambda>_. True) sample_parser ''WRITE 'hi' END'' (length ''WRITE 'hi' END'') = Some r \<and>
    (case r of
       Inl e \<Rightarrow> (\<exists>msg. e = Exit_Failure msg) \<and>
         (True \<and> patterns_compile (\<lambda>_. True) \<and> (\<forall>i::nat. True) \<longrightarrow> (\<nexists>ss e. program ''WRITE 'hi' END'' ss e))
     | Inr (rc, P') \<Rightarrow> rc = 0 \<and>
         (\<exists>ss e ast cu en first. program ''WRITE 'hi' END'' ss e \<and> parser_ast P' = Some ast \<and>
            arr_get (cells P') ast = Inr (Ast (Some cu)) \<and>
            arr_get (cells P') cu = Inr (Compilation_Unit None (Some en)) \<and>
            arr_get (cells P') en = Inr (Ast_End e) \<and> stmt_chain (cells P') first ss)))"
proof
  show "cells sample_parser = []" by (simp add: sample_parser_def aqls_parser_init_def)
  then show "\<exists>r. aqls_parser_parse True (\<lambda>_. True) (\<lambda>_. True) sample_parser ''WRITE 'hi' END'' (length ''WRITE 'hi' END'') = Some r \<and>
    (case r of
       Inl e \<Rightarrow> (\<exists>msg. e = Exit_Failure msg) \<and>
         (True \<and> patterns_compile (\<lambda>_. True) \<and> (\<forall>i::nat. True) \<longrightarrow> (\<nexists>ss e. program ''WRITE 'hi' END'' ss e))
     | Inr (rc, P') \<Rightarrow> rc = 0 \<and>
         (\<exists>ss e ast cu en first. program ''WRITE 'hi' END'' ss e \<and> parser_ast P' = Some ast \<and>
            arr_get (cells P') ast = Inr (Ast (Some cu)) \<and>
            arr_get (cells P') cu = Inr (Compilation_Unit None (Some en)) \<and>
            arr_get (cells P') en = Inr (Ast_End e) \<and> stmt_chain (cells P') first ss))"
    by (rule parser_parses_grammar)
qed

text \<open>A keyword is compared only as far as the shorter of the two texts goes, so that a word that merely starts like it,
  or is cut short, passes for it: \<open>WRI\<close> is accepted for \<open>WRITE\<close> and \<open>ENDING\<close> for \<open>END\<close>, and the text
  \<open>WRI 'hi' ENDING\<close> is accepted as a program.\<close>

theorem abbreviated_keywords_accepted:
  "case aqls_parser_parse True (\<lambda>_. True) (\<lambda>_. True) sample_parser ''WRI 'hi' ENDING'' 15 of
     Some (Inr (rc, P)) \<Rightarrow> rc = 0 \<and> parser_ast P = Some 5 \<and> length (cells P) = 6
   | _ \<Rightarrow> False"
  by code_simp

text \<open>The end of the input is not required behind \<open>END\<close>: the text \<open>END WRITE 3\<close> is accepted, with the same tree as \<open>END\<close>.\<close>

theorem text_after_end_accepted:
  "case aqls_parser_parse True (\<lambda>_. True) (\<lambda>_. True) sample_parser ''END WRITE 3'' 11 of
     Some (Inr (rc, P)) \<Rightarrow> rc = 0 \<and> parser_ast P = Some 2 \<and> length (cells P) = 3
   | _ \<Rightarrow> False"
  by code_simp

end
