(* ===== verification/SourceFile.thy ===== *)
theory SourceFile
  imports Parser
begin

text \<open>
  Reading the source of an AQLS program (\<open>utils.c\<close> of the parser) into a string with a
  terminator, and handing it to the parser. The file system is an input: which paths open, which of the calls on
  the file succeed, and how many bytes \<open>fread\<close> delivers.
\<close>

record src_file =
  src_text :: string
  seek_end_ok :: bool
  tell_ok :: bool
  seek_set_ok :: bool
  read_max :: nat

text \<open>The memory of the content, and the length of the view on it.\<close>

definition file_read_to_string_view_or_panic ::
    "(string \<Rightarrow> src_file option) \<Rightarrow> (nat \<Rightarrow> bool) \<Rightarrow> string \<Rightarrow> (string \<times> nat) res" where
  "file_read_to_string_view_or_panic fopen calloc_ok file_path =
     (case fopen file_path of
        None \<Rightarrow> c_exit ''error: io: fopen failed''
      | Some file \<Rightarrow>
          if \<not> seek_end_ok file then c_exit ''error: io: fseek failed''
          else if \<not> tell_ok file then c_exit ''error: io: ftell failed''
          else
            let content_len = length (src_text file); content_capacity = content_len + 1 in
            if \<not> calloc_ok content_capacity then c_exit ''error: out of memory''
            else
              let content = replicate content_capacity nul in
              if \<not> seek_set_ok file then c_exit ''error: io: fseek failed''
              else
                let bytes = take (min content_len (read_max file)) (src_text file); bytes_read = length bytes in
                res_bind (arr_copy content 0 bytes) (\<lambda>content.
                if bytes_read \<noteq> content_len then c_exit ''error: io: fread: not every byte from file could be read''
                else
                  res_bind (arr_set content content_len nul) (\<lambda>content.
                  Inr (content, content_len))))"

definition file_read_or_panic :: "(string \<Rightarrow> src_file option) \<Rightarrow> (nat \<Rightarrow> bool) \<Rightarrow> string \<Rightarrow> string res" where
  "file_read_or_panic fopen calloc_ok file_path =
     res_bind (file_read_to_string_view_or_panic fopen calloc_ok file_path) (\<lambda>(content, content_len). Inr content)"

section \<open>Correctness\<close>

text \<open>Reading returns the text of the file with a terminator behind it, or ends the program.\<close>

lemma file_read_spec:
  "case file_read_to_string_view_or_panic fopen calloc_ok path of
     Inl e \<Rightarrow> \<exists>msg. e = Exit_Failure msg
   | Inr (content, n) \<Rightarrow> \<exists>file. fopen path = Some file \<and> content = src_text file @ [nul] \<and> n = length (src_text file)"
  by (auto simp: file_read_to_string_view_or_panic_def c_exit_def arr_copy_def arr_set_def Let_def min_def
      list_update_append replicate_append_same [symmetric] split: option.splits)

lemma file_read_ok:
  assumes "fopen path = Some file" and "seek_end_ok file" and "tell_ok file" and "seek_set_ok file"
    and "length (src_text file) \<le> read_max file" and "calloc_ok (length (src_text file) + 1)"
  shows "file_read_or_panic fopen calloc_ok path = Inr (src_text file @ [nul])"
proof -
  have "\<exists>c n. file_read_to_string_view_or_panic fopen calloc_ok path = Inr (c, n)"
    using assms
    by (simp add: file_read_to_string_view_or_panic_def arr_copy_def arr_set_def Let_def min_absorb1)
  with file_read_spec [where fopen = fopen and calloc_ok = calloc_ok and path = path] assms(1) show ?thesis
    by (auto simp: file_read_or_panic_def)
qed

end
