(* ===== verification/AqlsTests.thy ===== *)
theory AqlsTests
  imports Parser SourceFile
begin

text \<open>
  The unit tests of AQLS (\<open>lexer.test.c\<close> and \<open>parser.test.c\<close>): both programs, with the files they read. Their assertions
  hold on the fixtures of the repository, \<open>minimal.nsp\<close> and \<open>hello-world.nsp\<close> of \<open>test/unit/fixtures\<close>.
\<close>

section \<open>The tests of the lexer\<close>

text \<open>What the programs get from outside: the files, which allocations succeed, and which patterns compile. A test
  leaves its lexer and the text of the file allocated.\<close>

record test_env =
  env_fopen :: "string \<Rightarrow> src_file option"
  env_calloc_ok :: "nat \<Rightarrow> bool"
  env_queue_ok :: bool
  env_regcomp_ok :: "string \<Rightarrow> bool"
  env_malloc_ok :: "nat \<Rightarrow> bool"

text \<open>\<open>snprintf\<close> into a buffer keeps one byte for the terminator; the size it is given is one less than that of the
  buffer.\<close>

definition fixture_path :: "nat \<Rightarrow> string \<Rightarrow> string \<Rightarrow> string" where
  "fixture_path buffer_size fixtures_path file_name =
     take (buffer_size - 1 - 1) (fixtures_path @ ''/'' @ file_name)"

definition c_strlen :: "string \<Rightarrow> nat" where
  "c_strlen s = length (takeWhile (\<lambda>c. c \<noteq> nul) s)"

text \<open>The first \<open>strlen\<close> bytes are the text; the lexer reads nothing beyond.\<close>

definition open_fixture :: "test_env \<Rightarrow> string \<Rightarrow> aqls_lexer res" where
  "open_fixture env path =
     res_bind (file_read_or_panic (env_fopen env) (env_calloc_ok env) path) (\<lambda>fixture_content.
     let fixture_content_len = c_strlen fixture_content in
     aqls_lexer_init (env_queue_ok env) (env_regcomp_ok env) (take fixture_content_len fixture_content) fixture_content_len)"

text \<open>The stanza of the test for one token of a given kind and text.\<close>

definition expect_token :: "aqls_token_kind \<Rightarrow> string \<Rightarrow> aqls_lexer \<Rightarrow> aqls_lexer res" where
  "expect_token k text l =
     res_bind (aqls_lexer_next_token l) (\<lambda>(t, l).
     res_bind (c_assert (token_kind t = k)) (\<lambda>_.
     res_bind (string_view_cmp_cstr (input l) (lexeme t) text) (\<lambda>same.
     res_bind (c_assert same) (\<lambda>_. Inr l))))"

definition expect_eof :: "aqls_lexer \<Rightarrow> aqls_lexer res" where
  "expect_eof l =
     res_bind (aqls_lexer_next_token l) (\<lambda>(t, l).
     res_bind (c_assert (token_kind t = AQLS_TOKEN_EOF)) (\<lambda>_.
     res_bind (c_assert (aqls_lexer_has_more_tokens l = False)) (\<lambda>_. Inr l)))"

definition lexer_test_fixture_minimal :: "test_env \<Rightarrow> string \<Rightarrow> aqls_lexer res" where
  "lexer_test_fixture_minimal env fixtures_path =
     res_bind (open_fixture env (fixture_path 2048 fixtures_path ''minimal.nsp'')) (\<lambda>l.
     res_bind (c_assert (aqls_lexer_has_more_tokens l = True)) (\<lambda>_.
     res_bind (expect_token AQLS_TOKEN_ID ''END'' l) (\<lambda>l.
     expect_eof l)))"

definition lexer_test_fixture_hello_world :: "test_env \<Rightarrow> string \<Rightarrow> aqls_lexer res" where
  "lexer_test_fixture_hello_world env fixtures_path =
     res_bind (open_fixture env (fixture_path 2048 fixtures_path ''hello-world.nsp'')) (\<lambda>l.
     res_bind (c_assert (aqls_lexer_has_more_tokens l = True)) (\<lambda>_.
     res_bind (expect_token AQLS_TOKEN_ID ''WRITE'' l) (\<lambda>l.
     res_bind (expect_token AQLS_TOKEN_STRING_LITERAL ([quote] @ ''HELLO, WORLD!'' @ [quote]) l) (\<lambda>l.
     res_bind (expect_token AQLS_TOKEN_ID ''END'' l) (\<lambda>l.
     expect_eof l)))))"

definition lexer_test_main :: "test_env \<Rightarrow> string list \<Rightarrow> int res" where
  "lexer_test_main env argv =
     res_bind (c_assert (length argv = 2)) (\<lambda>_.
     let fixtures_path = argv ! 1 in
     res_bind (lexer_test_fixture_minimal env fixtures_path) (\<lambda>_.
     res_bind (lexer_test_fixture_hello_world env fixtures_path) (\<lambda>_.
     Inr 0)))"

section \<open>The tests of the parser\<close>

definition zero_parser :: aqls_parser where
  "zero_parser =
     \<lparr>input_file_path = string_view_empty,
      parser_lexer = \<lparr>input = [], input_len = 0, cursor = 0, pos = 0,
        lookahead = \<lparr>q_items = [], q_start = 0, q_end = 0, q_capacity = 0, q_len = 0\<rparr>\<rparr>,
      parser_ast = None, cells = []\<rparr>"

definition parse_fixture :: "test_env \<Rightarrow> string \<Rightarrow> aqls_parser res option" where
  "parse_fixture env path =
     (case file_read_or_panic (env_fopen env) (env_calloc_ok env) path of
        Inl e \<Rightarrow> Some (Inl e)
      | Inr fixture_content \<Rightarrow>
          let fixture_content_len = c_strlen fixture_content;
              parser = aqls_parser_init zero_parser (string_view_from_cstr path) in
          map_option (\<lambda>r.
            res_bind r (\<lambda>(rc, parser).
            res_bind (c_assert (rc = 0)) (\<lambda>_. Inr parser)))
            (aqls_parser_parse (env_queue_ok env) (env_regcomp_ok env) (env_malloc_ok env) parser
              (take fixture_content_len fixture_content) fixture_content_len))"

definition parser_test_fixture_minimal :: "test_env \<Rightarrow> string \<Rightarrow> aqls_parser res option" where
  "parser_test_fixture_minimal env fixtures_path =
     map_option (\<lambda>r.
       res_bind r (\<lambda>parser.
       res_bind (c_assert (parser_ast parser \<noteq> None)) (\<lambda>_.
       Inr (aqls_parser_free parser))))
       (parse_fixture env (fixture_path 2048 fixtures_path ''minimal.nsp''))"

text \<open>This one does not release the parser.\<close>

definition parser_test_fixture_hello_world :: "test_env \<Rightarrow> string \<Rightarrow> aqls_parser res option" where
  "parser_test_fixture_hello_world env fixtures_path =
     parse_fixture env (fixture_path 1024 fixtures_path ''hello-world.nsp'')"

definition parser_test_main :: "test_env \<Rightarrow> string list \<Rightarrow> int res option" where
  "parser_test_main env argv =
     (if length argv \<noteq> 2 then Some (Inl Assert_Failure)
      else
        let fixtures_path = argv ! 1 in
        (case parser_test_fixture_minimal env fixtures_path of
           None \<Rightarrow> None
         | Some (Inl e) \<Rightarrow> Some (Inl e)
         | Some (Inr _) \<Rightarrow>
             map_option (\<lambda>r. res_bind r (\<lambda>_. Inr 0)) (parser_test_fixture_hello_world env fixtures_path)))"

section \<open>The fixtures\<close>

definition plain_file :: "string \<Rightarrow> src_file" where
  "plain_file s = \<lparr>src_text = s, seek_end_ok = True, tell_ok = True, seek_set_ok = True, read_max = length s\<rparr>"

definition minimal_nsp :: string where
  "minimal_nsp = ''END''"

definition hello_world_nsp :: string where
  "hello_world_nsp = ''WRITE '' @ [quote] @ ''HELLO, WORLD!'' @ [quote] @ ''\<newline>END\<newline>''"

text \<open>An environment in which nothing fails and the two files are found under a path.\<close>

definition repo_env :: "string \<Rightarrow> test_env" where
  "repo_env dir =
     \<lparr>env_fopen = (\<lambda>path.
        if path = dir @ ''/minimal.nsp'' then Some (plain_file minimal_nsp)
        else if path = dir @ ''/hello-world.nsp'' then Some (plain_file hello_world_nsp)
        else None),
      env_calloc_ok = (\<lambda>_. True), env_queue_ok = True, env_regcomp_ok = (\<lambda>_. True), env_malloc_ok = (\<lambda>_. True)\<rparr>"

lemma read_plain_file:
  assumes "fopen path = Some (plain_file s)"
  shows "file_read_or_panic fopen (\<lambda>_. True) path = Inr (s @ [nul])"
  using file_read_ok [of fopen path] assms by (simp add: plain_file_def)

lemma c_strlen_text: "nul \<notin> set s \<Longrightarrow> c_strlen (s @ [nul]) = length s"
  by (metis (mono_tags, lifting) c_strlen_def append.right_neutral takeWhile.simps(2) takeWhile_append2)

lemma fixture_paths:
  assumes "length dir \<le> 1000"
  shows "fixture_path 2048 dir ''minimal.nsp'' = dir @ ''/minimal.nsp''"
    and "fixture_path 2048 dir ''hello-world.nsp'' = dir @ ''/hello-world.nsp''"
    and "fixture_path 1024 dir ''hello-world.nsp'' = dir @ ''/hello-world.nsp''"
  using assms by (simp_all add: fixture_path_def)

lemma read_fixtures:
  "file_read_or_panic (env_fopen (repo_env dir)) (\<lambda>_. True) (dir @ ''/minimal.nsp'') = Inr (minimal_nsp @ [nul])"
  "file_read_or_panic (env_fopen (repo_env dir)) (\<lambda>_. True) (dir @ ''/hello-world.nsp'') = Inr (hello_world_nsp @ [nul])"
  by (rule read_plain_file; simp add: repo_env_def)+

lemma fixture_texts: "nul \<notin> set minimal_nsp" "nul \<notin> set hello_world_nsp"
  by (simp_all add: minimal_nsp_def hello_world_nsp_def nul_def quote_def)

lemma open_fixtures:
  "open_fixture (repo_env dir) (dir @ ''/minimal.nsp'') = aqls_lexer_init True (\<lambda>_. True) minimal_nsp (length minimal_nsp)"
  "open_fixture (repo_env dir) (dir @ ''/hello-world.nsp'') =
     aqls_lexer_init True (\<lambda>_. True) hello_world_nsp (length hello_world_nsp)"
  using read_fixtures [of dir] by (simp_all add: open_fixture_def Let_def c_strlen_text fixture_texts repo_env_def)

lemma not_isl_bind: "\<not> isl r \<Longrightarrow> \<exists>x. r = Inr x"
  by (cases r) simp_all

text \<open>The assertions of both programs hold on the fixtures, wherever the directory is, as long as its path fits the buffers.\<close>

lemma lexer_tests_pass:
  assumes "length dir \<le> 1000"
  shows "lexer_test_main (repo_env dir) [prog, dir] = Inr 0"
proof -
  have "\<not> isl (lexer_test_fixture_minimal (repo_env dir) dir)"
    unfolding lexer_test_fixture_minimal_def fixture_paths [OF assms] open_fixtures by code_simp
  moreover have "\<not> isl (lexer_test_fixture_hello_world (repo_env dir) dir)"
    unfolding lexer_test_fixture_hello_world_def fixture_paths [OF assms] open_fixtures by code_simp
  ultimately show ?thesis
    by (auto simp: lexer_test_main_def c_assert_def dest!: not_isl_bind)
qed

text \<open>A parse with a tree, as the tests of the parser ask for.\<close>

definition parsed_tree :: "string \<Rightarrow> string \<Rightarrow> bool" where
  "parsed_tree path s \<longleftrightarrow>
     (case aqls_parser_parse True (\<lambda>_. True) (\<lambda>_. True) (aqls_parser_init zero_parser (string_view_from_cstr path)) s (length s) of
        Some (Inr (rc, parser)) \<Rightarrow> rc = 0 \<and> parser_ast parser \<noteq> None
      | _ \<Rightarrow> False)"

lemma parse_fixture_tree:
  assumes "file_read_or_panic (env_fopen (repo_env dir)) (\<lambda>_. True) path = Inr (s @ [nul])"
    and "nul \<notin> set s" and "parsed_tree path s"
  shows "\<exists>parser. parse_fixture (repo_env dir) path = Some (Inr parser) \<and> parser_ast parser \<noteq> None"
  using assms
  by (auto simp: parse_fixture_def parsed_tree_def Let_def c_strlen_text repo_env_def c_assert_def
      split: option.splits sum.splits prod.splits)

lemma fixture_trees: "parsed_tree path minimal_nsp" "parsed_tree path hello_world_nsp"
  by code_simp+

lemma parser_tests_pass:
  assumes "length dir \<le> 1000"
  shows "parser_test_main (repo_env dir) [prog, dir] = Some (Inr 0)"
proof -
  obtain p q where "parse_fixture (repo_env dir) (dir @ ''/minimal.nsp'') = Some (Inr p)" "parser_ast p \<noteq> None"
      "parse_fixture (repo_env dir) (dir @ ''/hello-world.nsp'') = Some (Inr q)"
    using parse_fixture_tree [OF read_fixtures(1) fixture_texts(1) fixture_trees(1)]
      parse_fixture_tree [OF read_fixtures(2) fixture_texts(2) fixture_trees(2)] by blast
  then show ?thesis
    by (simp add: parser_test_main_def parser_test_fixture_minimal_def parser_test_fixture_hello_world_def
        fixture_paths [OF assms] c_assert_def)
qed

end
