(* ===== verification/AstNodes.thy ===== *)
theory AstNodes
  imports Lexer
begin

text \<open>
  The first version of the AQLS syntax tree (\<open>ast/ast.bak.c\<close>, \<open>ast/ast.bak.h\<close>), which the parser no longer uses: one type
  of nodes with a tag and a union of pointers, where \<open>ast.c\<close> has a structure for every kind. As in the model of the
  parser the structures live in a heap, a list of cells in the order of their allocation. \<open>represents\<close> says which tree a
  pointer stands for; the constructors are proved to build the trees they name and to keep all others.
\<close>

section \<open>Operations\<close>

datatype aqls_ast_node_kind =
    AQLS_AST_NODE_COMPILATION_UNIT | AQLS_AST_NODE_STATEMENT_WRITE | AQLS_AST_NODE_STATEMENT_END

datatype node_cell =
    Node aqls_ast_node_kind nat
  | Node_Compilation_Unit "nat option" "nat option"
  | Node_Stmt_Write aqls_token aqls_token
  | Node_Statement_End aqls_token

definition alloc_node :: "(nat \<Rightarrow> bool) \<Rightarrow> node_cell \<Rightarrow> node_cell list \<Rightarrow> (nat \<times> node_cell list) res" where
  "alloc_node malloc_ok c h =
     (if malloc_ok (length h) then Inr (length h, h @ [c]) else c_exit ''error: aqls: parser: out of memory'')"

definition aqls_ast_new_compilation_unit ::
    "(nat \<Rightarrow> bool) \<Rightarrow> nat option \<Rightarrow> nat option \<Rightarrow> node_cell list \<Rightarrow> (nat \<times> node_cell list) res" where
  "aqls_ast_new_compilation_unit malloc_ok statement end_statement h =
     res_bind (alloc_node malloc_ok (Node_Compilation_Unit statement end_statement) h) (\<lambda>(compilation_unit, h).
     alloc_node malloc_ok (Node AQLS_AST_NODE_COMPILATION_UNIT compilation_unit) h)"

definition aqls_ast_new_statement_write ::
    "(nat \<Rightarrow> bool) \<Rightarrow> aqls_token \<Rightarrow> aqls_token \<Rightarrow> node_cell list \<Rightarrow> (nat \<times> node_cell list) res" where
  "aqls_ast_new_statement_write malloc_ok write_tok operand_tok h =
     res_bind (alloc_node malloc_ok (Node_Stmt_Write write_tok operand_tok) h) (\<lambda>(write_stmt, h).
     alloc_node malloc_ok (Node AQLS_AST_NODE_STATEMENT_WRITE write_stmt) h)"

definition aqls_ast_new_statenet_end ::
    "(nat \<Rightarrow> bool) \<Rightarrow> aqls_token \<Rightarrow> node_cell list \<Rightarrow> (nat \<times> node_cell list) res" where
  "aqls_ast_new_statenet_end malloc_ok end_tok h =
     res_bind (alloc_node malloc_ok (Node_Statement_End end_tok) h) (\<lambda>(end_statement, h).
     alloc_node malloc_ok (Node AQLS_AST_NODE_STATEMENT_END end_statement) h)"

section \<open>The tree of a pointer\<close>

text \<open>The trees; \<open>Null_Tree\<close> is the null pointer.\<close>

datatype ast_tree =
    Null_Tree
  | Unit_Tree ast_tree ast_tree
  | Write_Tree aqls_token aqls_token
  | End_Tree aqls_token

definition cell_at :: "node_cell list \<Rightarrow> nat \<Rightarrow> node_cell option" where
  "cell_at h n = (if n < length h then Some (h ! n) else None)"

text \<open>The structure behind a node whose tag is \<open>k\<close>: the pointer of the union that the tag selects.\<close>

definition node_as :: "aqls_ast_node_kind \<Rightarrow> node_cell list \<Rightarrow> nat option \<Rightarrow> node_cell option" where
  "node_as k h ptr =
     (case ptr of
        None \<Rightarrow> None
      | Some n \<Rightarrow> (case cell_at h n of Some (Node k' p) \<Rightarrow> if k' = k then cell_at h p else None | _ \<Rightarrow> None))"

primrec represents :: "node_cell list \<Rightarrow> nat option \<Rightarrow> ast_tree \<Rightarrow> bool" where
  "represents h p Null_Tree \<longleftrightarrow> p = None"
| "represents h p (Unit_Tree s e) \<longleftrightarrow>
     (case node_as AQLS_AST_NODE_COMPILATION_UNIT h p of
        Some (Node_Compilation_Unit statement end_statement) \<Rightarrow> represents h statement s \<and> represents h end_statement e
      | _ \<Rightarrow> False)"
| "represents h p (Write_Tree t t') \<longleftrightarrow> node_as AQLS_AST_NODE_STATEMENT_WRITE h p = Some (Node_Stmt_Write t t')"
| "represents h p (End_Tree t) \<longleftrightarrow> node_as AQLS_AST_NODE_STATEMENT_END h p = Some (Node_Statement_End t)"

lemma node_as_None [simp]: "node_as k h None = None"
  by (simp add: node_as_def)

lemma cell_at_append: "cell_at h n = Some c \<Longrightarrow> cell_at (h @ h') n = Some c"
  by (auto simp: cell_at_def nth_append split: if_splits)

lemma node_as_append: "node_as k h p = Some c \<Longrightarrow> node_as k (h @ h') p = Some c"
  by (auto simp: node_as_def cell_at_append split: option.splits node_cell.splits if_splits)

lemma node_as_tag: "node_as k h p = Some c \<Longrightarrow> node_as k' h p = Some c' \<Longrightarrow> k = k' \<and> c = c'"
  by (auto simp: node_as_def split: option.splits node_cell.splits if_splits)

lemma node_as_new: "node_as k (h @ [c, Node k (length h)]) (Some (Suc (length h))) = Some c"
  by (simp add: node_as_def cell_at_def nth_append)

text \<open>Allocation keeps every tree, and a pointer stands for at most one.\<close>

lemma represents_append: "represents h p t \<Longrightarrow> represents (h @ h') p t"
proof (induction t arbitrary: p)
  case (Unit_Tree s e)
  then obtain a b where "node_as AQLS_AST_NODE_COMPILATION_UNIT h p = Some (Node_Compilation_Unit a b)"
    "represents h a s" "represents h b e"
    by (auto split: option.splits node_cell.splits)
  with Unit_Tree.IH show ?case by (simp add: node_as_append)
qed (simp_all add: node_as_append)

lemma represents_unique: "represents h p t \<Longrightarrow> represents h p t' \<Longrightarrow> t = t'"
proof (induction t arbitrary: p t')
  case Null_Tree
  then show ?case by (cases t') (auto simp: node_as_def)
next
  case (Unit_Tree s e)
  then obtain a b where node: "node_as AQLS_AST_NODE_COMPILATION_UNIT h p = Some (Node_Compilation_Unit a b)"
    "represents h a s" "represents h b e"
    by (auto split: option.splits node_cell.splits)
  with Unit_Tree show ?case by (cases t') (auto dest: node_as_tag [OF node(1)] split: option.splits node_cell.splits)
next
  case (Write_Tree u v)
  then have "node_as AQLS_AST_NODE_STATEMENT_WRITE h p = Some (Node_Stmt_Write u v)" by simp
  note tag = node_as_tag [OF this]
  from \<open>node_as _ h p = _\<close> Write_Tree(2) show ?case
    by (cases t') (auto dest!: tag split: option.splits node_cell.splits)
next
  case (End_Tree u)
  then have "node_as AQLS_AST_NODE_STATEMENT_END h p = Some (Node_Statement_End u)" by simp
  note tag = node_as_tag [OF this]
  from \<open>node_as _ h p = _\<close> End_Tree(2) show ?case
    by (cases t') (auto dest!: tag split: option.splits node_cell.splits)
qed

text \<open>The three constructors build the trees they name, in two cells each, as long as the memory lasts.\<close>

lemma alloc_two:
  "res_bind (alloc_node malloc_ok c h) (\<lambda>(k, h). alloc_node malloc_ok (d k) h) =
     (if malloc_ok (length h) \<and> malloc_ok (Suc (length h)) then Inr (Suc (length h), h @ [c, d (length h)])
      else c_exit ''error: aqls: parser: out of memory'')"
  by (simp add: alloc_node_def c_exit_def)

theorem ast_nodes_built:
  assumes "\<forall>n. malloc_ok n" and "represents h s ts" and "represents h e te"
  shows "\<exists>n h'. aqls_ast_new_compilation_unit malloc_ok s e h = Inr (n, h @ h') \<and> length h' = 2 \<and>
      represents (h @ h') (Some n) (Unit_Tree ts te)"
    and "\<exists>n h'. aqls_ast_new_statement_write malloc_ok t t' h = Inr (n, h @ h') \<and> length h' = 2 \<and>
      represents (h @ h') (Some n) (Write_Tree t t')"
    and "\<exists>n h'. aqls_ast_new_statenet_end malloc_ok t h = Inr (n, h @ h') \<and> length h' = 2 \<and> represents (h @ h') (Some n) (End_Tree t)"
  using assms
  by (simp_all add: aqls_ast_new_compilation_unit_def aqls_ast_new_statement_write_def aqls_ast_new_statenet_end_def
      alloc_two node_as_new represents_append)

text \<open>The program \<open>WRITE x END\<close>, built the way a parser would build it, is the tree of its tokens.\<close>

theorem small_program_built:
  assumes "\<forall>n. malloc_ok n"
  shows "\<exists>h n. res_bind (aqls_ast_new_statement_write malloc_ok w x []) (\<lambda>(s, h).
      res_bind (aqls_ast_new_statenet_end malloc_ok e h) (\<lambda>(t, h).
      aqls_ast_new_compilation_unit malloc_ok (Some s) (Some t) h)) = Inr (n, h) \<and> length h = 6 \<and>
    represents h (Some n) (Unit_Tree (Write_Tree w x) (End_Tree e))"
proof -
  obtain s h1 where w: "aqls_ast_new_statement_write malloc_ok w x [] = Inr (s, h1)" "length h1 = 2"
    "represents h1 (Some s) (Write_Tree w x)"
    using ast_nodes_built(2) [OF assms, of "[]" None Null_Tree None Null_Tree w x] by (auto simp del: represents.simps(3))
  obtain t h2 where e: "aqls_ast_new_statenet_end malloc_ok e h1 = Inr (t, h1 @ h2)" "length h2 = 2"
    "represents (h1 @ h2) (Some t) (End_Tree e)"
    using ast_nodes_built(3) [OF assms, of h1 None Null_Tree None Null_Tree e] by (auto simp del: represents.simps(4))
  have "represents (h1 @ h2) (Some s) (Write_Tree w x)" using w(3) by (rule represents_append)
  from ast_nodes_built(1) [OF assms this e(3)] w e show ?thesis by (auto simp del: represents.simps)
qed

end
