(* ===== verification/ScgiMem.thy ===== *)
theory ScgiMem
  imports Interfaces
begin

text \<open>
  The memory and input utilities of the SCGI backend (\<open>hello-scgi/scgi-backend/src\<close>: \<open>mem.c\<close>,
  \<open>strutils.c\<close>, \<open>recv_char\<close> of \<open>net.c\<close>). \<open>size_t\<close> is a 64-bit word where it is added without a
  check. A pointer is an address. A connection is the bytes that arrive on it and how it ends: closed by the
  peer or by an error. The interpretation \<open>arena\<close> of the locale \<open>bump_allocator\<close> shows that the
  fixed-buffer allocator hands out disjoint blocks of its buffer.
\<close>

section \<open>Connections\<close>

record connection =
  incoming :: string
  closed_by_peer :: bool

text \<open>\<open>recv\<close> of \<open>n\<close> bytes, waiting for all of them: the return value, the bytes, and the
  connection afterwards. Fewer bytes arrive only when the connection ends before.\<close>

definition recv :: "connection \<Rightarrow> nat \<Rightarrow> int \<times> string \<times> connection" where
  "recv conn n =
     (if incoming conn = [] \<and> 0 < n then (if closed_by_peer conn then 0 else -1, [], conn)
      else (int (length (take n (incoming conn))), take n (incoming conn),
            conn\<lparr>incoming := drop n (incoming conn)\<rparr>))"

text \<open>The character is stored exactly when the return value is positive.\<close>

definition recv_char :: "connection \<Rightarrow> int \<times> char option \<times> connection" where
  "recv_char conn =
     (case recv conn 1 of (bytes_received, bytes, conn) \<Rightarrow>
        if bytes_received < 0 then (bytes_received, None, conn)
        else if bytes_received = 0 then (bytes_received, None, conn)
        else (bytes_received, Some (hd bytes), conn))"

section \<open>Slices and readers\<close>

record slice =
  slice_ptr :: nat
  slice_len :: u64

definition slice_create :: "nat \<Rightarrow> u64 \<Rightarrow> slice" where
  "slice_create ptr n = \<lparr>slice_ptr = ptr, slice_len = n\<rparr>"

text \<open>The buffer of a reader is the list of its bytes, the cursor an index.\<close>

record buffered_reader =
  input_fd :: connection
  rd_buffer :: string
  rd_cursor :: nat

definition buffered_reader_init :: "connection \<Rightarrow> string \<Rightarrow> buffered_reader res" where
  "buffered_reader_init fd buffer =
     res_bind (c_assert (length buffer > 0)) (\<lambda>_.
     Inr \<lparr>input_fd = fd, rd_buffer = buffer, rd_cursor = 0\<rparr>)"

text \<open>The loop. The counter of the digits stays as it is.\<close>

function read_digits_loop :: "char \<Rightarrow> nat \<Rightarrow> nat \<Rightarrow> buffered_reader \<Rightarrow> (int \<times> buffered_reader) res" where
  "read_digits_loop delim max_digits digits_count reader =
     (if rd_cursor reader \<ge> length (rd_buffer reader) then Inr (1, reader)
      else
        (case recv_char (input_fd reader) of
           (nread, None, conn) \<Rightarrow> Inr (1, reader\<lparr>input_fd := conn\<rparr>)
         | (nread, Some c, conn) \<Rightarrow>
             if c = delim then Inr (0, reader\<lparr>input_fd := conn\<rparr>)
             else if \<not> isdigit c then Inr (1, reader\<lparr>input_fd := conn\<rparr>)
             else if digits_count \<ge> max_digits then Inr (1, reader\<lparr>input_fd := conn\<rparr>)
             else read_digits_loop delim max_digits digits_count
               (reader\<lparr>input_fd := conn, rd_buffer := (rd_buffer reader)[rd_cursor reader := c],
                 rd_cursor := rd_cursor reader + 1\<rparr>)))"
  by pat_completeness auto
termination
  by (relation "measure (\<lambda>(delim, max_digits, digits_count, reader). length (rd_buffer reader) - rd_cursor reader)") auto

declare read_digits_loop.simps [simp del]

definition buffered_reader_read_digits_until ::
    "buffered_reader \<Rightarrow> char \<Rightarrow> nat \<Rightarrow> (int \<times> buffered_reader) res" where
  "buffered_reader_read_digits_until reader delim max_digits =
     res_bind (c_assert (\<not> isdigit delim)) (\<lambda>_. read_digits_loop delim max_digits 0 reader)"

section \<open>The fixed-buffer allocator\<close>

record fixed_buffer_allocator =
  fba_buffer :: slice
  allocated :: u64

definition fixed_buffer_allocator_from_buffer :: "nat \<Rightarrow> u64 \<Rightarrow> fixed_buffer_allocator res" where
  "fixed_buffer_allocator_from_buffer buffer buffer_size =
     res_bind (c_assert (buffer_size > 0)) (\<lambda>_.
     Inr \<lparr>fba_buffer = slice_create buffer buffer_size, allocated = 0\<rparr>)"

definition fixed_buffer_allocator_from_slice :: "slice \<Rightarrow> fixed_buffer_allocator" where
  "fixed_buffer_allocator_from_slice sl = \<lparr>fba_buffer = sl, allocated = 0\<rparr>"

definition fixed_buffer_allocator_malloc ::
    "fixed_buffer_allocator \<Rightarrow> u64 \<Rightarrow> (nat option \<times> fixed_buffer_allocator) res" where
  "fixed_buffer_allocator_malloc allocator n =
     res_bind (c_assert (n > 0)) (\<lambda>_.
     if allocated allocator + n > slice_len (fba_buffer allocator) then Inr (None, allocator)
     else
       let ptr = slice_ptr (fba_buffer allocator) + unat (allocated allocator);
           allocator = allocator\<lparr>allocated := allocated allocator + n\<rparr> in
       res_bind (c_assert (allocated allocator \<le> slice_len (fba_buffer allocator))) (\<lambda>_.
       Inr (Some ptr, allocator)))"

text \<open>Clearing the block needs the memory, a list of bytes whose indices are the addresses.\<close>

definition fixed_buffer_allocator_calloc ::
    "fixed_buffer_allocator \<Rightarrow> u64 \<Rightarrow> u8 list \<Rightarrow> (nat option \<times> fixed_buffer_allocator \<times> u8 list) res" where
  "fixed_buffer_allocator_calloc allocator n mem =
     res_bind (fixed_buffer_allocator_malloc allocator n) (\<lambda>(ptr, allocator).
     case ptr of
       None \<Rightarrow> Inr (None, allocator, mem)
     | Some p \<Rightarrow> res_bind (arr_copy mem p (replicate (unat n) 0)) (\<lambda>mem. Inr (Some p, allocator, mem)))"

section \<open>Numbers\<close>

text \<open>\<open>unsigned long\<close> has 64 bits; \<open>None\<close> is the return code 1.\<close>

definition cstr_parse_size_t :: "string \<Rightarrow> nat option" where
  "cstr_parse_size_t cstr =
     (case strtoull cstr of (v, erange, rest) \<Rightarrow>
        if erange then None
        else if v \<ge> 2 ^ 64 - 1 then None
        else Some v)"

section \<open>Correctness of the allocator\<close>

definition arena_wf :: "fixed_buffer_allocator \<Rightarrow> bool" where
  "arena_wf a \<longleftrightarrow> allocated a \<le> slice_len (fba_buffer a)"

lemma unat_add_u64: "unat (a :: u64) + unat b < 2 ^ 64 \<Longrightarrow> unat (a + b) = unat a + unat b"
  by (simp add: unat_word_ariths)

lemma unat_of_nat_u64: "n < 2 ^ 64 \<Longrightarrow> unat (word_of_nat n :: u64) = n"
  by (simp add: unat_of_nat)

interpretation arena: bump_allocator
  "\<lambda>a n. fixed_buffer_allocator_malloc a (word_of_nat n)"
  "\<lambda>a. slice_ptr (fba_buffer a)" "\<lambda>a. unat (allocated a)" "\<lambda>a. unat (slice_len (fba_buffer a))" arena_wf "2 ^ 64"
proof (unfold_locales, goal_cases)
  case (1 a n)
  have n: "unat (word_of_nat n :: u64) = n" using 1(3) by (intro unat_of_nat_u64) simp
  have sum: "unat (allocated a + word_of_nat n) = unat (allocated a) + n"
    using 1(3) n by (subst unat_add_u64) simp_all
  with 1 n show ?case
    by (simp add: fixed_buffer_allocator_malloc_def c_assert_def arena_wf_def Let_def word_less_nat_alt
        word_le_nat_alt)
next
  case (2 a n)
  have n: "unat (word_of_nat n :: u64) = n" using 2(3) by (intro unat_of_nat_u64) simp
  have sum: "unat (allocated a + word_of_nat n) = unat (allocated a) + n"
    using 2(3) n by (subst unat_add_u64) simp_all
  with 2 n show ?case
    by (simp add: fixed_buffer_allocator_malloc_def c_assert_def word_less_nat_alt)
next
  case (3 a)
  then show ?case by (simp add: arena_wf_def word_le_nat_alt)
qed

text \<open>C26: The blocks of the fixed-buffer allocator do not overlap. From a buffer that is not empty,
  any sequence of requests, each of at least one byte and not so big that adding it to the
  size of the buffer overflows, runs without a failed assertion; the blocks it gets lie in the buffer one behind
  the other.\<close>

theorem fixed_buffer_blocks_disjoint:
  assumes "0 < buffer_size" and "\<And>n. n \<in> set ns \<Longrightarrow> 0 < n \<and> unat buffer_size + n < 2 ^ 64"
  shows "\<exists>a bs a'. fixed_buffer_allocator_from_buffer buffer buffer_size = Inr a \<and>
    alloc_blocks (\<lambda>a n. fixed_buffer_allocator_malloc a (word_of_nat n)) a ns = Inr (bs, a') \<and>
    (\<forall>(p, n) \<in> set bs. buffer \<le> p \<and> p + n \<le> buffer + unat buffer_size) \<and>
    sorted_wrt (\<lambda>(p, n) (q, m). p + n \<le> q) bs"
proof -
  let ?a = "\<lparr>fba_buffer = slice_create buffer buffer_size, allocated = 0\<rparr>"
  have "arena_wf ?a" by (simp add: arena_wf_def)
  from arena.blocks_disjoint [OF this, of ns] assms(2) obtain bs a' where
      run: "alloc_blocks (\<lambda>a n. fixed_buffer_allocator_malloc a (word_of_nat n)) ?a ns = Inr (bs, a')" "arena_wf a'"
        "unat (slice_len (fba_buffer a')) = unat buffer_size"
        "\<forall>(p, n) \<in> set bs. buffer \<le> p \<and> p + n \<le> buffer + unat (allocated a')"
        "sorted_wrt (\<lambda>(p, n) (q, m). p + n \<le> q) bs"
    by (auto simp: slice_create_def)
  have "unat (allocated a') \<le> unat buffer_size" using arena.within_limit [OF run(2)] run(3) by simp
  with run(4) have "\<forall>(p, n) \<in> set bs. buffer \<le> p \<and> p + n \<le> buffer + unat buffer_size" by fastforce
  then show ?thesis
    using run(1,5) assms(1) by (simp add: fixed_buffer_allocator_from_buffer_def c_assert_def)
qed

theorem fixed_buffer_blocks_disjoint_witness:
  "\<exists>a bs a'. fixed_buffer_allocator_from_buffer 1000 4096 = Inr a \<and>
    alloc_blocks (\<lambda>a n. fixed_buffer_allocator_malloc a (word_of_nat n)) a [100, 5000, 24] = Inr (bs, a') \<and>
    (\<forall>(p, n) \<in> set bs. 1000 \<le> p \<and> p + n \<le> 1000 + unat (4096 :: u64)) \<and>
    sorted_wrt (\<lambda>(p, n) (q, m). p + n \<le> q) bs"
  by (rule fixed_buffer_blocks_disjoint) auto

text \<open>A bigger request wraps around: asking for \<open>2 ^ 64\<close> bytes less those in use gives a block
  and makes the whole buffer free again.\<close>

lemma malloc_size_wraps:
  assumes "allocated a \<noteq> 0"
  shows "fixed_buffer_allocator_malloc a (- allocated a) =
      Inr (Some (slice_ptr (fba_buffer a) + unat (allocated a)), a\<lparr>allocated := 0\<rparr>)"
    and "unat (allocated a) + unat (- allocated a) = 2 ^ 64"
proof -
  have "- allocated a \<noteq> 0" using assms by simp
  then have "- allocated a > 0" by (simp only: word_gt_0)
  then show "fixed_buffer_allocator_malloc a (- allocated a) =
      Inr (Some (slice_ptr (fba_buffer a) + unat (allocated a)), a\<lparr>allocated := 0\<rparr>)"
    by (simp add: fixed_buffer_allocator_malloc_def c_assert_def Let_def)
  have "unat (allocated a) < 2 ^ 64" using unsigned_less [of "allocated a", where ?'a = nat] by simp
  moreover from this have minus: "- allocated a = word_of_nat (2 ^ 64 - unat (allocated a))"
    by (simp add: of_nat_diff)
  moreover have "0 < unat (allocated a)" using assms by (simp add: unat_gt_0)
  ultimately have "unat (- allocated a) = 2 ^ 64 - unat (allocated a)"
    unfolding minus by (intro unat_of_nat_u64) simp
  with \<open>unat (allocated a) < 2 ^ 64\<close> show "unat (allocated a) + unat (- allocated a) = 2 ^ 64"
    by simp
qed

section \<open>Correctness of the reader\<close>

lemma recv_char_Cons:
  "incoming conn = c # cs \<Longrightarrow> recv_char conn = (1, Some c, conn\<lparr>incoming := cs\<rparr>)"
  by (simp add: recv_char_def recv_def)

lemma recv_char_Nil:
  "incoming conn = [] \<Longrightarrow> recv_char conn = (if closed_by_peer conn then 0 else -1, None, conn)"
  by (simp add: recv_char_def recv_def)

lemma read_digits_loop_spec:
  "\<lbrakk>incoming (input_fd reader) = ds @ delim # rest; \<And>c. c \<in> set ds \<Longrightarrow> isdigit c; \<not> isdigit delim;
    digits_count < max_digits; rd_cursor reader + length ds < length (rd_buffer reader)\<rbrakk> \<Longrightarrow>
   read_digits_loop delim max_digits digits_count reader = Inr (0,
     reader\<lparr>input_fd := (input_fd reader)\<lparr>incoming := rest\<rparr>,
       rd_buffer := take (rd_cursor reader) (rd_buffer reader) @ ds @ drop (rd_cursor reader + length ds) (rd_buffer reader),
       rd_cursor := rd_cursor reader + length ds\<rparr>)"
proof (induction ds arbitrary: reader)
  case Nil
  then show ?case by (subst read_digits_loop.simps) (simp add: recv_char_Cons)
next
  case (Cons c ds)
  let ?r = "reader\<lparr>input_fd := (input_fd reader)\<lparr>incoming := ds @ delim # rest\<rparr>,
    rd_buffer := (rd_buffer reader)[rd_cursor reader := c], rd_cursor := rd_cursor reader + 1\<rparr>"
  have "isdigit c" using Cons.prems(2) by simp
  moreover from this have "c \<noteq> delim" using Cons.prems(3) by blast
  ultimately have "read_digits_loop delim max_digits digits_count reader =
      read_digits_loop delim max_digits digits_count ?r"
    using Cons.prems by (subst read_digits_loop.simps) (simp add: recv_char_Cons)
  also have "\<dots> = Inr (0, ?r\<lparr>input_fd := (input_fd ?r)\<lparr>incoming := rest\<rparr>,
       rd_buffer := take (rd_cursor ?r) (rd_buffer ?r) @ ds @ drop (rd_cursor ?r + length ds) (rd_buffer ?r),
       rd_cursor := rd_cursor ?r + length ds\<rparr>)"
    using Cons.prems by (intro Cons.IH) auto
  also have "take (rd_cursor ?r) (rd_buffer ?r) = take (rd_cursor reader) (rd_buffer reader) @ [c]"
    using Cons.prems(5) by (simp add: take_Suc_conv_app_nth)
  also have "drop (rd_cursor ?r + length ds) (rd_buffer ?r) =
      drop (rd_cursor reader + length (c # ds)) (rd_buffer reader)"
    by simp
  finally show ?case by simp
qed

text \<open>Reading digits up to a delimiter that is none: when so many digits and the delimiter arrive,
  and the buffer has room for more than the digits, the reader returns zero, has stored the digits at its cursor, and
  leaves what follows the delimiter unread. The maximal number of digits does not matter, as
  long as it is not zero: the code never counts them.\<close>

theorem read_digits_until_delimiter:
  assumes "incoming (input_fd reader) = ds @ delim # rest" and "\<And>c. c \<in> set ds \<Longrightarrow> isdigit c"
    and "\<not> isdigit delim" and "0 < max_digits"
    and "rd_cursor reader + length ds < length (rd_buffer reader)"
  shows "\<exists>reader'. buffered_reader_read_digits_until reader delim max_digits = Inr (0, reader') \<and>
    incoming (input_fd reader') = rest \<and> rd_cursor reader' = rd_cursor reader + length ds \<and>
    take (length ds) (drop (rd_cursor reader) (rd_buffer reader')) = ds \<and>
    length (rd_buffer reader') = length (rd_buffer reader)"
  using read_digits_loop_spec [OF assms(1-4) assms(5)] assms(3,5)
  by (simp add: buffered_reader_read_digits_until_def c_assert_def)

theorem read_digits_until_delimiter_witness:
  "\<exists>reader'. buffered_reader_read_digits_until
      \<lparr>input_fd = \<lparr>incoming = ''70:CONTENT'', closed_by_peer = True\<rparr>, rd_buffer = replicate 8 nul, rd_cursor = 0\<rparr>
      (CHR '':'') 1 = Inr (0, reader') \<and>
    incoming (input_fd reader') = ''CONTENT'' \<and> rd_cursor reader' = 0 + length ''70'' \<and>
    take (length ''70'') (drop 0 (rd_buffer reader')) = ''70'' \<and>
    length (rd_buffer reader') = length (replicate 8 nul)"
proof -
  have "isdigit c" if "c \<in> set ''70''" for c using that by (auto simp: isdigit_def)
  from read_digits_until_delimiter [of
      "\<lparr>input_fd = \<lparr>incoming = ''70:CONTENT'', closed_by_peer = True\<rparr>, rd_buffer = replicate 8 nul, rd_cursor = 0\<rparr>"
      "''70''" "CHR '':''" "''CONTENT''" 1, OF _ this]
  show ?thesis by (simp add: isdigit_def)
qed

end
