(* ===== verification/Sockets.thy ===== *)
theory Sockets
  imports Interfaces
begin

text \<open>
  Opening a listening socket: \<open>tcp_socket_create\<close> of the SCGI server, \<open>net.c\<close> and
  \<open>http/server.c\<close> of the HTTP server. The operating system is the record \<open>network\<close>: whether
  each call succeeds, as a function of the arguments that matter, and what \<open>inet_pton\<close> and \<open>inet_addr\<close> make of a host
  name. Ports are kept in network byte order. Both servers send their response with one call of \<open>send\<close>, whose
  outcome is a \<open>send_result\<close>.
\<close>

record sockaddr_in =
  sin_addr :: u32
  sin_port :: "u8 \<times> u8"

record network =
  socket_ok :: bool
  setsockopt_ok :: bool
  inet_pton :: "string \<Rightarrow> u32 option"
  inet_addr :: "string \<Rightarrow> u32"
  bind_ok :: "sockaddr_in \<Rightarrow> bool"
  listen_ok :: "int \<Rightarrow> bool"

text \<open>The two bytes of a port, the high one first.\<close>

definition htons :: "u16 \<Rightarrow> u8 \<times> u8" where
  "htons port = (ucast (drop_bit 8 port), ucast port)"

definition port_of :: "u8 \<times> u8 \<Rightarrow> nat" where
  "port_of hl = 256 * unat (fst hl) + unat (snd hl)"

text \<open>The outcome of opening: the address a socket listens on, or the failure with the number of sockets that
  were created and not closed again.\<close>

datatype opened = Listening sockaddr_in | Not_Opened nat

definition tcp_socket_create :: "network \<Rightarrow> string \<Rightarrow> u16 \<Rightarrow> int \<Rightarrow> opened res" where
  "tcp_socket_create net server_host server_port backlog =
     res_bind (c_assert (server_port > 0)) (\<lambda>_.
     if \<not> socket_ok net then Inr (Not_Opened 0)
     else
       let open_sockets = 1 in
       if \<not> setsockopt_ok net then Inr (Not_Opened (open_sockets - 1))
       else
         (case inet_pton net server_host of
            None \<Rightarrow> Inr (Not_Opened (open_sockets - 1))
          | Some addr \<Rightarrow>
              let server_address = \<lparr>sin_addr = addr, sin_port = htons server_port\<rparr> in
              if \<not> bind_ok net server_address then Inr (Not_Opened (open_sockets - 1))
              else if \<not> listen_ok net backlog then Inr (Not_Opened (open_sockets - 1))
              else Inr (Listening server_address)))"

definition tcp_socket_or_exit :: "network \<Rightarrow> unit res" where
  "tcp_socket_or_exit net = (if \<not> socket_ok net then c_exit ''failed to create tcp socket'' else Inr ())"

definition ipv4_address_create :: "network \<Rightarrow> string \<Rightarrow> u16 \<Rightarrow> sockaddr_in" where
  "ipv4_address_create net ip port = \<lparr>sin_addr = inet_addr net ip, sin_port = htons port\<rparr>"

section \<open>Sending\<close>

text \<open>The outcome of \<open>send\<close>: it returns -1, or the number of bytes the system has accepted; on a connection
  that the peer has reset, a call without \<open>MSG_NOSIGNAL\<close> raises \<open>SIGPIPE\<close>. Neither server passes this flag,
  handles the signal or ignores it.\<close>

datatype send_result = Send_Failed | Send_Broken_Pipe | Sent nat

text \<open>The bytes that leave.\<close>

fun delivered :: "send_result \<Rightarrow> 'a list \<Rightarrow> 'a list" where
  "delivered (Sent n) bs = take n bs"
| "delivered _ bs = []"

text \<open>The return value of \<open>send\<close>, and the bytes that leave.\<close>

fun send_bytes :: "send_result \<Rightarrow> 'a list \<Rightarrow> (int \<times> 'a list) res" where
  "send_bytes Send_Failed bs = Inr (-1, [])"
| "send_bytes Send_Broken_Pipe bs = Inl Sigpipe"
| "send_bytes (Sent n) bs = Inr (int (length (take n bs)), take n bs)"

section \<open>Ports\<close>

lemma port_of_htons [simp]: "port_of (htons p) = unat p"
proof -
  have low: "unat (ucast p :: u8) = unat p mod 256" by (simp add: unsigned_ucast_eq take_bit_eq_mod)
  have "unat (drop_bit 8 p) = unat p div 256" by (simp only: unat_drop_bit_eq) (simp add: drop_bit_eq_div)
  moreover from this have "unat (drop_bit 8 p) < 256" by (simp add: less_mult_imp_div_less)
  ultimately have "unat (ucast (drop_bit 8 p) :: u8) = unat p div 256" by (simp add: unsigned_ucast_eq take_bit_eq_mod)
  with low show ?thesis by (simp add: port_of_def htons_def)
qed

lemma tcp_socket_create_ok:
  assumes "tcp_socket_create net host port backlog = Inr (Listening addr)"
  shows "inet_pton net host = Some (sin_addr addr)" "port_of (sin_port addr) = unat port"
    "bind_ok net addr" "listen_ok net backlog"
  using assms by (auto simp: tcp_socket_create_def c_assert_def Let_def split: if_splits option.splits)

lemma tcp_socket_create_returns: "0 < port \<Longrightarrow> \<exists>server. tcp_socket_create net host port backlog = Inr server"
  by (auto simp: tcp_socket_create_def c_assert_def Let_def split: option.splits)

text \<open>No socket is left open by a failure.\<close>

lemma tcp_socket_create_no_leak: "tcp_socket_create net host port backlog = Inr (Not_Opened n) \<Longrightarrow> n = 0"
  by (auto simp: tcp_socket_create_def c_assert_def Let_def split: if_splits option.splits)

end
