(* ===== verification/Scgi.thy ===== *)
theory Scgi
  imports ScgiMem Sockets
begin

text \<open>
  The SCGI request parser and the connection handler (\<open>hello-scgi/scgi-backend/src\<close>:
  \<open>scgi.c\<close>, \<open>main.c\<close>). The cursors of the parser are indices into its input buffer. What the parser
  reports on \<open>stderr\<close> about headers and body is its list of events. Parsing is equivalent to
  a run of an automaton over the bytes, and accepts exactly the texts \<open>request_text\<close>.
\<close>

section \<open>The parser\<close>

definition SCGI_INPUT_BUFFER_SIZE :: nat where
  "SCGI_INPUT_BUFFER_SIZE = 4096"

definition SCGI_OUTPUT_BUFFER_SIZE :: nat where
  "SCGI_OUTPUT_BUFFER_SIZE = 4096"

definition SCGI_HEADERS_MAX_SIZE :: nat where
  "SCGI_HEADERS_MAX_SIZE = 1024"

datatype scgi_parser_state =
    SCGI_PARSER_STATE_PARSING_HEADER_NAME
  | SCGI_PARSER_STATE_PARSING_HEADER_VALUE
  | SCGI_PARSER_STATE_PARSING_BODY
  | SCGI_PARSER_STATE_DONE

record scgi_parser =
  sp_state :: scgi_parser_state
  input_buffer :: string
  input_buffer_size :: nat
  cursor_start :: nat
  cursor_end :: nat

datatype scgi_event = Got_Header_Name string | Got_Header_Value string | Got_Body string

definition scgi_parser_init :: "string \<Rightarrow> nat \<Rightarrow> scgi_parser res" where
  "scgi_parser_init buffer buffer_size =
     res_bind (c_assert (buffer_size > 0)) (\<lambda>_.
     Inr \<lparr>sp_state = SCGI_PARSER_STATE_PARSING_HEADER_NAME, input_buffer = buffer,
       input_buffer_size = buffer_size, cursor_start = 0, cursor_end = 0\<rparr>)"

definition scgi_parser_eof :: "scgi_parser \<Rightarrow> bool" where
  "scgi_parser_eof p \<longleftrightarrow> cursor_end p \<ge> input_buffer_size p"

text \<open>The number of bytes the parser is done with; nothing calls it.\<close>

definition scgi_parser_total_parsed :: "scgi_parser \<Rightarrow> nat" where
  "scgi_parser_total_parsed p = cursor_start p"

definition scgi_parser_cursor_size :: "scgi_parser \<Rightarrow> nat" where
  "scgi_parser_cursor_size p = cursor_end p - cursor_start p"

text \<open>A C string in an array ends before the first zero byte.\<close>

definition cstr :: "string \<Rightarrow> string" where
  "cstr s = takeWhile (\<lambda>c. c \<noteq> nul) s"

text \<open>The part that names, values and body share: the bytes between the cursors are copied to a
  zeroed array of 256 characters and printed from it; \<open>None\<close> when there are too many.\<close>

definition scgi_segment :: "scgi_parser \<Rightarrow> string option res" where
  "scgi_segment p =
     (let byte_len = scgi_parser_cursor_size p in
      if byte_len \<ge> 256 - 1 then Inr None
      else if cursor_start p + byte_len > length (input_buffer p) then Inl Out_Of_Bounds
      else res_bind (arr_copy (replicate 256 nul) 0 (take byte_len (drop (cursor_start p) (input_buffer p))))
        (\<lambda>array. Inr (Some (cstr array))))"

text \<open>\<open>Some rc\<close> when the loop returns from the function.\<close>

function scgi_parse_loop ::
    "scgi_parser \<Rightarrow> scgi_event list \<Rightarrow> (int option \<times> scgi_parser \<times> scgi_event list) res" where
  "scgi_parse_loop p evs =
     (if sp_state p \<noteq> SCGI_PARSER_STATE_DONE \<and> \<not> scgi_parser_eof p then
        (case sp_state p of
           SCGI_PARSER_STATE_PARSING_HEADER_NAME \<Rightarrow>
             res_bind (arr_get (input_buffer p) (cursor_end p)) (\<lambda>c.
             if c = CHR '','' then
               scgi_parse_loop (p\<lparr>sp_state := SCGI_PARSER_STATE_PARSING_BODY,
                 cursor_end := cursor_end p + 1, cursor_start := cursor_end p + 1\<rparr>) evs
             else if c \<noteq> nul then scgi_parse_loop (p\<lparr>cursor_end := cursor_end p + 1\<rparr>) evs
             else
               res_bind (scgi_segment p) (\<lambda>header_name.
               case header_name of
                 None \<Rightarrow> Inr (Some 1, p, evs)
               | Some s \<Rightarrow>
                   scgi_parse_loop (p\<lparr>sp_state := SCGI_PARSER_STATE_PARSING_HEADER_VALUE,
                     cursor_end := cursor_end p + 1, cursor_start := cursor_end p + 1\<rparr>)
                     (evs @ [Got_Header_Name s])))
         | SCGI_PARSER_STATE_PARSING_HEADER_VALUE \<Rightarrow>
             res_bind (arr_get (input_buffer p) (cursor_end p)) (\<lambda>c.
             if c \<noteq> nul then scgi_parse_loop (p\<lparr>cursor_end := cursor_end p + 1\<rparr>) evs
             else
               res_bind (scgi_segment p) (\<lambda>header_value.
               case header_value of
                 None \<Rightarrow> Inr (Some 1, p, evs)
               | Some s \<Rightarrow>
                   scgi_parse_loop (p\<lparr>sp_state := SCGI_PARSER_STATE_PARSING_HEADER_NAME,
                     cursor_end := cursor_end p + 1, cursor_start := cursor_end p + 1\<rparr>)
                     (evs @ [Got_Header_Value s])))
         | SCGI_PARSER_STATE_PARSING_BODY \<Rightarrow> scgi_parse_loop (p\<lparr>cursor_end := cursor_end p + 1\<rparr>) evs
         | SCGI_PARSER_STATE_DONE \<Rightarrow> Inr (Some (-1), p, evs))
      else Inr (None, p, evs))"
  by pat_completeness auto
termination
  by (relation "measure (\<lambda>(p, evs). input_buffer_size p - cursor_end p)") (auto simp: scgi_parser_eof_def)

declare scgi_parse_loop.simps [simp del]

definition scgi_parser_parse :: "scgi_parser \<Rightarrow> (int \<times> scgi_parser \<times> scgi_event list) res" where
  "scgi_parser_parse p =
     res_bind (scgi_parse_loop p []) (\<lambda>(returned, p, evs).
     case returned of
       Some rc \<Rightarrow> Inr (rc, p, evs)
     | None \<Rightarrow>
         if scgi_parser_eof p \<and> sp_state p = SCGI_PARSER_STATE_PARSING_BODY then
           res_bind (scgi_segment p) (\<lambda>body.
           case body of
             None \<Rightarrow> Inr (1, p, evs)
           | Some s \<Rightarrow> Inr (0, p\<lparr>sp_state := SCGI_PARSER_STATE_DONE, cursor_start := cursor_end p\<rparr>, evs @ [Got_Body s]))
         else Inr (1, p, evs))"

section \<open>Responses and the connection handler\<close>

definition crlf :: string where
  "crlf = [CHR 0x0D, CHR 0x0A]"

text \<open>What \<open>snprintf\<close> formats; the text is a C string, the length a separate argument.\<close>

definition response_text :: "int \<Rightarrow> string \<Rightarrow> nat \<Rightarrow> string" where
  "response_text status_code text text_len =
     ''Status: '' @ fmt_u (nat status_code) @ '' OK'' @ crlf @
     ''Content-Length: '' @ fmt_u text_len @ crlf @
     ''Content-Type: text/plain; charset=utf-8'' @ crlf @
     crlf @ text"

text \<open>The return code and the bytes sent; \<open>sending\<close> is the outcome of \<open>send\<close>, which is called with flags 0.\<close>

definition scgi_send_text :: "send_result \<Rightarrow> int \<Rightarrow> string \<Rightarrow> nat \<Rightarrow> (int \<times> string) res" where
  "scgi_send_text sending status_code text text_len =
     res_bind (c_assert (status_code \<ge> 100 \<and> status_code < 600)) (\<lambda>_.
     res_bind (c_assert (text_len > 0)) (\<lambda>_.
     if text_len > SCGI_OUTPUT_BUFFER_SIZE then Inr (1, [])
     else
       let formatted = response_text status_code text text_len; bytes_formatted = length formatted in
       res_bind (c_assert (bytes_formatted > 0)) (\<lambda>_.
       res_bind (c_assert (bytes_formatted < SCGI_OUTPUT_BUFFER_SIZE)) (\<lambda>_.
       res_bind (send_bytes sending formatted) (\<lambda>(bytes_sent, bytes).
       if bytes_sent = -1 then Inr (1, bytes) else Inr (0, bytes))))))"

text \<open>Reading the digits of the size of the headers: \<open>None\<close> when the handler returns.\<close>

function read_size_digits :: "connection \<Rightarrow> nat \<Rightarrow> string \<Rightarrow> (string option \<times> connection) res" where
  "read_size_digits conn digits_count digits =
     (case recv_char conn of
        (nread, None, conn) \<Rightarrow> Inr (None, conn)
      | (nread, Some c, conn) \<Rightarrow>
          if c = CHR '':'' then Inr (Some digits, conn)
          else if \<not> isdigit c then Inr (None, conn)
          else if digits_count \<ge> 9 then Inr (None, conn)
          else if digits_count \<ge> length digits then Inl Out_Of_Bounds
          else read_size_digits conn (digits_count + 1) (digits[digits_count := c]))"
  by pat_completeness auto
termination
  by (relation "measure (\<lambda>(conn, digits_count, digits). length digits - digits_count)") auto

declare read_size_digits.simps [simp del]

definition hello :: string where
  "hello = ''Hello, World!'' @ [CHR 0x0A]"

lemma length_hello [simp]: "length hello = 14" "hello \<noteq> []"
  by (simp_all add: hello_def)

text \<open>The outcome of the handler: the bytes sent, and the code and events of the parser when it
  was called. \<open>garbage\<close> is the value of the variable \<open>dummy\<close> before it is assigned: when the
  peer closes the connection after the headers, \<open>recv\<close> returns zero and the code goes on to
  compare it.\<close>

record handled =
  sent :: string
  parsed :: "(int \<times> scgi_event list) option"

definition nothing_sent :: handled where
  "nothing_sent = \<lparr>sent = [], parsed = None\<rparr>"

definition connection_handle :: "send_result \<Rightarrow> char \<Rightarrow> connection \<Rightarrow> handled res" where
  "connection_handle sending garbage conn =
     res_bind (read_size_digits conn 0 (replicate 16 nul)) (\<lambda>(digits, conn).
     case digits of
       None \<Rightarrow> Inr nothing_sent
     | Some headers_size_digits \<Rightarrow>
         (case cstr_parse_size_t (cstr headers_size_digits) of
            None \<Rightarrow> Inr nothing_sent
          | Some headers_size \<Rightarrow>
              if headers_size \<ge> SCGI_HEADERS_MAX_SIZE then Inr nothing_sent
              else
                (case recv conn headers_size of (bytes_read, bytes, conn) \<Rightarrow>
                 if bytes_read < 0 then Inr nothing_sent
                 else
                   res_bind (arr_copy (replicate SCGI_INPUT_BUFFER_SIZE nul) 0 bytes) (\<lambda>buffer.
                   if bytes_read \<noteq> int headers_size then Inr nothing_sent
                   else
                     (case recv conn 1 of (bytes_read, bytes, conn) \<Rightarrow>
                      if bytes_read < 0 then Inr nothing_sent
                      else
                        let dummy = (case bytes of [] \<Rightarrow> garbage | c # _ \<Rightarrow> c) in
                        if dummy \<noteq> CHR '','' then Inr nothing_sent
                        else
                          res_bind (arr_set buffer headers_size dummy) (\<lambda>buffer.
                          res_bind (scgi_parser_init buffer (headers_size + 1)) (\<lambda>parser.
                          res_bind (scgi_parser_parse parser) (\<lambda>(rc, parser, evs).
                          res_bind (scgi_send_text sending 200 hello (length hello)) (\<lambda>(code, bytes).
                          Inr \<lparr>sent = bytes, parsed = Some (rc, evs)\<rparr>)))))))))"

text \<open>The loop over what \<open>accept\<close> returns, \<open>None\<close> for a failure, after which it goes on. Every
  client gets its own allocator, which the handler does not use.\<close>

record scgi_client =
  client_sending :: send_result
  client_garbage :: char
  client_conn :: connection

fun scgi_serve :: "scgi_client option list \<Rightarrow> handled list res" where
  "scgi_serve [] = Inr []"
| "scgi_serve (None # rest) = scgi_serve rest"
| "scgi_serve (Some cl # rest) =
     res_bind (fixed_buffer_allocator_from_buffer 0 4096) (\<lambda>allocator.
     res_bind (connection_handle (client_sending cl) (client_garbage cl) (client_conn cl)) (\<lambda>h.
     res_bind (scgi_serve rest) (\<lambda>hs. Inr (h # hs))))"

text \<open>The return code, when the program ends, and what was done with the clients.\<close>

definition scgi_main :: "network \<Rightarrow> scgi_client option list \<Rightarrow> (int option \<times> handled list) res" where
  "scgi_main net clients =
     res_bind (tcp_socket_create net ''0.0.0.0'' 8081 16) (\<lambda>server.
     case server of
       Not_Opened n \<Rightarrow> Inr (Some 1, [])
     | Listening address \<Rightarrow> res_bind (scgi_serve clients) (\<lambda>hs. Inr (None, hs)))"

section \<open>The parser as an automaton\<close>

text \<open>The bytes from the last mark on and the bytes to come.\<close>

fun scgi_run ::
    "scgi_parser_state \<Rightarrow> string \<Rightarrow> string \<Rightarrow> scgi_event list \<Rightarrow> int \<times> scgi_event list" where
  "scgi_run SCGI_PARSER_STATE_PARSING_HEADER_NAME acc [] evs = (1, evs)"
| "scgi_run SCGI_PARSER_STATE_PARSING_HEADER_NAME acc (c # cs) evs =
     (if c = CHR '','' then scgi_run SCGI_PARSER_STATE_PARSING_BODY [] cs evs
      else if c \<noteq> nul then scgi_run SCGI_PARSER_STATE_PARSING_HEADER_NAME (acc @ [c]) cs evs
      else if length acc \<ge> 255 then (1, evs)
      else scgi_run SCGI_PARSER_STATE_PARSING_HEADER_VALUE [] cs (evs @ [Got_Header_Name (cstr acc)]))"
| "scgi_run SCGI_PARSER_STATE_PARSING_HEADER_VALUE acc [] evs = (1, evs)"
| "scgi_run SCGI_PARSER_STATE_PARSING_HEADER_VALUE acc (c # cs) evs =
     (if c \<noteq> nul then scgi_run SCGI_PARSER_STATE_PARSING_HEADER_VALUE (acc @ [c]) cs evs
      else if length acc \<ge> 255 then (1, evs)
      else scgi_run SCGI_PARSER_STATE_PARSING_HEADER_NAME [] cs (evs @ [Got_Header_Value (cstr acc)]))"
| "scgi_run SCGI_PARSER_STATE_PARSING_BODY acc [] evs =
     (if length acc \<ge> 255 then (1, evs) else (0, evs @ [Got_Body (cstr acc)]))"
| "scgi_run SCGI_PARSER_STATE_PARSING_BODY acc (c # cs) evs =
     scgi_run SCGI_PARSER_STATE_PARSING_BODY (acc @ [c]) cs evs"
| "scgi_run SCGI_PARSER_STATE_DONE acc cs evs = (1, evs)"

lemma cstr_padded: "cstr (acc @ replicate n nul) = cstr acc"
  by (induction acc) (simp_all add: cstr_def)

lemma cstr_no_nul [simp]: "nul \<notin> set s \<Longrightarrow> cstr s = s"
  by (auto simp: cstr_def takeWhile_eq_all_conv)

text \<open>A parser in the middle of its input: \<open>acc\<close> lies between the cursors, \<open>rest\<close> is ahead, and
  the buffer may be longer than the input.\<close>

definition parser_at :: "scgi_parser \<Rightarrow> string \<Rightarrow> string \<Rightarrow> bool" where
  "parser_at p acc rest \<longleftrightarrow>
     cursor_end p = cursor_start p + length acc \<and> input_buffer_size p = cursor_end p + length rest \<and>
     (\<exists>tail. drop (cursor_start p) (input_buffer p) = acc @ rest @ tail) \<and>
     input_buffer_size p \<le> length (input_buffer p)"

lemma parser_at_segment:
  assumes "parser_at p acc rest"
  shows "scgi_segment p = Inr (if length acc \<ge> 255 then None else Some (cstr acc))"
proof -
  have "scgi_parser_cursor_size p = length acc" "take (length acc) (drop (cursor_start p) (input_buffer p)) = acc"
    "cursor_start p + length acc \<le> length (input_buffer p)"
    using assms by (auto simp: parser_at_def scgi_parser_cursor_size_def)
  then show ?thesis
    using cstr_padded [of acc "256 - length acc"]
    by (simp add: scgi_segment_def arr_copy_def)
qed

lemma parser_at_eof: "parser_at p acc rest \<Longrightarrow> scgi_parser_eof p \<longleftrightarrow> rest = []"
  by (auto simp: parser_at_def scgi_parser_eof_def)

lemma parser_at_char:
  assumes "parser_at p acc (c # cs)"
  shows "arr_get (input_buffer p) (cursor_end p) = Inr c"
    and "parser_at (p\<lparr>cursor_end := cursor_end p + 1\<rparr>) (acc @ [c]) cs"
    and "parser_at (p\<lparr>sp_state := st, cursor_end := cursor_end p + 1, cursor_start := cursor_end p + 1\<rparr>) [] cs"
proof -
  from assms obtain tail where p: "cursor_end p = cursor_start p + length acc"
      "input_buffer_size p = cursor_end p + Suc (length cs)"
      "drop (cursor_start p) (input_buffer p) = acc @ c # cs @ tail"
      "input_buffer_size p \<le> length (input_buffer p)"
    by (auto simp: parser_at_def)
  have d: "drop (cursor_end p) (input_buffer p) = c # cs @ tail"
    using arg_cong [OF p(3), of "drop (length acc)"] p(1) by (simp add: add.commute)
  then have lt: "cursor_end p < length (input_buffer p)" using p(2,4) by simp
  have "input_buffer p ! cursor_end p = c"
    using d lt by (metis Cons_nth_drop_Suc list.inject)
  with lt show "arr_get (input_buffer p) (cursor_end p) = Inr c" by simp
  have "drop (Suc (cursor_end p)) (input_buffer p) = cs @ tail"
    using arg_cong [OF d, of tl] by (simp add: tl_drop drop_Suc)
  with p show "parser_at (p\<lparr>cursor_end := cursor_end p + 1\<rparr>) (acc @ [c]) cs"
    and "parser_at (p\<lparr>sp_state := st, cursor_end := cursor_end p + 1, cursor_start := cursor_end p + 1\<rparr>) [] cs"
    by (auto simp: parser_at_def)
qed

text \<open>What remains of \<open>scgi_parser_parse\<close> after the loop.\<close>

definition scgi_finish ::
    "int option \<times> scgi_parser \<times> scgi_event list \<Rightarrow> (int \<times> scgi_parser \<times> scgi_event list) res" where
  "scgi_finish = (\<lambda>(returned, p, evs).
     case returned of
       Some rc \<Rightarrow> Inr (rc, p, evs)
     | None \<Rightarrow>
         if scgi_parser_eof p \<and> sp_state p = SCGI_PARSER_STATE_PARSING_BODY then
           res_bind (scgi_segment p) (\<lambda>body.
           case body of
             None \<Rightarrow> Inr (1, p, evs)
           | Some s \<Rightarrow> Inr (0, p\<lparr>sp_state := SCGI_PARSER_STATE_DONE, cursor_start := cursor_end p\<rparr>, evs @ [Got_Body s]))
         else Inr (1, p, evs))"

lemma scgi_loop_run:
  assumes "parser_at p acc rest" and "sp_state p \<noteq> SCGI_PARSER_STATE_DONE"
  shows "\<exists>p' rc evs'. res_bind (scgi_parse_loop p evs) scgi_finish = Inr (rc, p', evs') \<and>
    scgi_run (sp_state p) acc rest evs = (rc, evs') \<and>
    (rc = 0 \<longrightarrow> sp_state p' = SCGI_PARSER_STATE_DONE)"
  using assms
proof (induction rest arbitrary: p acc evs)
  case Nil
  then show ?case
    using parser_at_eof [OF Nil.prems(1)] parser_at_segment [OF Nil.prems(1)]
    by (subst scgi_parse_loop.simps) (cases "sp_state p"; simp add: scgi_finish_def)
next
  case (Cons c cs)
  note at = parser_at_char [OF Cons.prems(1)] and seg = parser_at_segment [OF Cons.prems(1)]
  have not_eof: "\<not> scgi_parser_eof p" using parser_at_eof [OF Cons.prems(1)] by simp
  show ?case
  proof (cases "sp_state p")
    case SCGI_PARSER_STATE_PARSING_HEADER_NAME
    then show ?thesis
      using at(1) seg not_eof Cons.IH [OF at(2), of evs]
        Cons.IH [OF at(3) [of SCGI_PARSER_STATE_PARSING_BODY], of evs]
        Cons.IH [OF at(3) [of SCGI_PARSER_STATE_PARSING_HEADER_VALUE], of "evs @ [Got_Header_Name (cstr acc)]"]
      by (subst scgi_parse_loop.simps) (auto simp: scgi_finish_def)
  next
    case SCGI_PARSER_STATE_PARSING_HEADER_VALUE
    then show ?thesis
      using at(1) seg not_eof Cons.IH [OF at(2), of evs]
        Cons.IH [OF at(3) [of SCGI_PARSER_STATE_PARSING_HEADER_NAME], of "evs @ [Got_Header_Value (cstr acc)]"]
      by (subst scgi_parse_loop.simps) (auto simp: scgi_finish_def)
  next
    case SCGI_PARSER_STATE_PARSING_BODY
    then show ?thesis
      using not_eof Cons.IH [OF at(2), of evs] by (subst scgi_parse_loop.simps) simp
  next
    case SCGI_PARSER_STATE_DONE
    with Cons.prems(2) show ?thesis by simp
  qed
qed

lemma scgi_parse_run:
  assumes "scgi_parser_init buffer (length inp) = Inr p" and "buffer = inp @ tail"
  shows "\<exists>p' rc evs. scgi_parser_parse p = Inr (rc, p', evs) \<and>
    scgi_run SCGI_PARSER_STATE_PARSING_HEADER_NAME [] inp [] = (rc, evs) \<and>
    (rc = 0 \<longrightarrow> sp_state p' = SCGI_PARSER_STATE_DONE)"
proof -
  have p: "p = \<lparr>sp_state = SCGI_PARSER_STATE_PARSING_HEADER_NAME, input_buffer = buffer,
      input_buffer_size = length inp, cursor_start = 0, cursor_end = 0\<rparr>"
    using assms(1) by (simp add: scgi_parser_init_def c_assert_def split: if_splits)
  then have "parser_at p [] inp" using assms(2) by (simp add: parser_at_def)
  from scgi_loop_run [OF this, of "[]"] show ?thesis
    by (simp add: p scgi_parser_parse_def scgi_finish_def)
qed

section \<open>The requests that are accepted\<close>

definition header_ok :: "string \<times> string \<Rightarrow> bool" where
  "header_ok h \<longleftrightarrow>
     nul \<notin> set (fst h) \<and> CHR '','' \<notin> set (fst h) \<and> length (fst h) < 255 \<and>
     nul \<notin> set (snd h) \<and> length (snd h) < 255"

definition headers_text :: "(string \<times> string) list \<Rightarrow> string" where
  "headers_text hs = concat (map (\<lambda>(n, v). n @ [nul] @ v @ [nul]) hs)"

definition headers_events :: "(string \<times> string) list \<Rightarrow> scgi_event list" where
  "headers_events hs = concat (map (\<lambda>(n, v). [Got_Header_Name n, Got_Header_Value v]) hs)"

text \<open>Headers, a comma and a body. Characters other than zero bytes and commas may stand before
  the comma; the parser drops them.\<close>

definition request_text :: "(string \<times> string) list \<Rightarrow> string \<Rightarrow> string \<Rightarrow> string" where
  "request_text hs junk body = headers_text hs @ junk @ CHR '','' # body"

definition request_ok :: "(string \<times> string) list \<Rightarrow> string \<Rightarrow> string \<Rightarrow> bool" where
  "request_ok hs junk body \<longleftrightarrow>
     list_all header_ok hs \<and> nul \<notin> set junk \<and> CHR '','' \<notin> set junk \<and> length body < 255"

lemma run_name:
  "nul \<notin> set s \<Longrightarrow> CHR '','' \<notin> set s \<Longrightarrow>
    scgi_run SCGI_PARSER_STATE_PARSING_HEADER_NAME acc (s @ cs) evs =
    scgi_run SCGI_PARSER_STATE_PARSING_HEADER_NAME (acc @ s) cs evs"
  by (induction s arbitrary: acc) auto

lemma run_value:
  "nul \<notin> set s \<Longrightarrow>
    scgi_run SCGI_PARSER_STATE_PARSING_HEADER_VALUE acc (s @ cs) evs =
    scgi_run SCGI_PARSER_STATE_PARSING_HEADER_VALUE (acc @ s) cs evs"
  by (induction s arbitrary: acc) auto

lemma run_body:
  "scgi_run SCGI_PARSER_STATE_PARSING_BODY acc cs evs =
    (if length (acc @ cs) \<ge> 255 then (1, evs) else (0, evs @ [Got_Body (cstr (acc @ cs))]))"
  by (induction cs arbitrary: acc) auto

lemma comma_not_nul [simp]: "CHR '','' \<noteq> nul" "nul \<noteq> CHR '',''"
  by (simp_all add: nul_def)

lemma run_headers:
  "list_all header_ok hs \<Longrightarrow>
    scgi_run SCGI_PARSER_STATE_PARSING_HEADER_NAME [] (headers_text hs @ cs) evs =
    scgi_run SCGI_PARSER_STATE_PARSING_HEADER_NAME [] cs (evs @ headers_events hs)"
proof (induction hs arbitrary: evs)
  case Nil
  then show ?case by (simp add: headers_text_def headers_events_def)
next
  case (Cons h hs)
  obtain n v where h: "h = (n, v)" by (cases h)
  have split: "headers_text (h # hs) @ cs = n @ nul # v @ nul # headers_text hs @ cs"
    by (simp add: headers_text_def h)
  show ?case
    unfolding split using Cons h
    by (simp add: header_ok_def run_name run_value headers_events_def)
qed

lemma run_accepts:
  assumes "request_ok hs junk body"
  shows "scgi_run SCGI_PARSER_STATE_PARSING_HEADER_NAME [] (request_text hs junk body) evs =
    (0, evs @ headers_events hs @ [Got_Body (cstr body)])"
  using assms by (simp add: request_ok_def request_text_def run_headers run_name run_body)

text \<open>Conversely, a run that accepts has read such a request.\<close>

lemma run_accepted:
  "scgi_run st acc cs evs = (0, evs') \<Longrightarrow>
    (st = SCGI_PARSER_STATE_PARSING_HEADER_NAME \<longrightarrow> nul \<notin> set acc \<longrightarrow> CHR '','' \<notin> set acc \<longrightarrow>
       (\<exists>hs junk body. request_ok hs junk body \<and> acc @ cs = request_text hs junk body)) \<and>
    (st = SCGI_PARSER_STATE_PARSING_HEADER_VALUE \<longrightarrow> nul \<notin> set acc \<longrightarrow>
       (\<exists>v hs junk body. nul \<notin> set v \<and> length v < 255 \<and> request_ok hs junk body \<and>
          acc @ cs = v @ nul # request_text hs junk body))"
proof (induction st acc cs evs rule: scgi_run.induct)
  case (2 acc c cs evs)
  consider "c = CHR '',''" | "c \<noteq> CHR '',''" "c \<noteq> nul" | "c = nul" by blast
  then show ?case
  proof cases
    case 1
    with 2(4) have "length cs < 255" by (simp add: run_body split: if_splits)
    with 1 have "nul \<notin> set acc \<Longrightarrow> CHR '','' \<notin> set acc \<Longrightarrow> request_ok [] acc cs \<and> acc @ c # cs = request_text [] acc cs"
      by (simp add: request_ok_def request_text_def headers_text_def)
    then show ?thesis by blast
  next
    case 2
    then show ?thesis using "2.IH"(2) "2.prems" by simp
  next
    case 3
    have IH: "\<exists>v hs junk body. nul \<notin> set v \<and> length v < 255 \<and> request_ok hs junk body \<and>
        cs = v @ nul # request_text hs junk body" and len: "length acc < 255"
      using "2.IH"(3) "2.prems" 3 by (auto split: if_splits)
    show ?thesis
    proof (intro conjI impI)
      assume acc: "nul \<notin> set acc" "CHR '','' \<notin> set acc"
      from IH obtain v hs junk body where v: "nul \<notin> set v" "length v < 255" "request_ok hs junk body"
          "cs = v @ nul # request_text hs junk body" by blast
      then have "request_ok ((acc, v) # hs) junk body"
        using acc len by (simp add: request_ok_def header_ok_def)
      moreover have "acc @ c # cs = request_text ((acc, v) # hs) junk body"
        using v(4) 3 by (simp add: request_text_def headers_text_def)
      ultimately show "\<exists>hs junk body. request_ok hs junk body \<and> acc @ c # cs = request_text hs junk body"
        by blast
    qed simp
  qed
next
  case (4 acc c cs evs)
  show ?case
  proof (cases "c = nul")
    case True
    have "length acc < 255" using "4.prems" True by (simp split: if_splits)
    moreover have "\<exists>hs junk body. request_ok hs junk body \<and> cs = request_text hs junk body"
      using "4.IH"(2) "4.prems" True by (auto split: if_splits)
    ultimately show ?thesis using True by blast
  next
    case False
    then show ?thesis using "4.IH"(1) "4.prems" by simp
  qed
qed simp_all

text \<open>C27: The SCGI parser accepts exactly the requests it is meant for. On any input that is not
  empty, at the start of a buffer that may be longer, parsing returns without an access out of bounds; it returns zero
  exactly when the input is a list of headers, name and value each ended by a zero byte and
  shorter than 255 bytes, a comma, and a body shorter than 255 bytes. Then it has reported
  the headers in order and the body up to its first zero byte, and its state is done. Names contain no
  comma, and what stands between the last header and the comma is dropped.\<close>

theorem scgi_parser_accepts_iff:
  assumes "inp \<noteq> []"
  shows "\<exists>p p' rc evs. scgi_parser_init (inp @ tail) (length inp) = Inr p \<and>
    scgi_parser_parse p = Inr (rc, p', evs) \<and>
    (rc = 0 \<longleftrightarrow> (\<exists>hs junk body. request_ok hs junk body \<and> inp = request_text hs junk body)) \<and>
    (\<forall>hs junk body. request_ok hs junk body \<longrightarrow> inp = request_text hs junk body \<longrightarrow>
       evs = headers_events hs @ [Got_Body (cstr body)]) \<and>
    (rc = 0 \<longrightarrow> sp_state p' = SCGI_PARSER_STATE_DONE)"
proof -
  obtain p where p: "scgi_parser_init (inp @ tail) (length inp) = Inr p"
    using assms by (simp add: scgi_parser_init_def c_assert_def)
  from scgi_parse_run [OF p refl] obtain p' rc evs where
      run: "scgi_parser_parse p = Inr (rc, p', evs)"
        "scgi_run SCGI_PARSER_STATE_PARSING_HEADER_NAME [] inp [] = (rc, evs)"
        "rc = 0 \<longrightarrow> sp_state p' = SCGI_PARSER_STATE_DONE"
    by blast
  have "rc = 0 \<Longrightarrow> \<exists>hs junk body. request_ok hs junk body \<and> inp = request_text hs junk body"
    using run_accepted [of SCGI_PARSER_STATE_PARSING_HEADER_NAME "[]" inp "[]" evs] run(2) by simp
  moreover have "rc = 0 \<and> evs = headers_events hs @ [Got_Body (cstr body)]"
    if "request_ok hs junk body" "inp = request_text hs junk body" for hs junk body
    using run_accepts [OF that(1), of "[]"] run(2) that(2) by simp
  ultimately show ?thesis using p run by blast
qed

theorem scgi_parser_accepts_iff_witness:
  "\<exists>p p' rc evs. scgi_parser_init (''SCGI'' @ [nul, CHR ''1'', nul, CHR '','']) 8 = Inr p \<and>
    scgi_parser_parse p = Inr (rc, p', evs) \<and> rc = 0 \<and>
    evs = [Got_Header_Name ''SCGI'', Got_Header_Value ''1'', Got_Body []] \<and>
    sp_state p' = SCGI_PARSER_STATE_DONE"
proof -
  let ?inp = "''SCGI'' @ [nul, CHR ''1'', nul, CHR '','']"
  have req: "request_ok [(''SCGI'', ''1'')] [] []" "?inp = request_text [(''SCGI'', ''1'')] [] []"
    by (simp_all add: request_ok_def header_ok_def nul_def request_text_def headers_text_def)
  have ne: "?inp \<noteq> []" by simp
  obtain p p' rc evs where r: "scgi_parser_init (?inp @ []) (length ?inp) = Inr p"
      "scgi_parser_parse p = Inr (rc, p', evs)"
      "rc = 0 \<longleftrightarrow> (\<exists>hs junk body. request_ok hs junk body \<and> ?inp = request_text hs junk body)"
      "\<forall>hs junk body. request_ok hs junk body \<longrightarrow> ?inp = request_text hs junk body \<longrightarrow>
         evs = headers_events hs @ [Got_Body (cstr body)]"
      "rc = 0 \<longrightarrow> sp_state p' = SCGI_PARSER_STATE_DONE"
    using scgi_parser_accepts_iff [of ?inp "[]", OF ne] by blast
  then have "rc = 0" "evs = headers_events [(''SCGI'', ''1'')] @ [Got_Body (cstr [])]"
    using req by blast+
  with r(1,2,5) show ?thesis by (auto simp: headers_events_def cstr_def eval_nat_numeral)
qed

lemma send_code:
  "res_bind (send_bytes sending bs) (\<lambda>(bytes_sent, bytes). if bytes_sent = -1 then Inr (1, bytes) else Inr (0, bytes)) =
     (case sending of Send_Failed \<Rightarrow> Inr (1, []) | Send_Broken_Pipe \<Rightarrow> Inl Sigpipe | Sent n \<Rightarrow> Inr (0 :: int, take n bs))"
  by (cases sending) auto

text \<open>What \<open>scgi_send_text\<close> does, for a status from 100 to 599 and a text that is not empty:
  a text longer than the output buffer is rejected; otherwise the headers and the text are
  sent when together they are shorter than the buffer, and when they are not an assertion
  fails, although the text passed the check. The headers take 77 bytes and the digits of the length.\<close>

theorem scgi_send_text_spec:
  assumes "100 \<le> status_code" and "status_code < 600" and "text \<noteq> []"
  shows "scgi_send_text sending status_code text (length text) =
    (if length text > 4096 then Inr (1, [])
     else if length text + length (fmt_u (length text)) + 77 \<ge> 4096 then Inl Assert_Failure
     else case sending of
         Send_Failed \<Rightarrow> Inr (1, [])
       | Send_Broken_Pipe \<Rightarrow> Inl Sigpipe
       | Sent n \<Rightarrow> Inr (0, take n (response_text status_code text (length text))))"
proof -
  have "length (fmt_u (nat status_code)) = 3"
  proof -
    have "nat status_code div 10 div 10 < 10" "10 \<le> nat status_code div 10" using assms by auto
    then show ?thesis using assms by (simp add: fmt_u.simps)
  qed
  then have "length (response_text status_code text (length text)) =
      length text + length (fmt_u (length text)) + 77"
    by (simp add: response_text_def crlf_def)
  moreover have "response_text status_code text (length text) \<noteq> []" by (simp add: response_text_def)
  ultimately show ?thesis
    using assms by (simp add: scgi_send_text_def c_assert_def SCGI_OUTPUT_BUFFER_SIZE_def Let_def send_code)
qed

theorem scgi_send_text_spec_witness:
  "scgi_send_text (Sent 7) 200 hello (length hello) = Inr (0, ''Status:'')"
  using scgi_send_text_spec [of 200 hello "Sent 7"] length_hello
  by (simp add: fmt_u.simps response_text_def)

section \<open>The connection handler\<close>

lemma send_hello:
  "scgi_send_text sending 200 hello 14 =
    (case sending of
       Send_Failed \<Rightarrow> Inr (1, [])
     | Send_Broken_Pipe \<Rightarrow> Inl Sigpipe
     | Sent n \<Rightarrow> Inr (0, take n (response_text 200 hello 14)))"
  by (simp add: scgi_send_text_def c_assert_def SCGI_OUTPUT_BUFFER_SIZE_def Let_def send_code)
    (simp add: response_text_def crlf_def fmt_u.simps)

text \<open>How the handler ends once it has called the parser: the response is sent, as far as the system accepts it, or the
  process is ended by the signal.\<close>

definition answered :: "send_result \<Rightarrow> int \<times> scgi_event list \<Rightarrow> handled res" where
  "answered sending r =
     (if sending = Send_Broken_Pipe then Inl Sigpipe
      else Inr \<lparr>sent = delivered sending (response_text 200 hello 14), parsed = Some r\<rparr>)"

lemma read_size_digits_safe:
  "digits_count \<le> 9 \<Longrightarrow> length digits = 16 \<Longrightarrow>
    \<exists>r conn'. read_size_digits conn digits_count digits = Inr (r, conn')"
proof (induction conn digits_count digits rule: read_size_digits.induct)
  case (1 conn digits_count digits)
  then show ?case
    by (cases "incoming conn"; subst read_size_digits.simps) (simp_all add: recv_char_Nil recv_char_Cons)
qed

lemma read_size_digits_spec:
  "\<lbrakk>incoming conn = ds @ CHR '':'' # rest; \<And>c. c \<in> set ds \<Longrightarrow> isdigit c;
    digits_count + length ds \<le> 9; length digits = 16\<rbrakk> \<Longrightarrow>
   read_size_digits conn digits_count digits =
     Inr (Some (take digits_count digits @ ds @ drop (digits_count + length ds) digits), conn\<lparr>incoming := rest\<rparr>)"
proof (induction ds arbitrary: conn digits_count digits)
  case Nil
  then show ?case by (subst read_size_digits.simps) (simp add: recv_char_Cons)
next
  case (Cons c ds)
  let ?conn = "conn\<lparr>incoming := ds @ CHR '':'' # rest\<rparr>"
  have "isdigit c" "c \<noteq> CHR '':''" using Cons.prems(2) [of c] by (auto simp: isdigit_def)
  then have "read_size_digits conn digits_count digits =
      read_size_digits ?conn (digits_count + 1) (digits[digits_count := c])"
    using Cons.prems by (subst read_size_digits.simps) (simp add: recv_char_Cons)
  also have "\<dots> = Inr (Some (take (digits_count + 1) (digits[digits_count := c]) @ ds @
      drop (digits_count + 1 + length ds) (digits[digits_count := c])), ?conn\<lparr>incoming := rest\<rparr>)"
    using Cons.prems by (intro Cons.IH) auto
  also have "take (digits_count + 1) (digits[digits_count := c]) = take digits_count digits @ [c]"
    using Cons.prems(3,4) by (simp add: take_Suc_conv_app_nth)
  finally show ?case by simp
qed

lemma read_size_digits_read:
  "\<lbrakk>read_size_digits conn digits_count digits = Inr (Some d, conn'); length digits = 16\<rbrakk> \<Longrightarrow>
    \<exists>ds. incoming conn = ds @ CHR '':'' # incoming conn' \<and> (\<forall>c \<in> set ds. isdigit c) \<and> (ds = [] \<or> digits_count + length ds \<le> 9) \<and>
      conn' = conn\<lparr>incoming := incoming conn'\<rparr> \<and>
      d = take digits_count digits @ ds @ drop (digits_count + length ds) digits"
proof (induction conn digits_count digits rule: read_size_digits.induct)
  case (1 conn digits_count digits)
  show ?case
  proof (cases "incoming conn")
    case Nil
    with 1(2) show ?thesis by (subst (asm) read_size_digits.simps) (simp add: recv_char_Nil)
  next
    case (Cons c cs)
    show ?thesis
    proof (cases "c = CHR '':''")
      case True
      with Cons 1(2) show ?thesis
        by (subst (asm) read_size_digits.simps) (auto simp: recv_char_Cons)
    next
      case False
      with Cons 1(2,3) have step: "isdigit c" "digits_count < 9"
          "read_size_digits (conn\<lparr>incoming := cs\<rparr>) (digits_count + 1) (digits[digits_count := c]) = Inr (Some d, conn')"
        by (subst (asm) read_size_digits.simps, simp add: recv_char_Cons split: if_splits)+
      with 1(1) [OF recv_char_Cons [OF Cons, symmetric] refl refl False] 1(3) obtain ds where ds:
          "cs = ds @ CHR '':'' # incoming conn'" "\<forall>c \<in> set ds. isdigit c" "ds = [] \<or> digits_count + 1 + length ds \<le> 9"
          "conn' = conn\<lparr>incoming := incoming conn'\<rparr>"
          "d = take (digits_count + 1) (digits[digits_count := c]) @ ds @ drop (digits_count + 1 + length ds) (digits[digits_count := c])"
        by auto
      moreover have "take (digits_count + 1) (digits[digits_count := c]) = take digits_count digits @ [c]"
        using step(2) 1(3) by (simp add: take_Suc_conv_app_nth)
      ultimately show ?thesis using step(1,2) Cons by (intro exI [of _ "c # ds"]) auto
    qed
  qed
qed

lemma digits_value_bound: "(\<forall>c \<in> set ds. isdigit c) \<Longrightarrow> digits_value ds < 10 ^ length ds"
proof (induction ds rule: rev_induct)
  case (snoc c ds)
  then have "digit_value c < 10" "digits_value ds < 10 ^ length ds"
    by (auto simp: isdigit_def digit_value_def)
  then show ?case by (simp add: digits_value_def)
qed (simp add: digits_value_def)

lemma size_digits_parsed:
  assumes "\<forall>c \<in> set ds. isdigit c" and "length ds \<le> 9"
  shows "cstr_parse_size_t (cstr (ds @ replicate k nul)) = Some (digits_value ds)"
proof -
  have "nul \<notin> set ds" using assms(1) by (auto simp: isdigit_def nul_def)
  then have cstr: "cstr (ds @ replicate k nul) = ds" by (simp add: cstr_padded)
  have "(10 :: nat) ^ length ds \<le> 10 ^ 9" using assms(2) by (intro power_increasing) simp_all
  with digits_value_bound [OF assms(1)] have small: "digits_value ds < 2 ^ 64 - 1" by simp
  show ?thesis
  proof (cases "ds = []")
    case True
    then show ?thesis unfolding cstr by (simp add: cstr_parse_size_t_def strtoull_def digits_value_def)
  next
    case False
    then have "strtoull (ds @ []) = (digits_value ds, False, [])"
      using assms(1) small by (intro strtoull_digits) auto
    with small show ?thesis unfolding cstr by (simp add: cstr_parse_size_t_def)
  qed
qed

lemma recv_cases:
  obtains "recv conn n = (0, [], conn)" "n > 0" | "recv conn n = (-1, [], conn)" "n > 0"
  | bs rest where "incoming conn = bs @ rest" "length bs \<le> n"
      "recv conn n = (int (length bs), bs, conn\<lparr>incoming := rest\<rparr>)"
proof (cases "incoming conn = [] \<and> 0 < n")
  case True
  then show ?thesis using that(1,2) by (cases "closed_by_peer conn") (simp_all add: recv_def)
next
  case False
  have "incoming conn = take n (incoming conn) @ drop n (incoming conn)" "length (take n (incoming conn)) \<le> n"
    by simp_all
  moreover from False have "recv conn n = (int (length (take n (incoming conn))), take n (incoming conn),
      conn\<lparr>incoming := drop n (incoming conn)\<rparr>)"
    by (auto simp: recv_def)
  ultimately show ?thesis by (rule that(3))
qed

text \<open>The last part of the handler: parsing and responding.\<close>

lemma parse_and_respond:
  assumes "length hd_bytes < 1024"
  defines "buffer \<equiv> hd_bytes @ drop (length hd_bytes) (replicate SCGI_INPUT_BUFFER_SIZE nul)"
  shows "res_bind (arr_set buffer (length hd_bytes) (CHR '','')) (\<lambda>buffer.
      res_bind (scgi_parser_init buffer (length hd_bytes + 1)) (\<lambda>parser.
      res_bind (scgi_parser_parse parser) (\<lambda>(rc, parser, evs).
      res_bind (scgi_send_text sending 200 hello (length hello)) (\<lambda>(code, bytes).
      Inr \<lparr>sent = bytes, parsed = Some (rc, evs)\<rparr>)))) =
    answered sending (scgi_run SCGI_PARSER_STATE_PARSING_HEADER_NAME [] (hd_bytes @ [CHR '','']) [])"
proof -
  let ?inp = "hd_bytes @ [CHR '','']" and ?tail = "replicate (SCGI_INPUT_BUFFER_SIZE - Suc (length hd_bytes)) nul"
  have len: "length hd_bytes < SCGI_INPUT_BUFFER_SIZE" using assms(1) by (simp add: SCGI_INPUT_BUFFER_SIZE_def)
  have "drop (length hd_bytes) (replicate SCGI_INPUT_BUFFER_SIZE nul) = nul # ?tail"
    using len by (simp add: Suc_diff_Suc flip: replicate_Suc)
  then have set: "arr_set buffer (length hd_bytes) (CHR '','') = Inr (?inp @ ?tail)"
    by (simp add: buffer_def list_update_append)
  obtain p where p: "scgi_parser_init (?inp @ ?tail) (length ?inp) = Inr p"
    by (simp add: scgi_parser_init_def c_assert_def)
  from scgi_parse_run [OF p refl] obtain p' rc evs where
      "scgi_parser_parse p = Inr (rc, p', evs)"
      "scgi_run SCGI_PARSER_STATE_PARSING_HEADER_NAME [] ?inp [] = (rc, evs)"
    by blast
  with set p show ?thesis
    by (cases sending) (simp_all add: send_hello answered_def del: append_assoc)
qed

text \<open>A frame: at most nine digits, which are the length of the headers in decimal, a colon, the headers, fewer than 1024
  bytes, and a comma. When the peer closes the connection instead of sending the comma, the variable that should hold
  it is compared as it is.\<close>

definition framed_as :: "char \<Rightarrow> connection \<Rightarrow> string \<Rightarrow> bool" where
  "framed_as garbage conn h \<longleftrightarrow>
     (\<exists>ds rest. incoming conn = ds @ CHR '':'' # h @ rest \<and> (\<forall>c \<in> set ds. isdigit c) \<and> length ds \<le> 9 \<and>
        digits_value ds = length h \<and> length h < 1024 \<and>
        (case rest of [] \<Rightarrow> closed_by_peer conn \<and> garbage = CHR '','' | c # _ \<Rightarrow> c = CHR '',''))"

lemma connection_handle_framed:
  assumes "framed_as garbage conn h"
  shows "connection_handle sending garbage conn =
    answered sending (scgi_run SCGI_PARSER_STATE_PARSING_HEADER_NAME [] (h @ [CHR '','']) [])"
proof -
  obtain ds rest where f: "incoming conn = ds @ CHR '':'' # h @ rest" "\<forall>c \<in> set ds. isdigit c" "length ds \<le> 9"
      "digits_value ds = length h" "length h < 1024"
      "case rest of [] \<Rightarrow> closed_by_peer conn \<and> garbage = CHR '','' | c # _ \<Rightarrow> c = CHR '',''"
    using assms unfolding framed_as_def by blast
  have digits: "read_size_digits conn 0 (replicate 16 nul) =
      Inr (Some (ds @ replicate (16 - length ds) nul), conn\<lparr>incoming := h @ rest\<rparr>)"
    using read_size_digits_spec [OF f(1), where digits_count = 0 and digits = "replicate 16 nul"] f(2,3) by simp
  have recv_headers: "recv (conn\<lparr>incoming := h @ rest\<rparr>) (length h) = (int (length h), h, conn\<lparr>incoming := rest\<rparr>)"
    by (simp add: recv_def)
  obtain k bytes conn' where recv_comma: "recv (conn\<lparr>incoming := rest\<rparr>) (Suc 0) = (k, bytes, conn')" "0 \<le> k"
      "(case bytes of [] \<Rightarrow> garbage | c # _ \<Rightarrow> c) = CHR '',''"
    using f(6) by (cases rest) (auto simp: recv_def)
  from parse_and_respond [OF f(5), of sending] show ?thesis
    using f(4,5) recv_comma(2,3)
    by (simp add: connection_handle_def digits size_digits_parsed [OF f(2,3)] recv_headers recv_comma(1)
        SCGI_HEADERS_MAX_SIZE_def SCGI_INPUT_BUFFER_SIZE_def arr_copy_def)
qed

lemma connection_handle_unframed:
  assumes "\<nexists>h. framed_as garbage conn h"
  shows "connection_handle sending garbage conn = Inr nothing_sent"
proof -
  obtain r conn' where r: "read_size_digits conn 0 (replicate 16 nul) = Inr (r, conn')"
    using read_size_digits_safe [of 0 "replicate 16 nul" conn] by auto
  show ?thesis
  proof (cases r)
    case None
    with r show ?thesis by (simp add: connection_handle_def)
  next
    case (Some d)
    with read_size_digits_read [of conn 0 "replicate 16 nul" d conn'] r obtain ds where ds:
        "incoming conn = ds @ CHR '':'' # incoming conn'" "\<forall>c \<in> set ds. isdigit c" "length ds \<le> 9"
        "conn' = conn\<lparr>incoming := incoming conn'\<rparr>" "d = ds @ replicate (16 - length ds) nul"
      by auto
    let ?n = "digits_value ds"
    have closed: "closed_by_peer conn' = closed_by_peer conn" using ds(4) by (metis connection.select_convs(2) connection.surjective connection.update_convs(1))
    have n: "cstr_parse_size_t (cstr d) = Some ?n" unfolding ds(5) by (rule size_digits_parsed [OF ds(2,3)])
    note handle = connection_handle_def SCGI_HEADERS_MAX_SIZE_def SCGI_INPUT_BUFFER_SIZE_def arr_copy_def r Some n
    show ?thesis
    proof (cases "?n < 1024")
      case False
      then show ?thesis by (simp add: handle)
    next
      case small: True
      show ?thesis
      proof (cases rule: recv_cases [of conn' ?n])
        case 1
        with small show ?thesis by (simp add: handle)
      next
        case 2
        with small show ?thesis by (simp add: handle)
      next
        case (3 bs rest)
        show ?thesis
        proof (cases "length bs = ?n")
          case False
          with small 3 show ?thesis by (auto simp: handle)
        next
          case True
          have "incoming conn = ds @ CHR '':'' # bs @ rest" using ds(1) 3(1) by simp
          then have "\<not> (case rest of [] \<Rightarrow> closed_by_peer conn \<and> garbage = CHR '','' | c # _ \<Rightarrow> c = CHR '','')"
            using assms ds(2,3) small True [symmetric] unfolding framed_as_def by (metis (no_types, lifting))
          then obtain k bytes conn'' where "recv (conn'\<lparr>incoming := rest\<rparr>) (Suc 0) = (k, bytes, conn'')"
              "k < 0 \<or> (case bytes of [] \<Rightarrow> garbage | c # _ \<Rightarrow> c) \<noteq> CHR '',''"
            using closed by (cases rest) (auto simp: recv_def)
          with small 3 True show ?thesis by (auto simp: handle Let_def)
        qed
      qed
    qed
  qed
qed

text \<open>The clients whose requests end the server: those that are answered on a connection they have reset.\<close>

definition ends_server :: "scgi_client \<Rightarrow> bool" where
  "ends_server cl \<longleftrightarrow>
     client_sending cl = Send_Broken_Pipe \<and> (\<exists>h. framed_as (client_garbage cl) (client_conn cl) h)"

text \<open>What is done with one of the others.\<close>

definition handled_well :: "scgi_client \<Rightarrow> handled \<Rightarrow> bool" where
  "handled_well cl h \<longleftrightarrow>
     connection_handle (client_sending cl) (client_garbage cl) (client_conn cl) = Inr h \<and>
     sent h = (if \<exists>hs. framed_as (client_garbage cl) (client_conn cl) hs
       then delivered (client_sending cl) (response_text 200 hello 14) else [])"

fun accepted_clients :: "scgi_client option list \<Rightarrow> scgi_client list" where
  "accepted_clients [] = []"
| "accepted_clients (None # rest) = accepted_clients rest"
| "accepted_clients (Some cl # rest) = cl # accepted_clients rest"

lemma handle_client:
  "if ends_server cl
   then connection_handle (client_sending cl) (client_garbage cl) (client_conn cl) = Inl Sigpipe
   else \<exists>h. handled_well cl h"
proof (cases "\<exists>hs. framed_as (client_garbage cl) (client_conn cl) hs")
  case True
  then obtain hs where "framed_as (client_garbage cl) (client_conn cl) hs" ..
  from connection_handle_framed [OF this, of "client_sending cl"] True show ?thesis
    by (auto simp: ends_server_def handled_well_def answered_def)
next
  case False
  with connection_handle_unframed [of "client_garbage cl" "client_conn cl" "client_sending cl"]
  have "handled_well cl nothing_sent" by (simp add: handled_well_def nothing_sent_def)
  with False show ?thesis by (auto simp: ends_server_def)
qed

lemma scgi_serve_outcome:
  "if list_ex ends_server (accepted_clients clients) then scgi_serve clients = Inl Sigpipe
   else \<exists>hs. scgi_serve clients = Inr hs \<and> list_all2 handled_well (accepted_clients clients) hs"
proof (induction clients rule: scgi_serve.induct)
  case (3 cl rest)
  have alloc: "\<exists>a. fixed_buffer_allocator_from_buffer 0 4096 = Inr a"
    by (simp add: fixed_buffer_allocator_from_buffer_def c_assert_def)
  show ?case
  proof (cases "ends_server cl")
    case True
    with handle_client [of cl] alloc show ?thesis by auto
  next
    case False
    with handle_client [of cl] obtain h where
        h: "handled_well cl h" "connection_handle (client_sending cl) (client_garbage cl) (client_conn cl) = Inr h"
      by (auto simp: handled_well_def)
    with 3 False alloc show ?thesis by (auto split: if_splits)
  qed
qed simp_all

text \<open>C28: What the clients of the SCGI server can do to it. Whatever bytes they send, however their
  connections end, and whatever an uninitialised variable holds, there is one way to stop it: a request that is framed
  right, on a connection that the peer has reset by the time the response is sent, raises \<open>SIGPIPE\<close>, which ends the
  process. Without such a client the server handles
  every client it has accepted, in order and each as if it were the only one, and sends it as much of the one
  response as the system accepts if its request is framed right, and nothing otherwise. The program ends by itself only when the
  socket cannot be opened, and then no socket stays open.\<close>

theorem scgi_main_outcome:
  "case tcp_socket_create net ''0.0.0.0'' 8081 16 of
     Inl e \<Rightarrow> False
   | Inr (Not_Opened n) \<Rightarrow> n = 0 \<and> scgi_main net clients = Inr (Some 1, [])
   | Inr (Listening address) \<Rightarrow>
       port_of (sin_port address) = 8081 \<and>
       (if list_ex ends_server (accepted_clients clients) then scgi_main net clients = Inl Sigpipe
        else \<exists>hs. scgi_main net clients = Inr (None, hs) \<and>
          list_all2 handled_well (accepted_clients clients) hs)"
proof -
  have "\<exists>server. tcp_socket_create net ''0.0.0.0'' 8081 16 = Inr server"
    by (rule tcp_socket_create_returns) simp
  then obtain server where server: "tcp_socket_create net ''0.0.0.0'' 8081 16 = Inr server" ..
  moreover have "port_of (sin_port address) = 8081" if "server = Listening address" for address
    using tcp_socket_create_ok(2) [of net "''0.0.0.0''" 8081 16 address] server that by simp
  moreover have "n = 0" if "server = Not_Opened n" for n
    using tcp_socket_create_no_leak server that by blast
  ultimately show ?thesis
    using scgi_serve_outcome [of clients] by (cases server) (auto simp: scgi_main_def split: if_splits)
qed

lemma fmt_u_short: "n < 1024 \<Longrightarrow> length (fmt_u n) \<le> 4"
  by (subst fmt_u.simps, subst fmt_u.simps, subst fmt_u.simps, subst fmt_u.simps) simp

text \<open>A request with the size of its headers in decimal is a frame.\<close>

lemma framed_fmt_u:
  assumes "incoming conn = fmt_u (length h) @ CHR '':'' # h @ rest" and "length h < 1024"
    and "case rest of [] \<Rightarrow> closed_by_peer conn \<and> garbage = CHR '','' | c # _ \<Rightarrow> c = CHR '',''"
  shows "framed_as garbage conn h"
  unfolding framed_as_def using assms fmt_u_short [OF assms(2)] fmt_u_digits digits_value_fmt_u [of "length h"]
  by (intro exI [of _ "fmt_u (length h)"] exI [of _ rest]) auto

text \<open>C29: A request that is framed right is answered with status 200, understood or not. When the size of the
  headers in decimal, a colon, so many bytes, fewer than 1024, and a comma arrive, the handler sends the
  response, as much of it as the system accepts; the code of the parser, which is not zero when the headers are malformed, has no
  influence on it. When the bytes are headers, the parser has reported them all.\<close>

theorem connection_handle_answers:
  assumes "incoming conn = fmt_u (length h) @ CHR '':'' # h @ CHR '','' # rest" and "length h < 1024"
  shows "\<exists>rc evs. connection_handle (Sent n) garbage conn =
      Inr \<lparr>sent = take n (response_text 200 hello 14), parsed = Some (rc, evs)\<rparr> \<and>
    (rc = 0 \<longleftrightarrow> (\<exists>hs junk body. request_ok hs junk body \<and> h @ [CHR '',''] = request_text hs junk body)) \<and>
    (\<forall>hs. list_all header_ok hs \<longrightarrow> h = headers_text hs \<longrightarrow> evs = headers_events hs @ [Got_Body []])"
proof -
  obtain rc evs where r: "scgi_run SCGI_PARSER_STATE_PARSING_HEADER_NAME [] (h @ [CHR '','']) [] = (rc, evs)"
    by (cases "scgi_run SCGI_PARSER_STATE_PARSING_HEADER_NAME [] (h @ [CHR '','']) []")
  have run: "connection_handle (Sent n) garbage conn =
      Inr \<lparr>sent = take n (response_text 200 hello 14), parsed = Some (rc, evs)\<rparr>"
    using connection_handle_framed [OF framed_fmt_u [of conn h "CHR '','' # rest" garbage], of "Sent n"] assms r
    by (simp add: answered_def)
  have "rc = 0 \<Longrightarrow> \<exists>hs junk body. request_ok hs junk body \<and> h @ [CHR '',''] = request_text hs junk body"
    using run_accepted [of SCGI_PARSER_STATE_PARSING_HEADER_NAME "[]" "h @ [CHR '','']" "[]" evs] r by simp
  moreover have "rc = 0" if "request_ok hs junk body" "h @ [CHR '',''] = request_text hs junk body" for hs junk body
    using run_accepts [OF that(1), of "[]"] r that(2) by simp
  moreover have "evs = headers_events hs @ [Got_Body []]" if "list_all header_ok hs" "h = headers_text hs" for hs
    using run_accepts [of hs "[]" "[]" "[]"] r that by (simp add: request_ok_def request_text_def cstr_def)
  ultimately show ?thesis using run by blast
qed

theorem connection_handle_answers_witness:
  "\<exists>rc evs. connection_handle (Sent 4096) (CHR ''x'') \<lparr>incoming = ''3:abc,'', closed_by_peer = True\<rparr> =
      Inr \<lparr>sent = response_text 200 hello 14, parsed = Some (rc, evs)\<rparr>"
proof -
  have "length (response_text 200 hello 14) \<le> 4096" by (simp add: response_text_def crlf_def fmt_u.simps)
  then show ?thesis
    using connection_handle_answers [of "\<lparr>incoming = ''3:abc,'', closed_by_peer = True\<rparr>" "''abc''" "[]" 4096 "CHR ''x''"]
    by (auto simp: fmt_u.simps dec_digit_def)
qed

text \<open>The same request on a connection that the peer has reset ends the process.\<close>

lemma reset_connection_ends_server:
  assumes "incoming conn = fmt_u (length h) @ CHR '':'' # h @ CHR '','' # rest" and "length h < 1024"
  shows "connection_handle Send_Broken_Pipe garbage conn = Inl Sigpipe"
  using connection_handle_framed [OF framed_fmt_u [of conn h "CHR '','' # rest" garbage], of Send_Broken_Pipe] assms
  by (simp add: answered_def)

text \<open>When the peer closes the connection instead of sending the comma, the answer depends on an
  uninitialised variable.\<close>

lemma comma_uninitialised:
  assumes "incoming conn = fmt_u (length h) @ CHR '':'' # h" and "length h < 1024" and "closed_by_peer conn"
  shows "\<exists>r. connection_handle (Sent n) (CHR '','') conn = Inr r \<and> sent r = take n (response_text 200 hello 14)"
  using connection_handle_framed [OF framed_fmt_u [of conn h "[]" "CHR '',''"], of "Sent n"] assms
  by (simp add: answered_def)

section \<open>The test program\<close>

text \<open>\<open>test.c\<close> parses one request, given as an array with the terminating zero of the literal. The result is the return code
  and the line printed at the end.\<close>

fun state_number :: "scgi_parser_state \<Rightarrow> int" where
  "state_number SCGI_PARSER_STATE_PARSING_HEADER_NAME = 0"
| "state_number SCGI_PARSER_STATE_PARSING_HEADER_VALUE = 1"
| "state_number SCGI_PARSER_STATE_PARSING_BODY = 2"
| "state_number SCGI_PARSER_STATE_DONE = 3"

definition scgi_request :: string where
  "scgi_request =
     ''70:'' @ ''CONTENT_LENGTH'' @ [nul] @ ''13'' @ [nul] @ ''SCGI'' @ [nul] @ ''1'' @ [nul] @ '','' @ ''Hello, world!'' @ [nul]"

definition scgi_test_main :: "(int \<times> scgi_event list \<times> string) res" where
  "scgi_test_main =
     res_bind (scgi_parser_init scgi_request (length scgi_request)) (\<lambda>parser.
     res_bind (scgi_parser_parse parser) (\<lambda>(rc, parser, evs).
     Inr (rc, evs, ''info: rc='' @ fmt_d rc @ '' state='' @ fmt_d (state_number (sp_state parser)) @ ''\<newline>'')))"

text \<open>The test passes. The length in front of the headers is taken for a part of the first header name.\<close>

lemma scgi_test_passes:
  "scgi_test_main =
     Inr (0,
       [Got_Header_Name ''70:CONTENT_LENGTH'', Got_Header_Value ''13'', Got_Header_Name ''SCGI'', Got_Header_Value ''1'',
        Got_Body ''Hello, world!''],
       ''info: rc=0 state=3\<newline>'')"
  by code_simp

end
