(* ===== verification/HttpConfig.thy ===== *)
theory HttpConfig
  imports Interfaces
begin

text \<open>
  The configuration of the HTTP server (\<open>config.c\<close>, \<open>parse_ull\<close> of \<open>commons.c\<close>), its stopwatch
  (\<open>stopwatch.c\<close>) and the names of the methods (\<open>http/method.c\<close>). The environment is a function;
  the global configuration is passed along. Names that the emulator uses too end in \<open>_http\<close>.
  \<open>size_t\<close> and the times are 64-bit words.
\<close>

section \<open>Configuration\<close>

text \<open>\<open>None\<close> is \<open>RESULT_ERR\<close>.\<close>

definition parse_ull :: "string \<Rightarrow> nat option" where
  "parse_ull inp =
     (case strtoull inp of (v, erange, rest) \<Rightarrow>
        if erange \<or> v = 2 ^ 64 - 1 then None else Some v)"

text \<open>\<open>regcomp\<close> as an input: the text of the error for a pattern that does not compile.\<close>

definition regex_must_compile :: "(string \<Rightarrow> string option) \<Rightarrow> bool \<Rightarrow> string \<Rightarrow> unit res" where
  "regex_must_compile regcomp calloc_ok pattern =
     (case regcomp pattern of
        None \<Rightarrow> Inr ()
      | Some error_msg \<Rightarrow>
          if \<not> calloc_ok then c_exit (''error: regex: compilation failed. pattern='' @ [CHR 0x22] @ pattern @ [CHR 0x22])
          else c_exit (''error: regex: compilation failed: '' @ error_msg @ ''. pattern='' @ [CHR 0x22] @ pattern @ [CHR 0x22]))"

record config_http =
  cfg_debug :: bool
  server_host :: string
  server_port :: u16
  tcp_backlog :: u16
  read_timeout_ms :: u64
  write_timeout_ms :: u64
  connection_timeout_ms :: u64

type_synonym environment = "string \<Rightarrow> string option"

definition config_init_debug :: "environment \<Rightarrow> config_http \<Rightarrow> config_http" where
  "config_init_debug getenv c =
     (if getenv ''HTTP_SERVER_DEBUG'' = None then c\<lparr>cfg_debug := False\<rparr> else c\<lparr>cfg_debug := True\<rparr>)"

definition config_init_host :: "environment \<Rightarrow> config_http \<Rightarrow> config_http" where
  "config_init_host getenv c =
     (case getenv ''HTTP_SERVER_HOST'' of
        None \<Rightarrow> c\<lparr>server_host := ''127.0.0.1''\<rparr>
      | Some v \<Rightarrow> c\<lparr>server_host := v\<rparr>)"

text \<open>The other variables are numbers; the functions return whether they succeeded, and the
  configuration.\<close>

definition config_init_port :: "environment \<Rightarrow> config_http \<Rightarrow> bool \<times> config_http" where
  "config_init_port getenv c =
     (case getenv ''HTTP_SERVER_PORT'' of
        None \<Rightarrow> (True, c\<lparr>server_port := 8080\<rparr>)
      | Some s \<Rightarrow>
          (case parse_ull s of
             None \<Rightarrow> (False, c)
           | Some v \<Rightarrow> if v > 65535 then (False, c) else (True, c\<lparr>server_port := word_of_nat v\<rparr>)))"

definition config_init_tcp_backlog :: "environment \<Rightarrow> config_http \<Rightarrow> bool \<times> config_http" where
  "config_init_tcp_backlog getenv c =
     (case getenv ''HTTP_SERVER_TCP_BACKLOG'' of
        None \<Rightarrow> (True, c\<lparr>tcp_backlog := 16\<rparr>)
      | Some s \<Rightarrow>
          (case parse_ull s of
             None \<Rightarrow> (False, c)
           | Some v \<Rightarrow> if v > 65535 then (False, c) else (True, c\<lparr>tcp_backlog := word_of_nat v\<rparr>)))"

definition config_init_read_timeout_ms :: "environment \<Rightarrow> config_http \<Rightarrow> bool \<times> config_http" where
  "config_init_read_timeout_ms getenv c =
     (case getenv ''HTTP_SERVER_READ_TIMEOUT_MS'' of
        None \<Rightarrow> (True, c\<lparr>read_timeout_ms := 3000\<rparr>)
      | Some s \<Rightarrow>
          (case parse_ull s of
             None \<Rightarrow> (False, c)
           | Some v \<Rightarrow> if v > 2147483647 then (False, c) else (True, c\<lparr>read_timeout_ms := word_of_nat v\<rparr>)))"

definition config_init_write_timeout_ms :: "environment \<Rightarrow> config_http \<Rightarrow> bool \<times> config_http" where
  "config_init_write_timeout_ms getenv c =
     (case getenv ''HTTP_SERVER_WRITE_TIMEOUT_MS'' of
        None \<Rightarrow> (True, c\<lparr>write_timeout_ms := 1\<rparr>)
      | Some s \<Rightarrow>
          (case parse_ull s of
             None \<Rightarrow> (False, c)
           | Some v \<Rightarrow> (True, c\<lparr>write_timeout_ms := word_of_nat v\<rparr>)))"

definition config_init_connection_timeout_ms :: "environment \<Rightarrow> config_http \<Rightarrow> bool \<times> config_http" where
  "config_init_connection_timeout_ms getenv c =
     (case getenv ''HTTP_SERVER_CONNECTION_TIMEOUT_MS'' of
        None \<Rightarrow> (True, c\<lparr>connection_timeout_ms := 9000\<rparr>)
      | Some s \<Rightarrow>
          (case parse_ull s of
             None \<Rightarrow> (False, c)
           | Some v \<Rightarrow> (True, c\<lparr>connection_timeout_ms := word_of_nat v\<rparr>)))"

definition config_init_from_env_http :: "environment \<Rightarrow> config_http \<Rightarrow> bool \<times> config_http" where
  "config_init_from_env_http getenv c =
     (let c = config_init_debug getenv c;
          c = config_init_host getenv c;
          (port_ok, c) = config_init_port getenv c;
          (backlog_ok, c) = config_init_tcp_backlog getenv c;
          (read_ok, c) = config_init_read_timeout_ms getenv c;
          (write_ok, c) = config_init_write_timeout_ms getenv c;
          (connection_ok, c) = config_init_connection_timeout_ms getenv c;
          failed = (\<not> port_ok \<or> \<not> backlog_ok \<or> \<not> read_ok \<or> \<not> write_ok \<or> \<not> connection_ok) in
      (\<not> failed, c))"

section \<open>The stopwatch\<close>

text \<open>Seconds and nanoseconds of \<open>clock_gettime\<close>.\<close>

record timespec =
  tv_sec :: int
  tv_nsec :: int

record stopwatch =
  start_ts :: timespec
  end_ts :: timespec

text \<open>What \<open>clock_gettime\<close> stores, or \<open>None\<close> when it fails.\<close>

definition assert_clock_gettime :: "timespec option \<Rightarrow> timespec res" where
  "assert_clock_gettime now = (case now of None \<Rightarrow> Inl Assert_Failure | Some ts \<Rightarrow> Inr ts)"

definition stopwatch_start :: "timespec option \<Rightarrow> stopwatch \<Rightarrow> stopwatch res" where
  "stopwatch_start now sw = res_bind (assert_clock_gettime now) (\<lambda>ts. Inr (sw\<lparr>start_ts := ts\<rparr>))"

definition stopwatch_stop :: "timespec option \<Rightarrow> stopwatch \<Rightarrow> stopwatch res" where
  "stopwatch_stop now sw = res_bind (assert_clock_gettime now) (\<lambda>ts. Inr (sw\<lparr>end_ts := ts\<rparr>))"

definition stopwatch_get_ns :: "stopwatch \<Rightarrow> u64" where
  "stopwatch_get_ns sw =
     (let diff_s = word_of_int (tv_sec (end_ts sw) - tv_sec (start_ts sw));
          diff_ns = word_of_int (tv_nsec (end_ts sw) - tv_nsec (start_ts sw)) in
      (diff_s * 1000 * 1000 * 1000) + diff_ns)"

definition stopwatch_get_us :: "stopwatch \<Rightarrow> u64" where
  "stopwatch_get_us sw =
     (let diff_s = word_of_int (tv_sec (end_ts sw) - tv_sec (start_ts sw));
          diff_ns = word_of_int (tv_nsec (end_ts sw) - tv_nsec (start_ts sw)) in
      (diff_s * 1000 * 1000) + (diff_ns div 1000))"

section \<open>Methods\<close>

datatype http_method =
    HTTP_METHOD_GET | HTTP_METHOD_PUT | HTTP_METHOD_POST | HTTP_METHOD_HEAD | HTTP_METHOD_TRACE
  | HTTP_METHOD_DELETE | HTTP_METHOD_CONNECT | HTTP_METHOD_OPTIONS

fun http_method_cstr :: "http_method \<Rightarrow> string" where
  "http_method_cstr HTTP_METHOD_GET = ''GET''"
| "http_method_cstr HTTP_METHOD_PUT = ''PUT''"
| "http_method_cstr HTTP_METHOD_POST = ''POST''"
| "http_method_cstr HTTP_METHOD_HEAD = ''HEAD''"
| "http_method_cstr HTTP_METHOD_TRACE = ''TRACE''"
| "http_method_cstr HTTP_METHOD_DELETE = ''DELETE''"
| "http_method_cstr HTTP_METHOD_CONNECT = ''CONNECT''"
| "http_method_cstr HTTP_METHOD_OPTIONS = ''OPTIONS''"

lemma http_method_cstr_inj: "http_method_cstr m = http_method_cstr m' \<Longrightarrow> m = m'"
  by (cases m; cases m') simp_all

section \<open>Correctness of the configuration\<close>

text \<open>The value of a numeric variable: its default when it is not set, and no value when it does
  not parse or exceeds its bound.\<close>

definition env_number :: "environment \<Rightarrow> string \<Rightarrow> nat \<Rightarrow> nat \<Rightarrow> nat option" where
  "env_number getenv key dflt bound =
     (case getenv key of
        None \<Rightarrow> Some dflt
      | Some s \<Rightarrow> (case parse_ull s of None \<Rightarrow> None | Some v \<Rightarrow> if v \<le> bound then Some v else None))"

lemma parse_ull_bound: "parse_ull s = Some v \<Longrightarrow> v < 2 ^ 64"
  by (auto simp: parse_ull_def strtoull_def Let_def split: if_splits)

lemma env_numbers:
  "config_init_port getenv c =
     (case env_number getenv ''HTTP_SERVER_PORT'' 8080 65535 of
        None \<Rightarrow> (False, c) | Some v \<Rightarrow> (True, c\<lparr>server_port := word_of_nat v\<rparr>))"
  "config_init_tcp_backlog getenv c =
     (case env_number getenv ''HTTP_SERVER_TCP_BACKLOG'' 16 65535 of
        None \<Rightarrow> (False, c) | Some v \<Rightarrow> (True, c\<lparr>tcp_backlog := word_of_nat v\<rparr>))"
  "config_init_read_timeout_ms getenv c =
     (case env_number getenv ''HTTP_SERVER_READ_TIMEOUT_MS'' 3000 2147483647 of
        None \<Rightarrow> (False, c) | Some v \<Rightarrow> (True, c\<lparr>read_timeout_ms := word_of_nat v\<rparr>))"
  "config_init_write_timeout_ms getenv c =
     (case env_number getenv ''HTTP_SERVER_WRITE_TIMEOUT_MS'' 1 (2 ^ 64) of
        None \<Rightarrow> (False, c) | Some v \<Rightarrow> (True, c\<lparr>write_timeout_ms := word_of_nat v\<rparr>))"
  "config_init_connection_timeout_ms getenv c =
     (case env_number getenv ''HTTP_SERVER_CONNECTION_TIMEOUT_MS'' 9000 (2 ^ 64) of
        None \<Rightarrow> (False, c) | Some v \<Rightarrow> (True, c\<lparr>connection_timeout_ms := word_of_nat v\<rparr>))"
  by (auto simp: config_init_port_def config_init_tcp_backlog_def config_init_read_timeout_ms_def
      config_init_write_timeout_ms_def config_init_connection_timeout_ms_def env_number_def
      split: option.splits dest: parse_ull_bound)

text \<open>C32: The configuration succeeds exactly when each of the five numbers has a value, and then
  every field holds the value of its variable or its default; none is cut off by the width
  of its field.\<close>

theorem http_config_from_env:
  "case config_init_from_env_http getenv c of (ok, c') \<Rightarrow>
    (ok \<longleftrightarrow> env_number getenv ''HTTP_SERVER_PORT'' 8080 65535 \<noteq> None \<and>
       env_number getenv ''HTTP_SERVER_TCP_BACKLOG'' 16 65535 \<noteq> None \<and>
       env_number getenv ''HTTP_SERVER_READ_TIMEOUT_MS'' 3000 2147483647 \<noteq> None \<and>
       env_number getenv ''HTTP_SERVER_WRITE_TIMEOUT_MS'' 1 (2 ^ 64) \<noteq> None \<and>
       env_number getenv ''HTTP_SERVER_CONNECTION_TIMEOUT_MS'' 9000 (2 ^ 64) \<noteq> None) \<and>
    (ok \<longrightarrow> Some (unat (server_port c')) = env_number getenv ''HTTP_SERVER_PORT'' 8080 65535 \<and>
       Some (unat (tcp_backlog c')) = env_number getenv ''HTTP_SERVER_TCP_BACKLOG'' 16 65535 \<and>
       Some (unat (read_timeout_ms c')) = env_number getenv ''HTTP_SERVER_READ_TIMEOUT_MS'' 3000 2147483647 \<and>
       Some (unat (write_timeout_ms c')) = env_number getenv ''HTTP_SERVER_WRITE_TIMEOUT_MS'' 1 (2 ^ 64) \<and>
       Some (unat (connection_timeout_ms c')) = env_number getenv ''HTTP_SERVER_CONNECTION_TIMEOUT_MS'' 9000 (2 ^ 64)) \<and>
    server_host c' = (case getenv ''HTTP_SERVER_HOST'' of None \<Rightarrow> ''127.0.0.1'' | Some v \<Rightarrow> v) \<and>
    (cfg_debug c' \<longleftrightarrow> getenv ''HTTP_SERVER_DEBUG'' \<noteq> None)"
proof -
  have width: "v < 2 ^ 64" if "env_number getenv key d b = Some v" "d < 2 ^ 64" for key d b v
    using that by (auto simp: env_number_def split: option.splits if_splits dest: parse_ull_bound)
  have small: "v \<le> b" if "env_number getenv key d b = Some v" "d \<le> b" for key d b v
    using that by (auto simp: env_number_def split: option.splits if_splits)
  show ?thesis
    using small [of "''HTTP_SERVER_PORT''" 8080 65535] small [of "''HTTP_SERVER_TCP_BACKLOG''" 16 65535]
      width [of "''HTTP_SERVER_READ_TIMEOUT_MS''" 3000 2147483647]
      width [of "''HTTP_SERVER_WRITE_TIMEOUT_MS''" 1 "2 ^ 64"]
      width [of "''HTTP_SERVER_CONNECTION_TIMEOUT_MS''" 9000 "2 ^ 64"]
    unfolding config_init_from_env_http_def env_numbers
    by (auto simp: Let_def config_init_debug_def config_init_host_def unat_of_nat split: option.splits)
qed

definition config_zero :: config_http where
  "config_zero = \<lparr>cfg_debug = False, server_host = [], server_port = 0, tcp_backlog = 0, read_timeout_ms = 0,
    write_timeout_ms = 0, connection_timeout_ms = 0\<rparr>"

theorem http_config_from_env_witness:
  "fst (config_init_from_env_http (\<lambda>_. None) config_zero) \<and>
   unat (server_port (snd (config_init_from_env_http (\<lambda>_. None) config_zero))) = 8080"
  using http_config_from_env [of "\<lambda>_. None" config_zero] by (simp add: env_number_def split: prod.splits)

text \<open>A value that is no number counts as zero.\<close>

lemma parse_ull_garbage: "parse_ull ''abc'' = Some 0"
  by (simp add: parse_ull_def strtoull_def isspace_def isdigit_def)

section \<open>Correctness of the stopwatch\<close>

definition elapsed_ns :: "stopwatch \<Rightarrow> int" where
  "elapsed_ns sw =
     (tv_sec (end_ts sw) * 1000000000 + tv_nsec (end_ts sw)) -
     (tv_sec (start_ts sw) * 1000000000 + tv_nsec (start_ts sw))"

lemma uint_word_of_int_u64: "0 \<le> i \<Longrightarrow> i < 2 ^ 64 \<Longrightarrow> uint (word_of_int i :: u64) = i"
  by (simp add: uint_word_of_int)

text \<open>The stopwatch counts nanoseconds right, although it subtracts the parts of the times
  separately and the difference of the nanoseconds may be negative: as long as the elapsed time fits 64 bits, the
  wrap-around cancels. It counts microseconds right when the nanoseconds at the end are not below those
  at the start; otherwise it divides a difference that has wrapped around.\<close>

theorem stopwatch_measures:
  assumes "0 \<le> elapsed_ns sw" and "elapsed_ns sw < 2 ^ 64"
  shows "uint (stopwatch_get_ns sw) = elapsed_ns sw \<and>
    (tv_nsec (start_ts sw) \<le> tv_nsec (end_ts sw) \<and> tv_nsec (end_ts sw) < 1000000000 \<and> 0 \<le> tv_nsec (start_ts sw) \<longrightarrow>
       uint (stopwatch_get_us sw) = elapsed_ns sw div 1000)"
proof (intro conjI impI)
  have "stopwatch_get_ns sw = word_of_int (elapsed_ns sw)"
    by (simp add: stopwatch_get_ns_def elapsed_ns_def algebra_simps)
  then show "uint (stopwatch_get_ns sw) = elapsed_ns sw"
    using assms by (simp only: uint_word_of_int_u64)
next
  define s n where "s = tv_sec (end_ts sw) - tv_sec (start_ts sw)" and "n = tv_nsec (end_ts sw) - tv_nsec (start_ts sw)"
  assume "tv_nsec (start_ts sw) \<le> tv_nsec (end_ts sw) \<and> tv_nsec (end_ts sw) < 1000000000 \<and> 0 \<le> tv_nsec (start_ts sw)"
  then have n: "0 \<le> n" "n < 1000000000" by (auto simp: n_def)
  have split: "elapsed_ns sw = s * 1000000000 + n" by (simp add: elapsed_ns_def s_def n_def algebra_simps)
  have s: "0 \<le> s" using n assms(1) unfolding split by linarith
  have us: "elapsed_ns sw div 1000 = s * 1000000 + n div 1000" using split by simp
  have range: "0 \<le> s * 1000000 + n div 1000" "s * 1000000 + n div 1000 < 2 ^ 64"
    using s n assms(2) us by (auto simp: div_less_dividend)
  have "uint ((word_of_int n :: u64) div 1000) = n div 1000"
    using n by (simp add: uint_div uint_word_of_int_u64)
  then have "(word_of_int n :: u64) div 1000 = word_of_int (n div 1000)"
    by (metis word_of_int_uint)
  then have "stopwatch_get_us sw = word_of_int (s * 1000000 + n div 1000)"
    by (simp add: stopwatch_get_us_def Let_def algebra_simps flip: s_def n_def)
  then show "uint (stopwatch_get_us sw) = elapsed_ns sw div 1000"
    unfolding us using uint_word_of_int_u64 [OF range] by simp
qed

theorem stopwatch_measures_witness:
  "uint (stopwatch_get_ns \<lparr>start_ts = \<lparr>tv_sec = 5, tv_nsec = 900\<rparr>, end_ts = \<lparr>tv_sec = 7, tv_nsec = 100\<rparr>\<rparr>) = 1999999200"
  using stopwatch_measures [of "\<lparr>start_ts = \<lparr>tv_sec = 5, tv_nsec = 900\<rparr>, end_ts = \<lparr>tv_sec = 7, tv_nsec = 100\<rparr>\<rparr>"]
  by (simp add: elapsed_ns_def)

text \<open>One nanosecond across the turn of a second is measured as more than eighteen thousand million
  seconds.\<close>

lemma stopwatch_us_wraps:
  "elapsed_ns sw = 1 \<and> uint (stopwatch_get_us sw) > 18000000000 * 1000000"
  if "sw = \<lparr>start_ts = \<lparr>tv_sec = 0, tv_nsec = 999999999\<rparr>, end_ts = \<lparr>tv_sec = 1, tv_nsec = 0\<rparr>\<rparr>"
  by (simp add: that stopwatch_get_us_def elapsed_ns_def)

end
