(* ===== verification/HttpLog.thy ===== *)
theory HttpLog
  imports Printf
begin

text \<open>
  The log macros of the HTTP server (\<open>log.h\<close>, with the colours of \<open>ansi.h\<close>). Unlike the logger of the emulator
  they have no level and no buffer of their own: every message goes to \<open>stderr\<close> as it is, behind the name that a
  source file defines as \<open>LOG_NAME\<close>, here an argument. A result is the line written.
\<close>

definition LOG_TAG :: "string \<Rightarrow> string" where
  "LOG_TAG LOG_NAME = ansi ''0;93'' @ LOG_NAME @ ansi ''0'' @ '': ''"

definition LOG_TAG_DEBUG :: string where
  "LOG_TAG_DEBUG = ansi ''0;96'' @ ''debug'' @ ansi ''0'' @ '': ''"

definition LOG_TAG_INFO :: string where
  "LOG_TAG_INFO = ansi ''0;92'' @ ''info'' @ ansi ''0'' @ '': ''"

definition LOG_TAG_WARN :: string where
  "LOG_TAG_WARN = ansi ''38;5;214'' @ ''warn'' @ ansi ''0'' @ '': ''"

definition LOG_TAG_ERROR :: string where
  "LOG_TAG_ERROR = ansi ''0;91'' @ ''error'' @ ansi ''0'' @ '': ''"

definition LOG_DEBUGF :: "string \<Rightarrow> string \<Rightarrow> printf_arg list \<Rightarrow> string res" where
  "LOG_DEBUGF LOG_NAME FMT args = c_printf (LOG_TAG LOG_NAME @ LOG_TAG_DEBUG @ FMT @ ''\<newline>'') args"

definition LOG_DEBUG :: "string \<Rightarrow> string \<Rightarrow> string" where
  "LOG_DEBUG LOG_NAME S = LOG_TAG LOG_NAME @ LOG_TAG_DEBUG @ S @ ''\<newline>''"

definition LOG_INFOF :: "string \<Rightarrow> string \<Rightarrow> printf_arg list \<Rightarrow> string res" where
  "LOG_INFOF LOG_NAME FMT args = c_printf (LOG_TAG LOG_NAME @ LOG_TAG_INFO @ FMT @ ''\<newline>'') args"

definition LOG_INFO :: "string \<Rightarrow> string \<Rightarrow> string" where
  "LOG_INFO LOG_NAME S = LOG_TAG LOG_NAME @ LOG_TAG_INFO @ S @ ''\<newline>''"

definition LOG_WARNF :: "string \<Rightarrow> string \<Rightarrow> printf_arg list \<Rightarrow> string res" where
  "LOG_WARNF LOG_NAME FMT args =
     c_printf (LOG_TAG LOG_NAME @ LOG_TAG_WARN @ ansi ''0;97'' @ FMT @ ansi ''0'' @ ''\<newline>'') args"

definition LOG_WARN :: "string \<Rightarrow> string \<Rightarrow> string" where
  "LOG_WARN LOG_NAME S = LOG_TAG LOG_NAME @ LOG_TAG_WARN @ ansi ''0;97'' @ S @ ansi ''0'' @ ''\<newline>''"

definition LOG_ERRORF :: "string \<Rightarrow> string \<Rightarrow> printf_arg list \<Rightarrow> string res" where
  "LOG_ERRORF LOG_NAME FMT args =
     c_printf (LOG_TAG LOG_NAME @ LOG_TAG_ERROR @ ansi ''0;97'' @ FMT @ ansi ''0'' @ ''\<newline>'') args"

definition LOG_ERROR :: "string \<Rightarrow> string \<Rightarrow> string" where
  "LOG_ERROR LOG_NAME S = LOG_TAG LOG_NAME @ LOG_TAG_ERROR @ ansi ''0;97'' @ S @ ansi ''0'' @ ''\<newline>''"

section \<open>A format is the message it prints\<close>

lemma log_prefix:
  assumes "CHR ''%'' \<notin> set pre" and "c_printf fmt args = Inr m" and "CHR ''%'' \<notin> set post"
  shows "c_printf (pre @ fmt @ post) args = Inr (pre @ m @ post)"
  using assms(1) c_printf_append [OF assms(2,3)] by simp

text \<open>The formatted macros write what the plain ones write of the formatted text, provided that the name of the source
  file has no percent sign.\<close>

lemma log_formatted:
  assumes "c_printf fmt args = Inr m" and "CHR ''%'' \<notin> set n"
  shows "LOG_DEBUGF n fmt args = Inr (LOG_DEBUG n m)" and "LOG_INFOF n fmt args = Inr (LOG_INFO n m)"
    and "LOG_WARNF n fmt args = Inr (LOG_WARN n m)" and "LOG_ERRORF n fmt args = Inr (LOG_ERROR n m)"
proof -
  note pre = log_prefix [OF _ assms(1)]
  have esc: "CHR ''%'' \<notin> set (LOG_TAG n)" using assms(2) by (simp add: LOG_TAG_def ansi_def)
  show "LOG_DEBUGF n fmt args = Inr (LOG_DEBUG n m)"
    using pre [of "LOG_TAG n @ LOG_TAG_DEBUG" "''\<newline>''"] esc
    by (simp add: LOG_DEBUGF_def LOG_DEBUG_def LOG_TAG_DEBUG_def ansi_def)
  show "LOG_INFOF n fmt args = Inr (LOG_INFO n m)"
    using pre [of "LOG_TAG n @ LOG_TAG_INFO" "''\<newline>''"] esc
    by (simp add: LOG_INFOF_def LOG_INFO_def LOG_TAG_INFO_def ansi_def)
  show "LOG_WARNF n fmt args = Inr (LOG_WARN n m)"
    using pre [of "LOG_TAG n @ LOG_TAG_WARN @ ansi ''0;97''" "ansi ''0'' @ ''\<newline>''"] esc
    by (simp add: LOG_WARNF_def LOG_WARN_def LOG_TAG_WARN_def ansi_def)
  show "LOG_ERRORF n fmt args = Inr (LOG_ERROR n m)"
    using pre [of "LOG_TAG n @ LOG_TAG_ERROR @ ansi ''0;97''" "ansi ''0'' @ ''\<newline>''"] esc
    by (simp add: LOG_ERRORF_def LOG_ERROR_def LOG_TAG_ERROR_def ansi_def)
qed

end
