(* ===== verification/DynamicArray.thy ===== *)
theory DynamicArray
  imports Interfaces
begin

text \<open>
  The dynamic array of bytes of the HTTP server (\<open>networking/http-server/.../dynamic-array.h\<close>).
  \<open>size_t\<close> is a 64-bit word. The memory behind \<open>items\<close> is a list of bytes, or \<open>None\<close> for a null
  pointer. \<open>realloc\<close> keeps the bytes it can; which sizes it can provide, and what the fresh
  bytes contain, are inputs, the record \<open>heap\<close>. The interpretation \<open>darray\<close> of the locale
  \<open>byte_sink\<close> shows that the array collects the bytes appended to it.
\<close>

section \<open>State and operations\<close>

record heap =
  heap_ok :: "nat \<Rightarrow> bool"
  fresh :: "nat \<Rightarrow> u8"

definition c_calloc :: "heap \<Rightarrow> nat \<Rightarrow> u8 list option" where
  "c_calloc h n = (if heap_ok h n then Some (replicate n 0) else None)"

definition c_realloc :: "heap \<Rightarrow> u8 list option \<Rightarrow> nat \<Rightarrow> u8 list option" where
  "c_realloc h old n =
     (let bytes = (case old of None \<Rightarrow> [] | Some bs \<Rightarrow> bs) in
      if heap_ok h n then Some (take n bytes @ map (fresh h) [length bytes..<n]) else None)"

definition DYNAMIC_ARRAY_INITIAL_CAPACITY :: u64 where
  "DYNAMIC_ARRAY_INITIAL_CAPACITY = 8"

definition DYNAMIC_ARRAY_GROW_FACTOR :: u64 where
  "DYNAMIC_ARRAY_GROW_FACTOR = 2"

record dynamic_array =
  da_items :: "u8 list option"
  da_length :: u64
  da_capacity :: u64

definition dynamic_array_init :: dynamic_array where
  "dynamic_array_init = \<lparr>da_items = None, da_length = 0, da_capacity = 0\<rparr>"

definition dynamic_array_init_with_capacity ::
    "heap \<Rightarrow> dynamic_array \<Rightarrow> u64 \<Rightarrow> (int \<times> dynamic_array) res" where
  "dynamic_array_init_with_capacity h self initial_capacity =
     res_bind (c_assert (initial_capacity > 0)) (\<lambda>_.
     case c_calloc h (unat initial_capacity) of
       None \<Rightarrow> Inr (1, self)
     | Some buffer \<Rightarrow> Inr (0, \<lparr>da_items = Some buffer, da_length = 0, da_capacity = initial_capacity\<rparr>))"

definition dynamic_array_free :: "dynamic_array \<Rightarrow> dynamic_array" where
  "dynamic_array_free self = \<lparr>da_items = None, da_length = 0, da_capacity = 0\<rparr>"

definition dynamic_array_is_full :: "dynamic_array \<Rightarrow> bool" where
  "dynamic_array_is_full self \<longleftrightarrow> da_length self \<ge> da_capacity self"

definition dynamic_array_would_overflow :: "dynamic_array \<Rightarrow> u64 \<Rightarrow> bool" where
  "dynamic_array_would_overflow self byte_count =
     (if byte_count = 0 then dynamic_array_is_full self
      else da_length self + byte_count > da_capacity self)"

text \<open>Writing bytes behind \<open>items + length\<close>.\<close>

definition write_items :: "dynamic_array \<Rightarrow> u8 list \<Rightarrow> dynamic_array res" where
  "write_items self bs =
     (case da_items self of
        None \<Rightarrow> Inl Null_Deref
      | Some items \<Rightarrow>
          res_bind (arr_copy items (unat (da_length self)) bs) (\<lambda>items. Inr (self\<lparr>da_items := Some items\<rparr>)))"

definition dynamic_array_push_back_byte :: "heap \<Rightarrow> dynamic_array \<Rightarrow> u8 \<Rightarrow> (int \<times> dynamic_array) res" where
  "dynamic_array_push_back_byte h self item =
     (let new_capacity = (if da_capacity self = 0 then DYNAMIC_ARRAY_INITIAL_CAPACITY
                          else DYNAMIC_ARRAY_GROW_FACTOR * da_capacity self);
          full = dynamic_array_is_full self;
          self = (if full then self\<lparr>da_items := c_realloc h (da_items self) (unat new_capacity)\<rparr> else self) in
      if full \<and> da_items self = None then Inr (1, self)
      else
        let self = (if full then self\<lparr>da_capacity := new_capacity\<rparr> else self) in
        res_bind (write_items self [item]) (\<lambda>self.
        Inr (0, self\<lparr>da_length := da_length self + 1\<rparr>)))"

definition dynamic_array_push_back :: "heap \<Rightarrow> dynamic_array \<Rightarrow> u8 list \<Rightarrow> (int \<times> dynamic_array) res" where
  "dynamic_array_push_back h self buffer =
     (let buffer_len = word_of_nat (length buffer) in
      res_bind (c_assert (buffer_len > 0)) (\<lambda>_.
      let extra_count = (da_length self + buffer_len) - da_capacity self;
          new_capacity = (if da_capacity self = 0 then max DYNAMIC_ARRAY_INITIAL_CAPACITY extra_count
                          else DYNAMIC_ARRAY_GROW_FACTOR * (da_capacity self + extra_count));
          overflow = dynamic_array_would_overflow self buffer_len;
          self = (if overflow then self\<lparr>da_items := c_realloc h (da_items self) (unat new_capacity)\<rparr> else self) in
      if overflow \<and> da_items self = None then Inr (1, self)
      else
        let self = (if overflow then self\<lparr>da_capacity := new_capacity\<rparr> else self) in
        res_bind (write_items self buffer) (\<lambda>self.
        Inr (0, self\<lparr>da_length := da_length self + buffer_len\<rparr>))))"

definition dynamic_array_ensure_capacity :: "dynamic_array \<Rightarrow> u64 \<Rightarrow> int" where
  "dynamic_array_ensure_capacity self required_capacity =
     (if required_capacity \<le> da_capacity self then 0 else 1)"

section \<open>Correctness\<close>

definition array_bytes :: "dynamic_array \<Rightarrow> u8 list" where
  "array_bytes a = (case da_items a of None \<Rightarrow> [] | Some items \<Rightarrow> take (unat (da_length a)) items)"

text \<open>The capacity is the size of the memory, the length within it. The bounds keep the
  arithmetic of \<open>size_t\<close> from wrapping around.\<close>

definition array_wf :: "dynamic_array \<Rightarrow> bool" where
  "array_wf a \<longleftrightarrow>
     (case da_items a of None \<Rightarrow> da_capacity a = 0 | Some items \<Rightarrow> length items = unat (da_capacity a)) \<and>
     da_length a \<le> da_capacity a \<and> unat (da_capacity a) < 2 ^ 63"

lemma length_array_bytes: "array_wf a \<Longrightarrow> length (array_bytes a) = unat (da_length a)"
  by (auto simp: array_wf_def array_bytes_def word_le_nat_alt min_def split: option.splits)

lemma array_init_wf: "array_wf dynamic_array_init" "array_bytes dynamic_array_init = []"
  by (simp_all add: array_wf_def array_bytes_def dynamic_array_init_def)

text \<open>Writing into an array with room.\<close>

lemma write_items_ok:
  assumes "array_wf a" and "unat (da_length a) + length bs \<le> unat (da_capacity a)" and "bs \<noteq> []"
  shows "\<exists>a'. write_items a bs = Inr a' \<and> da_length a' = da_length a \<and> da_capacity a' = da_capacity a \<and>
    array_wf (a'\<lparr>da_length := da_length a + word_of_nat (length bs)\<rparr>) \<and>
    array_bytes (a'\<lparr>da_length := da_length a + word_of_nat (length bs)\<rparr>) = array_bytes a @ bs"
proof -
  from assms obtain items where items: "da_items a = Some items" "length items = unat (da_capacity a)"
    by (cases "da_items a") (auto simp: array_wf_def)
  have "unat (da_length a) + length bs < 2 ^ 64" using assms(1,2) by (simp add: array_wf_def)
  then have "unat (da_length a + word_of_nat (length bs)) = unat (da_length a) + length bs"
    by (simp add: unat_word_ariths unat_of_nat)
  then show ?thesis
    using assms items
    by (simp add: write_items_def arr_copy_def array_wf_def array_bytes_def word_le_nat_alt)
qed

text \<open>Growing an array.\<close>

lemma length_c_realloc: "c_realloc h old n = Some new \<Longrightarrow> length new = n"
  by (auto simp: c_realloc_def Let_def split: if_splits)

lemma c_realloc_None: "c_realloc h old n = None \<longleftrightarrow> \<not> heap_ok h n"
  by (simp add: c_realloc_def Let_def)

lemma c_realloc_keeps:
  assumes "c_realloc h (Some items) n = Some new" and "length items \<le> n" and "k \<le> length items"
  shows "take k new = take k items"
  using assms by (auto simp: c_realloc_def Let_def split: if_splits)

lemma grow_ok:
  assumes "array_wf a" and "c_realloc h (da_items a) (unat nc) = Some new"
    and "unat (da_capacity a) \<le> unat nc" and "unat nc < 2 ^ 63"
  shows "array_wf (a\<lparr>da_items := Some new, da_capacity := nc\<rparr>)"
    and "array_bytes (a\<lparr>da_items := Some new, da_capacity := nc\<rparr>) = array_bytes a"
proof -
  show "array_wf (a\<lparr>da_items := Some new, da_capacity := nc\<rparr>)"
    using assms length_c_realloc [OF assms(2)] by (simp add: array_wf_def word_le_nat_alt)
  show "array_bytes (a\<lparr>da_items := Some new, da_capacity := nc\<rparr>) = array_bytes a"
  proof (cases "da_items a")
    case None
    then have "da_length a = 0" using assms(1) by (auto simp: array_wf_def)
    with None show ?thesis by (simp add: array_bytes_def)
  next
    case (Some items)
    then have len: "length items = unat (da_capacity a)" "unat (da_length a) \<le> length items"
      using assms(1) by (simp_all add: array_wf_def word_le_nat_alt)
    with c_realloc_keeps [of h items "unat nc" new "unat (da_length a)"] assms(2,3) Some
    show ?thesis by (simp add: array_bytes_def)
  qed
qed

text \<open>The capacity that \<open>dynamic_array_push_back\<close> asks for when it has to grow.\<close>

definition grown :: "nat \<Rightarrow> nat \<Rightarrow> nat \<Rightarrow> nat" where
  "grown cap len n = (if cap = 0 then max 8 (len + n) else 2 * (len + n))"

lemma grown_word:
  assumes "array_wf a" and "unat (da_length a) + n < 2 ^ 62"
  defines "extra \<equiv> (da_length a + word_of_nat n) - da_capacity a"
  shows "unat (if da_capacity a = 0 then max DYNAMIC_ARRAY_INITIAL_CAPACITY extra
      else DYNAMIC_ARRAY_GROW_FACTOR * (da_capacity a + extra)) = grown (unat (da_capacity a)) (unat (da_length a)) n"
proof -
  have sum: "unat (da_length a + word_of_nat n) = unat (da_length a) + n"
    using assms(2) by (simp add: unat_word_ariths unat_of_nat)
  show ?thesis
  proof (cases "da_capacity a = 0")
    case True
    then show ?thesis
      using sum by (simp add: extra_def grown_def max_def DYNAMIC_ARRAY_INITIAL_CAPACITY_def word_le_nat_alt)
  next
    case False
    moreover from this have "unat (da_capacity a) \<noteq> 0" by (simp add: unat_eq_0)
    moreover have "unat (2 * (da_length a + word_of_nat n)) = 2 * (unat (da_length a) + n)"
      using assms(2) sum by (simp only: unat_word_ariths(2)) simp
    ultimately show ?thesis by (simp add: extra_def grown_def DYNAMIC_ARRAY_GROW_FACTOR_def)
  qed
qed

lemma push_back_spec:
  assumes "array_wf a" and "bs \<noteq> []" and "unat (da_length a) + length bs < 2 ^ 62"
  shows "\<exists>rc a'. dynamic_array_push_back h a bs = Inr (rc, a') \<and>
    (if unat (da_length a) + length bs \<le> unat (da_capacity a) \<or>
        heap_ok h (grown (unat (da_capacity a)) (unat (da_length a)) (length bs))
     then rc = 0 \<and> array_wf a' \<and> array_bytes a' = array_bytes a @ bs
     else rc = 1 \<and> a' = a\<lparr>da_items := None\<rparr>)"
proof -
  let ?n = "word_of_nat (length bs) :: u64"
  let ?extra = "(da_length a + ?n) - da_capacity a"
  let ?nc = "if da_capacity a = 0 then max DYNAMIC_ARRAY_INITIAL_CAPACITY ?extra
      else DYNAMIC_ARRAY_GROW_FACTOR * (da_capacity a + ?extra)"
  have n: "unat ?n = length bs" using assms(3) by (simp add: unat_of_nat)
  then have pos: "0 < ?n" using assms(2) by (simp add: word_less_nat_alt)
  have sum: "unat (da_length a + ?n) = unat (da_length a) + length bs"
    using assms(3) n by (simp add: unat_word_ariths)
  have nc: "unat ?nc = grown (unat (da_capacity a)) (unat (da_length a)) (length bs)"
    by (rule grown_word [OF assms(1,3)])
  have over: "dynamic_array_would_overflow a ?n \<longleftrightarrow> \<not> unat (da_length a) + length bs \<le> unat (da_capacity a)"
    using sum less_imp_neq [OF pos] by (simp add: dynamic_array_would_overflow_def word_less_nat_alt not_le)
  show ?thesis
  proof (cases "unat (da_length a) + length bs \<le> unat (da_capacity a)")
    case True
    with write_items_ok [OF assms(1) True assms(2)] over pos show ?thesis
      by (auto simp: dynamic_array_push_back_def c_assert_def Let_def)
  next
    case False
    show ?thesis
    proof (cases "c_realloc h (da_items a) (unat ?nc)")
      case None
      then have "\<not> heap_ok h (grown (unat (da_capacity a)) (unat (da_length a)) (length bs))"
        unfolding c_realloc_None nc .
      with None False over pos show ?thesis
        by (simp add: dynamic_array_push_back_def c_assert_def Let_def)
    next
      case (Some new)
      then have ok: "heap_ok h (grown (unat (da_capacity a)) (unat (da_length a)) (length bs))"
        using nc c_realloc_None [of h "da_items a" "unat ?nc"] by simp
      let ?a = "a\<lparr>da_items := Some new, da_capacity := ?nc\<rparr>"
      have "unat (da_capacity a) \<le> unat ?nc" "unat ?nc < 2 ^ 63" "unat (da_length a) + length bs \<le> unat ?nc"
        using False assms(3) unfolding nc by (auto simp: grown_def)
      note big = this
      have wf: "array_wf ?a" "array_bytes ?a = array_bytes a"
        using grow_ok [OF assms(1) Some big(1,2)] by simp_all
      from write_items_ok [OF wf(1) _ assms(2)] big(3) obtain a' where
          "write_items ?a bs = Inr a'" "da_length a' = da_length a"
          "array_wf (a'\<lparr>da_length := da_length a + ?n\<rparr>)"
          "array_bytes (a'\<lparr>da_length := da_length a + ?n\<rparr>) = array_bytes a @ bs"
        using wf(2) by auto
      then have "dynamic_array_push_back h a bs = Inr (0, a'\<lparr>da_length := da_length a + ?n\<rparr>)"
        using Some False over pos
        by (simp add: dynamic_array_push_back_def c_assert_def Let_def cong: if_cong)
      with ok \<open>array_wf (a'\<lparr>da_length := da_length a + ?n\<rparr>)\<close>
        \<open>array_bytes (a'\<lparr>da_length := da_length a + ?n\<rparr>) = array_bytes a @ bs\<close>
      show ?thesis by simp
    qed
  qed
qed

interpretation darray: byte_sink "dynamic_array_push_back h" array_bytes array_wf "2 ^ 62" for h
proof (unfold_locales, goal_cases)
  case (1 a bs)
  then show ?case
    using push_back_spec [of a bs h] length_array_bytes [of a] by (auto split: if_splits)
qed

text \<open>C30: Appending to the dynamic array. On a well-formed array, appending a chunk that is not empty,
  while the contents stay below \<open>2 ^ 62\<close> bytes, never writes outside the memory of the array.
  When there is room, or the allocator can provide the grown capacity, it returns zero, and
  the contents are the old ones with the chunk behind them; otherwise it returns one, and the array has lost its memory: the
  pointer is null while length and capacity are as before.\<close>

theorem dynamic_array_push_back_spec:
  assumes "array_wf a" and "bs \<noteq> []" and "length (array_bytes a) + length bs < 2 ^ 62"
  shows "\<exists>rc a'. dynamic_array_push_back h a bs = Inr (rc, a') \<and>
    (if length (array_bytes a) + length bs \<le> unat (da_capacity a) \<or>
        heap_ok h (grown (unat (da_capacity a)) (length (array_bytes a)) (length bs))
     then rc = 0 \<and> array_wf a' \<and> array_bytes a' = array_bytes a @ bs
     else rc = 1 \<and> a' = a\<lparr>da_items := None\<rparr>)"
  using push_back_spec [OF assms(1,2)] assms(3) length_array_bytes [OF assms(1)] by simp

theorem dynamic_array_push_back_spec_witness:
  "\<exists>rc a'. dynamic_array_push_back \<lparr>heap_ok = \<lambda>n. n < 100, fresh = \<lambda>_. 7\<rparr> dynamic_array_init [1, 2, 3] = Inr (rc, a') \<and>
    rc = 0 \<and> array_wf a' \<and> array_bytes a' = [1, 2, 3]"
  using dynamic_array_push_back_spec [of dynamic_array_init "[1, 2, 3]" "\<lparr>heap_ok = \<lambda>n. n < 100, fresh = \<lambda>_. 7\<rparr>"]
  by (simp add: array_init_wf grown_def dynamic_array_init_def [THEN arg_cong [where f = da_capacity]])

text \<open>After a failed append, the next one that fits dereferences the null pointer.\<close>

lemma push_back_after_failure:
  assumes "0 < length bs" and "unat (da_length a) + length bs \<le> unat (da_capacity a)"
    and "unat (da_capacity a) < 2 ^ 62"
  shows "dynamic_array_push_back h (a\<lparr>da_items := None\<rparr>) bs = Inl Null_Deref"
proof -
  have n: "unat (word_of_nat (length bs) :: u64) = length bs" using assms by (simp add: unat_of_nat)
  then have pos: "0 < (word_of_nat (length bs) :: u64)" using assms(1) by (simp add: word_less_nat_alt)
  have "unat (da_length a + word_of_nat (length bs)) = unat (da_length a) + length bs"
    using assms n by (simp add: unat_word_ariths)
  then have "\<not> dynamic_array_would_overflow (a\<lparr>da_items := None\<rparr>) (word_of_nat (length bs))"
    using assms(2) less_imp_neq [OF pos] by (simp add: dynamic_array_would_overflow_def word_less_nat_alt not_le)
  with pos show ?thesis
    by (simp add: dynamic_array_push_back_def c_assert_def Let_def write_items_def)
qed

lemma push_back_byte_spec:
  assumes "array_wf a" and "unat (da_capacity a) < 2 ^ 61"
  shows "\<exists>rc a'. dynamic_array_push_back_byte h a x = Inr (rc, a') \<and>
    (rc = 0 \<longrightarrow> array_wf a' \<and> array_bytes a' = array_bytes a @ [x]) \<and> (rc \<noteq> 0 \<longrightarrow> rc = 1)"
proof (cases "dynamic_array_is_full a")
  case False
  then have "unat (da_length a) + length [x] \<le> unat (da_capacity a)"
    by (simp add: dynamic_array_is_full_def word_le_nat_alt not_le)
  from write_items_ok [OF assms(1) this] False show ?thesis
    by (auto simp: dynamic_array_push_back_byte_def Let_def)
next
  case True
  let ?nc = "if da_capacity a = 0 then DYNAMIC_ARRAY_INITIAL_CAPACITY
    else DYNAMIC_ARRAY_GROW_FACTOR * da_capacity a"
  have nc: "unat ?nc = (if da_capacity a = 0 then 8 else 2 * unat (da_capacity a))"
    using assms(2) by (simp add: DYNAMIC_ARRAY_INITIAL_CAPACITY_def DYNAMIC_ARRAY_GROW_FACTOR_def unat_word_ariths)
  have cap: "da_capacity a \<noteq> 0 \<Longrightarrow> 0 < unat (da_capacity a)" by (simp add: unat_gt_0)
  have big: "unat (da_capacity a) \<le> unat ?nc" "unat ?nc < 2 ^ 63" "unat (da_length a) + length [x] \<le> unat ?nc"
    using assms cap nc by (auto simp: array_wf_def word_le_nat_alt split: if_splits)
  show ?thesis
  proof (cases "c_realloc h (da_items a) (unat ?nc)")
    case None
    with True show ?thesis by (simp add: dynamic_array_push_back_byte_def Let_def)
  next
    case (Some new)
    let ?a = "a\<lparr>da_items := Some new, da_capacity := ?nc\<rparr>"
    have wf: "array_wf ?a" "array_bytes ?a = array_bytes a"
      using grow_ok [OF assms(1) Some big(1,2)] by simp_all
    from write_items_ok [OF wf(1), of "[x]"] big(3) obtain a' where
        "write_items ?a [x] = Inr a'" "da_length a' = da_length a"
        "array_wf (a'\<lparr>da_length := da_length a + 1\<rparr>)"
        "array_bytes (a'\<lparr>da_length := da_length a + 1\<rparr>) = array_bytes a @ [x]"
      using wf(2) by auto
    with Some True show ?thesis
      by (simp add: dynamic_array_push_back_byte_def Let_def cong: if_cong)
  qed
qed

end
