(* ===== verification/Scanner.thy ===== *)
theory Scanner
  imports Interfaces "HOL-Library.Sublist"
begin

text \<open>
  The string slices and the scanner of the HTTP server (\<open>str.c\<close>, \<open>scanner.c\<close>). Memory is a list of
  characters and a pointer an index into it. \<open>memchr\<close> and \<open>memmem\<close> return the offset of what
  they find. A scanner moves to what it looks for and does not skip it.
\<close>

section \<open>Slices\<close>

record str_slice =
  ss_ptr :: "nat option"
  ss_len :: nat

definition str_slice_empty :: str_slice where
  "str_slice_empty = \<lparr>ss_ptr = None, ss_len = 0\<rparr>"

text \<open>\<open>strlen\<close> of the C string at an address.\<close>

definition c_strlen :: "string \<Rightarrow> nat \<Rightarrow> nat res" where
  "c_strlen mem p =
     (let n = length (takeWhile (\<lambda>c. c \<noteq> nul) (drop p mem)) in
      if p + n < length mem then Inr n else Inl Out_Of_Bounds)"

definition c_strnlen :: "string \<Rightarrow> nat \<Rightarrow> nat \<Rightarrow> nat res" where
  "c_strnlen mem p max_len =
     (let n = length (takeWhile (\<lambda>c. c \<noteq> nul) (take max_len (drop p mem))) in
      if n = max_len \<or> p + n < length mem then Inr n else Inl Out_Of_Bounds)"

definition str_slice_from_cstr_trusted :: "string \<Rightarrow> nat \<Rightarrow> str_slice res" where
  "str_slice_from_cstr_trusted mem p =
     res_bind (c_strlen mem p) (\<lambda>n. Inr \<lparr>ss_ptr = Some p, ss_len = n\<rparr>)"

definition str_slice_from_cstr_untrusted :: "string \<Rightarrow> nat \<Rightarrow> nat \<Rightarrow> str_slice res" where
  "str_slice_from_cstr_untrusted mem p max_len =
     res_bind (c_strnlen mem p max_len) (\<lambda>n. Inr \<lparr>ss_ptr = Some p, ss_len = n\<rparr>)"

definition str_slice_from_buffer :: "nat option \<Rightarrow> nat \<Rightarrow> str_slice" where
  "str_slice_from_buffer buf buf_len = \<lparr>ss_ptr = buf, ss_len = buf_len\<rparr>"

definition str_slice_is_empty :: "str_slice \<Rightarrow> bool" where
  "str_slice_is_empty s \<longleftrightarrow> ss_ptr s = None \<or> ss_len s = 0"

text \<open>The bytes of a slice, as \<open>fwrite\<close>, \<open>memchr\<close> and \<open>memmem\<close> read them.\<close>

definition slice_bytes :: "string \<Rightarrow> str_slice \<Rightarrow> string res" where
  "slice_bytes mem s =
     (if ss_len s = 0 then Inr []
      else case ss_ptr s of
        None \<Rightarrow> Inl Null_Deref
      | Some p \<Rightarrow> if p + ss_len s \<le> length mem then Inr (take (ss_len s) (drop p mem)) else Inl Out_Of_Bounds)"

definition str_slice_print :: "string \<Rightarrow> str_slice \<Rightarrow> string res" where
  "str_slice_print mem s = slice_bytes mem s"

definition str_slice_println :: "string \<Rightarrow> str_slice \<Rightarrow> string res" where
  "str_slice_println mem s = res_bind (str_slice_print mem s) (\<lambda>out. Inr (out @ [CHR 0x0A]))"

section \<open>Searching\<close>

fun memchr :: "string \<Rightarrow> char \<Rightarrow> nat option" where
  "memchr [] c = None"
| "memchr (x # xs) c = (if x = c then Some 0 else map_option Suc (memchr xs c))"

fun memmem :: "string \<Rightarrow> string \<Rightarrow> nat option" where
  "memmem [] needle = (if needle = [] then Some 0 else None)"
| "memmem (x # xs) needle =
     (if take (length needle) (x # xs) = needle then Some 0 else map_option Suc (memmem xs needle))"

record scanner =
  scan_input :: str_slice

text \<open>Moving a scanner by an offset: the slice before it, and the scanner from there on.\<close>

definition scanner_split :: "scanner \<Rightarrow> nat \<Rightarrow> str_slice \<times> scanner" where
  "scanner_split s offset =
     (\<lparr>ss_ptr = ss_ptr (scan_input s), ss_len = offset\<rparr>,
      s\<lparr>scan_input := \<lparr>ss_ptr = map_option (\<lambda>p. p + offset) (ss_ptr (scan_input s)),
        ss_len = ss_len (scan_input s) - offset\<rparr>\<rparr>)"

text \<open>\<open>None\<close> is \<open>RESULT_ERR\<close>.\<close>

definition scanner_next_until_char :: "string \<Rightarrow> scanner \<Rightarrow> char \<Rightarrow> (str_slice \<times> scanner) option res" where
  "scanner_next_until_char mem s c =
     (if str_slice_is_empty (scan_input s) then Inr None
      else
        res_bind (slice_bytes mem (scan_input s)) (\<lambda>bytes.
        case memchr bytes c of
          None \<Rightarrow> Inr None
        | Some offset \<Rightarrow> Inr (Some (scanner_split s offset))))"

definition scanner_next_until_slice :: "string \<Rightarrow> scanner \<Rightarrow> string \<Rightarrow> (str_slice \<times> scanner) option res" where
  "scanner_next_until_slice mem s pattern =
     (if str_slice_is_empty (scan_input s) then Inr None
      else
        res_bind (slice_bytes mem (scan_input s)) (\<lambda>bytes.
        case memmem bytes pattern of
          None \<Rightarrow> Inr None
        | Some offset \<Rightarrow> Inr (Some (scanner_split s offset))))"

definition scanner_next_until_end :: "string \<Rightarrow> scanner \<Rightarrow> (str_slice \<times> scanner) option res" where
  "scanner_next_until_end mem s =
     (if str_slice_is_empty (scan_input s) then Inr None
      else Inr (Some (scanner_split s (ss_len (scan_input s)))))"

section \<open>Correctness\<close>

lemma memchr_memmem: "memchr xs c = memmem xs [c]"
  by (induction xs) auto

lemma memmem_None: "memmem xs ys = None \<longleftrightarrow> \<not> sublist ys xs"
proof (induction xs)
  case Nil
  then show ?case by (cases ys) simp_all
next
  case (Cons x xs)
  have "take (length ys) (x # xs) = ys \<longleftrightarrow> prefix ys (x # xs)"
    by (metis append_eq_conv_conj prefix_def)
  with Cons show ?case by (auto simp: sublist_Cons_right)
qed

lemma memmem_Some:
  "memmem xs ys = Some i \<Longrightarrow>
    i \<le> length xs \<and> prefix ys (drop i xs) \<and> (\<forall>j < i. \<not> prefix ys (drop j xs))"
proof (induction xs arbitrary: i)
  case Nil
  then show ?case by (simp split: if_splits)
next
  case (Cons x xs)
  have take_iff: "take (length ys) (x # xs) = ys \<longleftrightarrow> prefix ys (x # xs)"
    by (metis append_eq_conv_conj prefix_def)
  show ?case
  proof (cases "prefix ys (x # xs)")
    case True
    with Cons.prems take_iff show ?thesis by simp
  next
    case False
    with Cons.prems take_iff obtain k where k: "i = Suc k" "memmem xs ys = Some k" by auto
    from Cons.IH [OF k(2)] have IH: "k \<le> length xs" "prefix ys (drop k xs)" "\<forall>j < k. \<not> prefix ys (drop j xs)"
      by simp_all
    have "\<not> prefix ys (drop j (x # xs))" if "j < Suc k" for j
      using that IH(3) False by (cases j) simp_all
    with IH k(1) show ?thesis by simp
  qed
qed

definition scanner_ok :: "string \<Rightarrow> scanner \<Rightarrow> bool" where
  "scanner_ok mem s \<longleftrightarrow> (\<exists>bytes. slice_bytes mem (scan_input s) = Inr bytes)"

lemma scanner_split_bytes:
  assumes "slice_bytes mem (scan_input s) = Inr bytes" and "i \<le> length bytes"
  shows "slice_bytes mem (fst (scanner_split s i)) = Inr (take i bytes)"
    and "slice_bytes mem (scan_input (snd (scanner_split s i))) = Inr (drop i bytes)"
  using assms
  by (auto simp: slice_bytes_def scanner_split_def min_def add.commute drop_take split: if_splits option.splits)

text \<open>C31: The scanner splits its input at the first match. On a slice that lies in memory, looking for a
  pattern fails exactly when the slice is empty or does not contain it; otherwise the input is
  the returned slice followed by what the scanner has left, which starts with the pattern,
  and the pattern starts nowhere earlier. Looking for a character is looking for it as a pattern.\<close>

theorem scanner_splits_at_first_match:
  assumes "slice_bytes mem (scan_input s) = Inr bytes"
  shows "\<exists>r. scanner_next_until_slice mem s pattern = Inr r \<and>
    (r = None \<longleftrightarrow> bytes = [] \<or> \<not> sublist pattern bytes) \<and>
    (\<forall>out s'. r = Some (out, s') \<longrightarrow>
       (\<exists>xs ys. bytes = xs @ ys \<and> slice_bytes mem out = Inr xs \<and> slice_bytes mem (scan_input s') = Inr ys \<and>
          prefix pattern ys \<and> (\<forall>j < length xs. \<not> prefix pattern (drop j bytes)))) \<and>
    (\<forall>c. pattern = [c] \<longrightarrow> scanner_next_until_char mem s c = Inr r)"
proof -
  have char: "scanner_next_until_char mem s c = scanner_next_until_slice mem s [c]" for c
    by (simp add: scanner_next_until_char_def scanner_next_until_slice_def memchr_memmem)
  show ?thesis
  proof (cases "str_slice_is_empty (scan_input s)")
    case True
    then have "bytes = []" using assms by (auto simp: str_slice_is_empty_def slice_bytes_def split: if_splits)
    with True char show ?thesis by (simp add: scanner_next_until_slice_def)
  next
    case False
    then have ne: "bytes \<noteq> []" using assms by (auto simp: str_slice_is_empty_def slice_bytes_def split: if_splits)
    show ?thesis
    proof (cases "memmem bytes pattern")
      case None
      then have "scanner_next_until_slice mem s pattern = Inr None"
        using False assms by (simp add: scanner_next_until_slice_def)
      with None char memmem_None [of bytes pattern] show ?thesis by auto
    next
      case (Some i)
      note i = memmem_Some [OF Some]
      have r: "scanner_next_until_slice mem s pattern = Inr (Some (scanner_split s i))"
        using False assms Some by (simp add: scanner_next_until_slice_def)
      have "sublist pattern bytes" using memmem_None [of bytes pattern] Some by auto
      moreover have "\<exists>xs ys. bytes = xs @ ys \<and> slice_bytes mem (fst (scanner_split s i)) = Inr xs \<and>
          slice_bytes mem (scan_input (snd (scanner_split s i))) = Inr ys \<and>
          prefix pattern ys \<and> (\<forall>j < length xs. \<not> prefix pattern (drop j bytes))"
        using i scanner_split_bytes [OF assms, of i]
        by (intro exI [of _ "take i bytes"] exI [of _ "drop i bytes"]) simp
      ultimately show ?thesis
        using r char ne by (intro exI [of _ "Some (scanner_split s i)"]) auto
    qed
  qed
qed

theorem scanner_splits_at_first_match_witness:
  "\<exists>r. scanner_next_until_slice ''GET / HTTP'' \<lparr>scan_input = \<lparr>ss_ptr = Some 0, ss_len = 10\<rparr>\<rparr> '' '' = Inr r \<and> r \<noteq> None"
proof -
  have "slice_bytes ''GET / HTTP'' (scan_input \<lparr>scan_input = \<lparr>ss_ptr = Some 0, ss_len = 10\<rparr>\<rparr>) = Inr ''GET / HTTP''"
    by (simp add: slice_bytes_def)
  from scanner_splits_at_first_match [OF this, of "'' ''"]
  show ?thesis by (auto simp: sublist_def) (metis append_Cons append_Nil)
qed

end
