(* ===== verification/Http.thy ===== *)
theory Http
  imports HttpConfig HttpLog DynamicArray Scanner Sockets
begin

text \<open>
  Requests and connections of the HTTP server (\<open>http.c\<close>, \<open>io.c\<close>, \<open>http/server.c\<close>, the loop of
  \<open>main.c\<close>). What \<open>poll\<close>, \<open>recv\<close>, \<open>send\<close>, \<open>accept\<close> and the calls that open the socket return are
  inputs, the signal that a \<open>send\<close> may raise included. Bytes are 8-bit words. The validation of the headers is an automaton with
  four states; the theorems say exactly which requests it lets pass and where it cuts the headers. What the handling of a client writes, to
  \<open>stdout\<close>, to the socket and as log lines to \<open>stderr\<close>, is part of its result; the log lines of opening the
  server and of the deprecated reader are left out.
\<close>

section \<open>Validation of headers\<close>

text \<open>\<open>iscntrl\<close> in the C locale.\<close>

definition iscntrl :: "u8 \<Rightarrow> bool" where
  "iscntrl b \<longleftrightarrow> b < 32 \<or> b = 127"

definition http_headers_is_valid_byte :: "u8 \<Rightarrow> bool" where
  "http_headers_is_valid_byte unsafe_byte =
     (if unsafe_byte = 0 then False
      else if iscntrl unsafe_byte \<and> unsafe_byte \<noteq> 13 \<and> unsafe_byte \<noteq> 10 then False
      else True)"

text \<open>The loop and the lines behind it: the offset of the end of the headers, or \<open>None\<close> for \<open>RESULT_ERR\<close>, and the
  log lines.\<close>

definition end_not_found :: string where
  "end_not_found =
     ''end of request headers (aka `'' @ [CHR 0x5C, CHR ''r'', CHR 0x5C, CHR ''n'', CHR 0x5C, CHR ''r'', CHR 0x5C, CHR ''n''] @
     ''`) was not found''"

fun validate_loop :: "nat \<Rightarrow> nat \<Rightarrow> u8 list \<Rightarrow> (nat option \<times> string list) res" where
  "validate_loop i state [] = Inr (None, [LOG_WARN ''http'' end_not_found])"
| "validate_loop i state (unsafe_byte # rest) =
     (if \<not> http_headers_is_valid_byte unsafe_byte then
        res_bind (LOG_WARNF ''http'' ''bad byte in request header: 0x%02X'' [Arg_nat (unat unsafe_byte)]) (\<lambda>l.
        Inr (None, [l]))
      else if state = 0 \<and> unsafe_byte = 13 then validate_loop (i + 1) 1 rest
      else if state = 1 \<and> unsafe_byte = 13 then validate_loop (i + 1) state rest
      else if state = 1 \<and> unsafe_byte = 10 then validate_loop (i + 1) 2 rest
      else if state = 2 \<and> unsafe_byte = 13 then validate_loop (i + 1) 3 rest
      else if state = 3 \<and> unsafe_byte = 10 then Inr (Some (i - 2), [])
      else validate_loop (i + 1) 0 rest)"

definition http_headers_validate :: "u8 list \<Rightarrow> nat \<Rightarrow> (nat option \<times> string list) res" where
  "http_headers_validate buffer buffer_size =
     res_bind (c_assert (buffer_size > 1)) (\<lambda>_.
     if buffer_size > length buffer then Inl Out_Of_Bounds
     else validate_loop 0 0 (take buffer_size buffer))"

section \<open>Reading\<close>

datatype poll_result = Poll_Failed | Poll_Timeout | Poll_Ready bool

datatype recv_result = Recv_Failed | Recv_Bytes "u8 list"

text \<open>The return value of \<open>recv\<close> of at most \<open>n\<close> bytes, and the bytes.\<close>

fun recv_upto :: "nat \<Rightarrow> recv_result \<Rightarrow> int \<times> u8 list" where
  "recv_upto n Recv_Failed = (-1, [])"
| "recv_upto n (Recv_Bytes bytes) = (int (length (take n bytes)), take n bytes)"

text \<open>\<open>None\<close> is \<open>RESULT_ERR\<close>; otherwise the number of bytes read and the buffer. In both cases with the log lines;
  \<open>strerror\<close> is the text of the error of a call that has failed.\<close>

definition recv_or_timeout ::
    "string \<Rightarrow> poll_result \<Rightarrow> recv_result \<Rightarrow> u8 list \<Rightarrow> nat \<Rightarrow> nat \<Rightarrow> ((int \<times> u8 list) option \<times> string list) res" where
  "recv_or_timeout strerror polled received buffer buffer_size timeout_ms =
     (case polled of
        Poll_Failed \<Rightarrow>
          res_bind (LOG_ERRORF ''io'' ''recv polling failed: %s'' [Arg_str strerror]) (\<lambda>l. Inr (None, [l]))
      | Poll_Timeout \<Rightarrow>
          res_bind (LOG_WARNF ''io'' ''read timeout triggered after %zu ms.'' [Arg_nat timeout_ms]) (\<lambda>l.
          Inr (Some (0, buffer), [l]))
      | Poll_Ready pollin \<Rightarrow>
          res_bind (c_assert pollin) (\<lambda>_.
          res_bind (arr_copy buffer 0 (replicate buffer_size 0)) (\<lambda>buffer.
          res_bind (c_assert (buffer_size > 1)) (\<lambda>_.
          case recv_upto (buffer_size - 1) received of (n, bytes) \<Rightarrow>
            res_bind (arr_copy buffer 0 bytes) (\<lambda>buffer. Inr (Some (n, buffer), []))))))"

section \<open>The deprecated reader\<close>

text \<open>The bytes of the array as the memory of a scanner.\<close>

definition items_text :: "dynamic_array \<Rightarrow> string" where
  "items_text a = (case da_items a of None \<Rightarrow> [] | Some items \<Rightarrow> map (\<lambda>b. char_of (unat b)) items)"

definition crlf_text :: string where
  "crlf_text = [CHR 0x0D, CHR 0x0A]"

text \<open>The first line of the first chunk, or \<open>None\<close> when there is none.\<close>

definition print_first_line :: "dynamic_array \<Rightarrow> string option res" where
  "print_first_line a =
     (let mem = items_text a;
          scanner = \<lparr>scan_input = str_slice_from_buffer (map_option (\<lambda>_. 0) (da_items a)) (unat (da_length a))\<rparr> in
      res_bind (scanner_next_until_slice mem scanner crlf_text) (\<lambda>r.
      case r of
        None \<Rightarrow> Inr None
      | Some (line, scanner) \<Rightarrow> res_bind (str_slice_println mem line) (\<lambda>out. Inr (Some out))))"

text \<open>The loop over what \<open>poll\<close> and \<open>recv\<close> return, one pair for every iteration. \<open>None\<close>: it is
  still polling; \<open>Some True\<close> is \<open>RESULT_OK\<close>. The variable \<open>request_completed\<close> is never set.\<close>

fun poll_and_read_loop ::
    "heap \<Rightarrow> dynamic_array \<Rightarrow> bool \<Rightarrow> bool \<Rightarrow> (poll_result \<times> recv_result) list \<Rightarrow> (bool option \<times> dynamic_array) res" where
  "poll_and_read_loop h a request_completed first_chunk [] = Inr (None, a)"
| "poll_and_read_loop h a request_completed first_chunk ((polled, received) # rest) =
     (case polled of
        Poll_Failed \<Rightarrow> Inr (Some False, a)
      | Poll_Timeout \<Rightarrow> Inr (Some False, a)
      | Poll_Ready pollin \<Rightarrow>
          res_bind (c_assert pollin) (\<lambda>_.
          case recv_upto 4096 received of (bytes_received, bytes) \<Rightarrow>
            if bytes_received \<le> 0 then (if \<not> request_completed then Inr (Some False, a) else Inr (Some True, a))
            else
              res_bind (dynamic_array_push_back h a bytes) (\<lambda>(rc, a).
              if rc \<noteq> 0 then Inr (Some False, a)
              else if first_chunk then
                res_bind (print_first_line a) (\<lambda>line.
                case line of
                  None \<Rightarrow> Inr (Some False, a)
                | Some out \<Rightarrow> poll_and_read_loop h a request_completed False rest)
              else poll_and_read_loop h a request_completed first_chunk rest)))"

text \<open>A request: the bytes read, the socket, and the parts that the reader leaves as they are.\<close>

record http_header =
  header_key :: str_slice
  header_value :: str_slice

record http_request_start_line =
  line_method :: str_slice
  line_path :: str_slice
  line_version :: str_slice

record http_request =
  req_data :: dynamic_array
  req_conn :: int
  req_start_line :: http_request_start_line
  req_headers :: "http_header list"
  req_body :: str_slice

definition http_request_poll_and_read ::
    "heap \<Rightarrow> http_request \<Rightarrow> (poll_result \<times> recv_result) list \<Rightarrow> (bool option \<times> http_request) res" where
  "http_request_poll_and_read h req script =
     res_bind (poll_and_read_loop h (req_data req) False True script) (\<lambda>(result, data).
     Inr (result, req\<lparr>req_data := data\<rparr>))"

definition HTTP_REQUEST_METHOD_BUFFER_SIZE :: nat where
  "HTTP_REQUEST_METHOD_BUFFER_SIZE = 8"

text \<open>The comparison reads seven bytes, whatever the length of the slice.\<close>

definition http_method_parse :: "string \<Rightarrow> str_slice \<Rightarrow> str_slice option res" where
  "http_method_parse mem inp =
     res_bind (c_assert (ss_ptr inp \<noteq> None)) (\<lambda>_.
     if ss_len inp > HTTP_REQUEST_METHOD_BUFFER_SIZE - 1 then Inr None
     else
       res_bind (slice_bytes mem \<lparr>ss_ptr = ss_ptr inp, ss_len = length ''CONNECT''\<rparr>) (\<lambda>bytes.
       if bytes = ''CONNECT'' then Inr (Some \<lparr>ss_ptr = ss_ptr inp, ss_len = length ''CONNECT''\<rparr>)
       else Inr None))"

section \<open>The server\<close>

text \<open>The server keeps its configuration and the address it is bound to. \<open>Not_Opened\<close> is
  \<open>RESULT_ERR\<close>.\<close>

definition http_server_bind :: "network \<Rightarrow> config_http \<Rightarrow> sockaddr_in option" where
  "http_server_bind net config =
     (let server_address = ipv4_address_create net (server_host config) (server_port config) in
      if \<not> bind_ok net server_address then None else Some server_address)"

definition http_server_listen :: "network \<Rightarrow> config_http \<Rightarrow> bool" where
  "http_server_listen net config = (if \<not> listen_ok net (int (unat (tcp_backlog config))) then False else True)"

definition http_server_init :: "network \<Rightarrow> config_http \<Rightarrow> opened res" where
  "http_server_init net config =
     res_bind (tcp_socket_or_exit net) (\<lambda>_.
     let open_sockets = 1 in
     if \<not> setsockopt_ok net then Inr (Not_Opened (open_sockets - 1))
     else
       (case http_server_bind net config of
          None \<Rightarrow> Inr (Not_Opened (open_sockets - 1))
        | Some server_address \<Rightarrow>
            if \<not> http_server_listen net config then Inr (Not_Opened (open_sockets - 1))
            else Inr (Listening server_address)))"

definition http_response_body :: string where
  "http_response_body = ''Server is under development... please be patient'' @ [CHR 0x0A]"

text \<open>What \<open>snprintf\<close> makes of the response; it is shorter than the buffer of 4098 bytes.\<close>

definition http_response :: "string res" where
  "http_response =
     c_printf
       (''HTTP/1.1 %d Not Implemented'' @ crlf_text @
        ''Server: http-server/0.0.0'' @ crlf_text @
        ''Content-Length: %zu'' @ crlf_text @
        ''Content-Type: text/plain; charset=utf-8'' @ crlf_text @
        ''Connection: closed'' @ crlf_text @
        crlf_text @
        ''%s'')
       [Arg_int 501, Arg_nat (length http_response_body), Arg_str http_response_body]"

definition text_bytes :: "string \<Rightarrow> u8 list" where
  "text_bytes s = map of_char s"

text \<open>What the server writes for a client: to \<open>stdout\<close>, to the socket, and as log lines. In every case that returns
  the connection is closed at the label \<open>end_of_request\<close>.\<close>

record client_log =
  stdout_bytes :: "u8 list"
  sent_bytes :: "u8 list"
  log_lines :: "string list"

definition end_of_request :: "u8 list \<Rightarrow> u8 list \<Rightarrow> string list \<Rightarrow> client_log" where
  "end_of_request out sent log =
     \<lparr>stdout_bytes = out, sent_bytes = sent,
      log_lines = log @ [LOG_DEBUG ''main'' ''client socket: closing...'', LOG_DEBUG ''main'' ''client socket: closed.'']\<rparr>"

text \<open>A client: what \<open>poll\<close>, \<open>recv\<close> and \<open>send\<close> return on its socket, and the text of the error of a call that fails.\<close>

record client =
  polled :: poll_result
  received :: recv_result
  sending :: send_result
  client_error :: string

definition http_send_response :: "client \<Rightarrow> u8 list \<Rightarrow> string list \<Rightarrow> client_log res" where
  "http_send_response cl out log =
     res_bind http_response (\<lambda>response_buffer.
     let bytes_printed = int (length response_buffer) in
     res_bind (c_assert (bytes_printed > 0)) (\<lambda>_.
     res_bind (LOG_DEBUGF ''main'' ''sending %d bytes...'' [Arg_int bytes_printed]) (\<lambda>l.
     let log = log @ [l]; out = out @ text_bytes response_buffer in
     res_bind (send_bytes (sending cl) (text_bytes response_buffer)) (\<lambda>(bytes_sent, wire).
     if bytes_sent < 0 then
       res_bind (LOG_ERRORF ''main'' ''failed to send full response (%d bytes): %s''
           [Arg_int bytes_printed, Arg_str (client_error cl)]) (\<lambda>l.
       Inr (end_of_request out wire (log @ [l])))
     else if bytes_sent < bytes_printed then
       res_bind (LOG_WARNF ''main'' ''failed to send full response (%d bytes): just sent %ld bytes: %s''
           [Arg_int bytes_printed, Arg_int bytes_sent, Arg_str (client_error cl)]) (\<lambda>l.
       Inr (end_of_request out wire (log @ [l])))
     else Inr (end_of_request out wire log)))))"

definition http_handle_client :: "config_http \<Rightarrow> client \<Rightarrow> client_log res" where
  "http_handle_client config cl =
     (let unsafe_buffer = replicate 4096 0;
          unsafe_buffer_max_size = length unsafe_buffer - 1;
          log = [LOG_DEBUG ''main'' ''new client connected.''] in
      res_bind (recv_or_timeout (client_error cl) (polled cl) (received cl) unsafe_buffer unsafe_buffer_max_size
          (unat (read_timeout_ms config))) (\<lambda>(r, l).
      let log = log @ l in
      case r of
        None \<Rightarrow>
          Inr (end_of_request [] [] (log @ [LOG_ERROR ''main'' ''failed to poll/read from the client connection'']))
      | Some (bytes_read, unsafe_buffer) \<Rightarrow>
          if bytes_read \<le> 0 then
            Inr (end_of_request [] []
              (log @ [LOG_WARN ''main'' ''client disconnected or did not send http headers within read timeout'']))
          else
            res_bind (c_assert (nat bytes_read \<le> unsafe_buffer_max_size)) (\<lambda>_.
            res_bind (LOG_DEBUGF ''main'' ''%ld bytes read'' [Arg_int bytes_read]) (\<lambda>l.
            let log = log @ [l] in
            res_bind (http_headers_validate unsafe_buffer (nat bytes_read)) (\<lambda>(validated, l).
            let log = log @ l in
            case validated of
              None \<Rightarrow> Inr (end_of_request [] [] (log @ [LOG_WARN ''main'' ''bad request headers'']))
            | Some end_of_headers_offset \<Rightarrow>
                let log = log @ [LOG_DEBUG ''main'' ''parsed request headers:''] in
                http_send_response cl (take end_of_headers_offset unsafe_buffer @ [10]) log)))))"

text \<open>The main loop on the clients that have come; \<open>None\<close> is a failed \<open>accept\<close>, which ends it with
  the code 1. Without a code the server is still waiting.\<close>

fun http_serve :: "config_http \<Rightarrow> client option list \<Rightarrow> (int option \<times> client_log list) res" where
  "http_serve config [] = Inr (None, [])"
| "http_serve config (None # rest) = Inr (Some 1, [])"
| "http_serve config (Some cl # rest) =
     res_bind (http_handle_client config cl) (\<lambda>l. res_bind (http_serve config rest) (\<lambda>(code, ls). Inr (code, l # ls)))"

text \<open>Closing the socket of the server, as the number of sockets it has open.\<close>

definition http_server_free :: "nat \<Rightarrow> nat" where
  "http_server_free open_sockets = open_sockets - 1"

text \<open>The code returned, the clients served, and the sockets of the server that are open; without a code it is still
  waiting.\<close>

definition http_main :: "environment \<Rightarrow> network \<Rightarrow> client option list \<Rightarrow> (int option \<times> client_log list \<times> nat) res" where
  "http_main getenv net clients =
     (case config_init_from_env_http getenv config_zero of (ok, config) \<Rightarrow>
        if \<not> ok then Inr (Some 1, [], 0)
        else
          res_bind (http_server_init net config) (\<lambda>server.
          case server of
            Not_Opened n \<Rightarrow> Inr (Some 1, [], n)
          | Listening address \<Rightarrow>
              res_bind (http_serve config clients) (\<lambda>(code, ls).
              Inr (code, ls, if code = None then 1 else http_server_free 1))))"

section \<open>Which requests pass\<close>

definition CRLF :: "u8 list" where
  "CRLF = [13, 10]"

lemma valid_crlf [simp]: "http_headers_is_valid_byte 13" "http_headers_is_valid_byte 10"
  by (simp_all add: http_headers_is_valid_byte_def)

text \<open>The bytes that lead the automaton from its first state back to it: a byte that is not a carriage return, or carriage returns
  and then something that does not go on to an empty line.\<close>

definition skipped :: "u8 list \<Rightarrow> bool" where
  "skipped bs \<longleftrightarrow>
     (\<exists>n b. bs = [b] \<and> b \<noteq> 13 \<or>
        bs = replicate (Suc n) 13 @ [b] \<and> b \<noteq> 13 \<and> b \<noteq> 10 \<or>
        bs = replicate (Suc n) 13 @ [10, b] \<and> b \<noteq> 13 \<or>
        bs = replicate (Suc n) 13 @ [10, 13, b] \<and> b \<noteq> 10)"

text \<open>The requests that pass, and the offset that is reported for them: stretches that are skipped, and then carriage
  returns and two line ends, the second of which is the empty line. Every byte up to there is allowed; the bytes behind
  the empty line are arbitrary.\<close>

definition header_end :: "u8 list \<Rightarrow> nat \<Rightarrow> bool" where
  "header_end bs off \<longleftrightarrow>
     (\<exists>cs n rest. bs = concat cs @ replicate n 13 @ CRLF @ CRLF @ rest \<and> list_all skipped cs \<and>
        list_all http_headers_is_valid_byte (concat cs) \<and> off = length (concat cs) + n + 1)"

text \<open>What is read since the automaton was in its first state.\<close>

definition since_start :: "nat \<Rightarrow> u8 list \<Rightarrow> bool" where
  "since_start st bs \<longleftrightarrow>
     (\<exists>n. st = 0 \<and> bs = [] \<or> st = 1 \<and> bs = replicate (Suc n) 13 \<or> st = 2 \<and> bs = replicate (Suc n) 13 @ [10] \<or>
        st = 3 \<and> bs = replicate (Suc n) 13 @ [10, 13])"

definition next_state :: "nat \<Rightarrow> u8 \<Rightarrow> nat" where
  "next_state st b =
     (if st = 0 \<and> b = 13 then 1 else if st = 1 \<and> b = 13 then 1 else if st = 1 \<and> b = 10 then 2
      else if st = 2 \<and> b = 13 then 3 else 0)"

lemma validate_loop_step:
  "validate_loop i st (b # bs) =
     (if \<not> http_headers_is_valid_byte b then
        res_bind (LOG_WARNF ''http'' ''bad byte in request header: 0x%02X'' [Arg_nat (unat b)]) (\<lambda>l. Inr (None, [l]))
      else if st = 3 \<and> b = 10 then Inr (Some (i - 2), [])
      else validate_loop (i + 1) (next_state st b) bs)"
  by (auto simp: next_state_def)

lemma since_start_step:
  assumes "since_start st tail" and "\<not> (st = 3 \<and> b = 10)"
  shows "if next_state st b = 0 then skipped (tail @ [b]) else since_start (next_state st b) (tail @ [b])"
proof -
  consider "st = 0" "tail = []" | n where "st = 1" "tail = replicate (Suc n) 13"
    | n where "st = 2" "tail = replicate (Suc n) 13 @ [10]" | n where "st = 3" "tail = replicate (Suc n) 13 @ [10, 13]"
    using assms(1) unfolding since_start_def by blast
  then show ?thesis
  proof cases
    case 1
    then show ?thesis by (auto simp: next_state_def skipped_def since_start_def intro: exI [of _ 0])
  next
    case (2 n)
    then have "tail @ [13] = replicate (Suc (Suc n)) 13" by (simp add: replicate_append_same)
    with 2 show ?thesis by (auto simp: next_state_def skipped_def since_start_def simp del: replicate_Suc)
  next
    case (3 n)
    then show ?thesis by (auto simp: next_state_def skipped_def since_start_def)
  next
    case (4 n)
    with assms(2) show ?thesis by (auto simp: next_state_def skipped_def since_start_def)
  qed
qed

lemma validate_loop_sound:
  "\<lbrakk>validate_loop (length (concat cs @ tail)) st bs = Inr (Some off, l); since_start st tail; list_all skipped cs;
    list_all http_headers_is_valid_byte (concat cs @ tail)\<rbrakk> \<Longrightarrow> header_end (concat cs @ tail @ bs) off"
proof (induction bs arbitrary: cs tail st)
  case Nil
  then show ?case by simp
next
  case (Cons b bs)
  have valid: "http_headers_is_valid_byte b"
    using Cons.prems(1) unfolding validate_loop_step by (auto simp: res_bind_Inr_iff split: if_splits)
  show ?case
  proof (cases "st = 3 \<and> b = 10")
    case True
    then obtain n where tail: "tail = replicate (Suc n) 13 @ [10, 13]" using Cons.prems(2) by (auto simp: since_start_def)
    with True Cons.prems show ?thesis
      unfolding header_end_def by (intro exI [of _ cs] exI [of _ n] exI [of _ bs]) (simp add: CRLF_def replicate_app_Cons_same)
  next
    case False
    let ?st = "next_state st b"
    have run: "validate_loop (length (concat cs @ tail @ [b])) ?st bs = Inr (Some off, l)"
      using Cons.prems(1) valid False unfolding validate_loop_step by simp
    note step = since_start_step [OF Cons.prems(2) False]
    show ?thesis
    proof (cases "?st = 0")
      case True
      with Cons.IH [of "cs @ [tail @ [b]]" "[]" 0] run step Cons.prems(3,4) valid show ?thesis
        by (simp add: since_start_def)
    next
      case False
      with Cons.IH [of cs "tail @ [b]" ?st] run step Cons.prems(3,4) valid show ?thesis by simp
    qed
  qed
qed

lemma validate_loop_carriages:
  "validate_loop i (Suc 0) (replicate n 13 @ bs) = validate_loop (i + n) (Suc 0) bs"
  by (induction n arbitrary: i) simp_all

lemma validate_loop_skipped:
  assumes "skipped c" and "list_all http_headers_is_valid_byte c"
  shows "validate_loop i 0 (c @ bs) = validate_loop (i + length c) 0 bs"
proof -
  consider b where "c = [b]" "b \<noteq> 13" | n b where "c = 13 # replicate n 13 @ [b]" "b \<noteq> 13" "b \<noteq> 10"
    | n b where "c = 13 # replicate n 13 @ [10, b]" "b \<noteq> 13" | n b where "c = 13 # replicate n 13 @ [10, 13, b]" "b \<noteq> 10"
    using assms(1) unfolding skipped_def by auto
  then show ?thesis
  proof cases
    case 1
    then show ?thesis using assms(2) by simp
  next
    case (2 n b)
    then show ?thesis using assms(2) by (simp add: validate_loop_carriages)
  next
    case (3 n b)
    then show ?thesis using assms(2) by (simp add: validate_loop_carriages)
  next
    case (4 n b)
    then show ?thesis using assms(2) by (simp add: validate_loop_carriages)
  qed
qed

lemma validate_loop_complete:
  assumes "header_end bs off"
  shows "validate_loop i 0 bs = Inr (Some (i + off), [])"
proof -
  obtain cs n rest where h: "bs = concat cs @ replicate n 13 @ CRLF @ CRLF @ rest" "list_all skipped cs"
      "list_all http_headers_is_valid_byte (concat cs)" "off = length (concat cs) + n + 1"
    using assms unfolding header_end_def by blast
  have "validate_loop i 0 (concat cs @ bs') = validate_loop (i + length (concat cs)) 0 bs'" for bs'
    using h(2,3)
  proof (induction cs arbitrary: i)
    case (Cons c cs)
    then show ?case using validate_loop_skipped [of c i "concat cs @ bs'"] by (simp add: add.assoc)
  qed simp
  then show ?thesis
    unfolding h(1,4) by (simp add: CRLF_def replicate_app_Cons_same validate_loop_carriages)
qed

text \<open>What a passed request is: allowed bytes in front of two line ends, the first of which is cut in the middle.\<close>

lemma header_end_split:
  assumes "header_end bs off"
  shows "\<exists>hs rest. bs = hs @ CRLF @ CRLF @ rest \<and> list_all http_headers_is_valid_byte hs \<and> off = length hs + 1 \<and>
    take off bs = hs @ [13]"
proof -
  obtain cs n rest where h: "bs = concat cs @ replicate n 13 @ CRLF @ CRLF @ rest"
      "list_all http_headers_is_valid_byte (concat cs)" "off = length (concat cs) + n + 1"
    using assms unfolding header_end_def by blast
  let ?hs = "concat cs @ replicate n 13"
  have "list_all http_headers_is_valid_byte ?hs" using h(2) by (auto simp: list_all_iff)
  moreover have "take off bs = ?hs @ [13]" unfolding h(1,3) by (simp add: CRLF_def)
  ultimately show ?thesis using h(1,3) by (intro exI [of _ ?hs] exI [of _ rest]) simp
qed

text \<open>A line: bytes that are valid and no part of a line end.\<close>

definition plain_line :: "u8 list \<Rightarrow> bool" where
  "plain_line l \<longleftrightarrow> l \<noteq> [] \<and> list_all (\<lambda>b. http_headers_is_valid_byte b \<and> b \<noteq> 13 \<and> b \<noteq> 10) l"

definition lines_text :: "u8 list list \<Rightarrow> u8 list" where
  "lines_text ls = concat (map (\<lambda>l. l @ CRLF) ls)"

lemma validate_loop_bytes:
  "list_all (\<lambda>b. http_headers_is_valid_byte b \<and> b \<noteq> 13 \<and> b \<noteq> 10) l \<Longrightarrow>
    validate_loop i 0 (l @ bs) = validate_loop (i + length l) 0 bs"
  by (induction l arbitrary: i) simp_all

lemma validate_loop_line:
  assumes "plain_line l" and "st = 0 \<or> st = 2"
  shows "validate_loop i st (l @ CRLF @ bs) = validate_loop (i + length l + 2) 2 bs"
proof -
  obtain b l' where l: "l = b # l'" using assms(1) by (cases l) (auto simp: plain_line_def)
  then have "validate_loop i st (l @ CRLF @ bs) = validate_loop (i + 1) 0 (l' @ CRLF @ bs)"
    using assms by (auto simp: plain_line_def)
  also have "\<dots> = validate_loop (i + 1 + length l') 0 (CRLF @ bs)"
    using assms(1) l by (intro validate_loop_bytes) (simp add: plain_line_def)
  finally show ?thesis using l by (simp add: CRLF_def)
qed

lemma validate_loop_lines:
  "\<lbrakk>ls \<noteq> []; list_all plain_line ls; st = 0 \<or> st = 2\<rbrakk> \<Longrightarrow>
    validate_loop i st (lines_text ls @ CRLF @ rest) = Inr (Some (i + length (lines_text ls) - 1), [])"
proof (induction ls arbitrary: i st)
  case Nil
  then show ?case by simp
next
  case (Cons l ls)
  have split: "lines_text (l # ls) @ CRLF @ rest = l @ CRLF @ (lines_text ls @ CRLF @ rest)"
    by (simp add: lines_text_def)
  have line: "validate_loop i st (lines_text (l # ls) @ CRLF @ rest) =
      validate_loop (i + length l + 2) 2 (lines_text ls @ CRLF @ rest)"
    unfolding split using Cons.prems by (intro validate_loop_line) simp_all
  show ?case
  proof (cases "ls = []")
    case True
    then show ?thesis using line by (simp add: lines_text_def CRLF_def)
  next
    case False
    with Cons.IH [of 2 "i + length l + 2"] Cons.prems line show ?thesis
      by (simp add: lines_text_def CRLF_def)
  qed
qed

text \<open>The loop always ends with an offset, or with one log line.\<close>

lemma bad_byte_line:
  "LOG_WARNF ''http'' ''bad byte in request header: 0x%02X'' [Arg_nat (unat (b :: u8))] =
     Inr (LOG_WARN ''http'' (''bad byte in request header: 0x'' @ fmt_02X b))"
  by (rule log_formatted) (simp_all add: printf_simps)

text \<open>Why a request that does not pass is refused: the first byte that is not allowed, or the missing end.\<close>

definition refusal :: "u8 list \<Rightarrow> string" where
  "refusal bs =
     (case find (\<lambda>b. \<not> http_headers_is_valid_byte b) bs of
        None \<Rightarrow> LOG_WARN ''http'' end_not_found
      | Some b \<Rightarrow> LOG_WARN ''http'' (''bad byte in request header: 0x'' @ fmt_02X b))"

lemma validate_loop_returns: "\<exists>r. validate_loop i st bs = Inr (r, if r = None then [refusal bs] else [])"
proof (induction bs arbitrary: i st)
  case (Cons b bs)
  have "refusal (b # bs) = refusal bs" if "http_headers_is_valid_byte b" using that by (simp add: refusal_def)
  with Cons [of "i + 1" "next_state st b"] show ?case
    unfolding validate_loop_step by (auto simp: bad_byte_line refusal_def)
qed (simp add: refusal_def)

text \<open>The loop passes a request exactly if its headers end.\<close>

lemma validate_loop_iff:
  "\<exists>r. validate_loop 0 0 bs = Inr (r, if r = None then [refusal bs] else []) \<and> (\<forall>off. r = Some off \<longleftrightarrow> header_end bs off)"
proof -
  obtain r where r: "validate_loop 0 0 bs = Inr (r, if r = None then [refusal bs] else [])"
    using validate_loop_returns by blast
  have "header_end bs off" if "r = Some off" for off
    using validate_loop_sound [of "[]" "[]" 0 bs off "[]"] r that by (simp add: since_start_def)
  moreover have "r = Some off" if "header_end bs off" for off
    using validate_loop_complete [OF that, of 0] unfolding r by (simp only: sum.inject prod.inject add_0_left)
  ultimately have "\<forall>off. r = Some off \<longleftrightarrow> header_end bs off" by blast
  with r show ?thesis by blast
qed

text \<open>Proper lines with an empty line behind them pass.\<close>

lemma lines_header_end:
  assumes "ls \<noteq> []" and "list_all plain_line ls"
  shows "header_end (lines_text ls @ CRLF @ rest) (length (lines_text ls) - 1)"
  using validate_loop_sound [of "[]" "[]" 0 "lines_text ls @ CRLF @ rest"] validate_loop_lines [OF assms, of 0 0 rest]
  by (simp add: since_start_def)

text \<open>C33: Which requests pass the validation of the headers, exactly, and where the headers are cut. A request passes with an offset if and only if
  it is \<open>header_end\<close> of this offset: allowed bytes that contain no empty line as the automaton sees it, and then an empty
  line. Such a request has only allowed bytes before the empty line, and the offset is one byte behind the start
  of the line end before it: the headers that are printed end with a carriage return without its
  newline. The bytes behind the empty line are not looked at. A request that does not pass gives one log line, with
  the first byte that is not allowed if there is one, and else that the end was not found. Every request of lines that are not
  empty, contain only allowed bytes, and are ended by
  carriage return and newline, with an empty line behind them, passes.\<close>

theorem http_headers_validate_spec:
  assumes "1 < length bs"
  shows "(\<forall>off l. http_headers_validate bs (length bs) = Inr (Some off, l) \<longleftrightarrow> header_end bs off \<and> l = []) \<and>
    ((\<nexists>off. header_end bs off) \<longrightarrow> http_headers_validate bs (length bs) = Inr (None, [refusal bs])) \<and>
    (\<forall>off. header_end bs off \<longrightarrow>
      (\<exists>hs rest. bs = hs @ CRLF @ CRLF @ rest \<and> list_all http_headers_is_valid_byte hs \<and> take off bs = hs @ [13])) \<and>
    (\<forall>ls rest. ls \<noteq> [] \<longrightarrow> list_all plain_line ls \<longrightarrow> bs = lines_text ls @ CRLF @ rest \<longrightarrow>
      header_end bs (length (lines_text ls) - 1))"
proof -
  have run: "http_headers_validate bs (length bs) = validate_loop 0 0 bs"
    using assms by (simp add: http_headers_validate_def c_assert_def)
  obtain r where r: "validate_loop 0 0 bs = Inr (r, if r = None then [refusal bs] else [])"
      "\<And>off. r = Some off \<longleftrightarrow> header_end bs off"
    using validate_loop_iff [of bs] by blast
  then have "\<forall>off l. http_headers_validate bs (length bs) = Inr (Some off, l) \<longleftrightarrow> header_end bs off \<and> l = []"
    unfolding run r(1) by auto
  moreover have "http_headers_validate bs (length bs) = Inr (None, [refusal bs])" if "\<nexists>off. header_end bs off"
  proof -
    from that r(2) have "r = None" by (cases r) blast+
    then show ?thesis unfolding run r(1) by simp
  qed
  moreover have "\<exists>hs rest. bs = hs @ CRLF @ CRLF @ rest \<and> list_all http_headers_is_valid_byte hs \<and> take off bs = hs @ [13]"
    if "header_end bs off" for off
    using header_end_split [OF that] by blast
  moreover have "header_end bs (length (lines_text ls) - 1)"
    if "ls \<noteq> []" "list_all plain_line ls" "bs = lines_text ls @ CRLF @ rest" for ls rest
    unfolding that(3) by (rule lines_header_end [OF that(1,2)])
  ultimately show ?thesis by blast
qed

theorem http_headers_validate_spec_witness:
  "http_headers_validate [71, 13, 13, 10, 13, 10, 0] (length [71, 13, 13, 10, 13, 10, 0 :: u8]) = Inr (Some 3, [])"
proof -
  have "header_end [71, 13, 13, 10, 13, 10, 0] 3"
    unfolding header_end_def
    by (intro exI [of _ "[[71]]"] exI [of _ 1] exI [of _ "[0]"])
      (simp add: CRLF_def skipped_def http_headers_is_valid_byte_def iscntrl_def)
  then show ?thesis using http_headers_validate_spec [of "[71, 13, 13, 10, 13, 10, 0]"] by simp
qed

text \<open>A second carriage return in the wrong place hides the empty line.\<close>

lemma validate_misses_empty_line:
  "http_headers_validate (CRLF @ [13] @ CRLF @ CRLF) 7 = Inr (None, [LOG_WARN ''http'' end_not_found])"
  by (simp add: http_headers_validate_def c_assert_def CRLF_def)

section \<open>Handling a client\<close>

text \<open>The response, in full.\<close>

definition response_text :: string where
  "response_text =
     ''HTTP/1.1 501 Not Implemented'' @ crlf_text @
     ''Server: http-server/0.0.0'' @ crlf_text @
     ''Content-Length: 49'' @ crlf_text @
     ''Content-Type: text/plain; charset=utf-8'' @ crlf_text @
     ''Connection: closed'' @ crlf_text @
     crlf_text @ http_response_body"

lemma http_response_eq: "http_response = Inr response_text"
proof -
  have num: "fmt_d 501 = ''501''" "fmt_u 49 = ''49''"
    by (simp_all add: fmt_d_def fmt_u.simps dec_digit_def)
  have "length http_response_body = 49" by (simp add: http_response_body_def)
  then show ?thesis
    by (simp add: http_response_def printf_simps crlf_text_def response_text_def num del: fmt_u.simps)
qed

text \<open>The log lines with arguments.\<close>

lemma client_lines:
  "LOG_ERRORF ''io'' ''recv polling failed: %s'' [Arg_str e] = Inr (LOG_ERROR ''io'' (''recv polling failed: '' @ e))"
  "LOG_WARNF ''io'' ''read timeout triggered after %zu ms.'' [Arg_nat k] =
     Inr (LOG_WARN ''io'' (''read timeout triggered after '' @ fmt_u k @ '' ms.''))"
  "LOG_DEBUGF ''main'' ''%ld bytes read'' [Arg_int n] = Inr (LOG_DEBUG ''main'' (fmt_d n @ '' bytes read''))"
  "LOG_DEBUGF ''main'' ''sending %d bytes...'' [Arg_int n] = Inr (LOG_DEBUG ''main'' (''sending '' @ fmt_d n @ '' bytes...''))"
  "LOG_ERRORF ''main'' ''failed to send full response (%d bytes): %s'' [Arg_int n, Arg_str e] =
     Inr (LOG_ERROR ''main'' (''failed to send full response ('' @ fmt_d n @ '' bytes): '' @ e))"
  "LOG_WARNF ''main'' ''failed to send full response (%d bytes): just sent %ld bytes: %s'' [Arg_int n, Arg_int i, Arg_str e] =
     Inr (LOG_WARN ''main'' (''failed to send full response ('' @ fmt_d n @ '' bytes): just sent '' @ fmt_d i @ '' bytes: '' @ e))"
  by (rule log_formatted; simp add: printf_simps del: fmt_u.simps)+

text \<open>What follows the validation: the response is printed, and as much of it is sent as the system accepts; on a
  connection that the peer has reset, the signal ends the server.\<close>

lemma http_send_response_eq:
  "if sending cl = Send_Broken_Pipe then http_send_response cl out log = Inl Sigpipe
   else \<exists>log'. http_send_response cl out log =
     Inr (end_of_request (out @ text_bytes response_text) (delivered (sending cl) (text_bytes response_text)) (log @ log'))"
proof -
  have "0 < length response_text" by (simp add: response_text_def)
  then show ?thesis
    by (cases "sending cl") (auto simp: http_send_response_def http_response_eq client_lines c_assert_def Let_def)
qed

text \<open>A connection that is closed without a response.\<close>

definition unanswered :: "client_log \<Rightarrow> bool" where
  "unanswered l \<longleftrightarrow> stdout_bytes l = [] \<and> sent_bytes l = []"

text \<open>What the server does with the bytes of one \<open>recv\<close>.\<close>

lemma handle_client_bytes:
  assumes "polled cl = Poll_Ready True" and "received cl = Recv_Bytes d"
  defines "bs \<equiv> take 4094 d"
  shows "if length bs = 1 then http_handle_client config cl = Inl Assert_Failure
    else if \<exists>off. header_end bs off then
      if sending cl = Send_Broken_Pipe then http_handle_client config cl = Inl Sigpipe
      else \<exists>off log. header_end bs off \<and> http_handle_client config cl =
        Inr (end_of_request (take off bs @ [10] @ text_bytes response_text) (delivered (sending cl) (text_bytes response_text)) log)
    else \<exists>log. http_handle_client config cl = Inr (end_of_request [] [] log)"
proof -
  let ?buf = "bs @ replicate (4096 - length bs) 0"
  have len: "length bs \<le> 4094" by (simp add: bs_def)
  have clear: "arr_copy (replicate 4096 (0 :: u8)) 0 (replicate 4095 0) = Inr (replicate 4096 0)"
    using replicate_add [of 4095 1 "0 :: u8"] by (simp add: arr_copy_def)
  have copy: "arr_copy (replicate 4096 (0 :: u8)) 0 bs = Inr ?buf"
    using len by (simp add: arr_copy_def)
  have read: "recv_or_timeout e (polled cl) (received cl) (replicate 4096 0) 4095 t = Inr (Some (int (length bs), ?buf), [])"
    for e t
    using clear copy by (simp add: assms(1,2) recv_or_timeout_def c_assert_def bs_def)
  have validate: "http_headers_validate ?buf (length bs) =
      (if length bs \<le> 1 then Inl Assert_Failure else validate_loop 0 0 bs)"
    using len by (simp add: http_headers_validate_def c_assert_def)
  obtain r l where r: "validate_loop 0 0 bs = Inr (r, l)" "\<And>off. r = Some off \<longleftrightarrow> header_end bs off"
    using validate_loop_iff [of bs] by blast
  show ?thesis
  proof (cases "length bs \<le> 1")
    case True
    then have "\<not> header_end bs off" for off using header_end_split [of bs off] by (auto simp: CRLF_def)
    with True show ?thesis
      using len read validate
      by (cases bs) (auto simp: http_handle_client_def c_assert_def client_lines Let_def)
  next
    case False
    then have "nat (int (length bs)) \<le> 4095" "\<not> int (length bs) \<le> 0" using len by auto
    then have run: "\<exists>log. http_handle_client config cl =
        (case r of None \<Rightarrow> Inr (end_of_request [] [] log) | Some off \<Rightarrow> http_send_response cl (take off ?buf @ [10]) log)"
      using False read validate r(1)
      by (cases r) (simp_all add: http_handle_client_def c_assert_def client_lines Let_def, blast+)
    show ?thesis
    proof (cases r)
      case None
      with r(2) have "\<nexists>off. header_end bs off" by auto
      with run None False show ?thesis by auto
    next
      case (Some off)
      with r(2) [of off] have off: "header_end bs off" by blast
      from Some run obtain log where "http_handle_client config cl = http_send_response cl (take off ?buf @ [10]) log" by auto
      moreover have "take off ?buf = take off bs" using header_end_split [OF off] by (auto simp: CRLF_def)
      ultimately have "if sending cl = Send_Broken_Pipe then http_handle_client config cl = Inl Sigpipe
          else \<exists>log. http_handle_client config cl = Inr (end_of_request (take off bs @ [10] @ text_bytes response_text)
            (delivered (sending cl) (text_bytes response_text)) log)"
        using http_send_response_eq [of cl "take off bs @ [10]" log] by auto
      with off False show ?thesis by (auto split: if_splits)
    qed
  qed
qed

text \<open>C34: What the server does with the bytes of a client. There are two ways for it to end the server: a request of one byte, and nothing
  else, fails an assertion, and a request that passes the validation, on a connection that the client has reset by the
  time the response is sent, raises \<open>SIGPIPE\<close>. Otherwise the connection is closed, as its last log line says. A
  request that passes the validation is answered: the headers and the response are printed, and as much of the response is sent as the system accepts. A request that does not pass,
  because one of its first 4094 bytes is not allowed or they contain no empty line, is closed without any response, although a comment in
  \<open>main.c\<close> promises one. Every request of
  proper lines with an empty line behind them within those bytes passes.\<close>

theorem http_handle_client_outcome:
  assumes "polled cl = Poll_Ready True" and "received cl = Recv_Bytes d"
  shows "(\<forall>e. http_handle_client config cl = Inl e \<longleftrightarrow>
      e = Assert_Failure \<and> length d = 1 \<or>
      e = Sigpipe \<and> sending cl = Send_Broken_Pipe \<and> (\<exists>off. header_end (take 4094 d) off)) \<and>
    (\<forall>l. http_handle_client config cl = Inr l \<longrightarrow>
       last (log_lines l) = LOG_DEBUG ''main'' ''client socket: closed.'' \<and>
       (if \<exists>off. header_end (take 4094 d) off
        then \<exists>off. header_end (take 4094 d) off \<and> stdout_bytes l = take off (take 4094 d) @ [10] @ text_bytes response_text \<and>
          sent_bytes l = delivered (sending cl) (text_bytes response_text)
        else unanswered l)) \<and>
    (\<forall>ls rest. ls \<noteq> [] \<longrightarrow> list_all plain_line ls \<longrightarrow> take 4094 d = lines_text ls @ CRLF @ rest \<longrightarrow>
       header_end (take 4094 d) (length (lines_text ls) - 1))"
proof -
  let ?bs = "take 4094 d"
  have one: "length ?bs = 1 \<longleftrightarrow> length d = 1" by (auto simp: min_def)
  have short: "\<nexists>off. header_end ?bs off" if "length ?bs = 1"
    using that header_end_split [of ?bs] by (fastforce simp: CRLF_def)
  have "(\<forall>e. http_handle_client config cl = Inl e \<longleftrightarrow>
      e = Assert_Failure \<and> length ?bs = 1 \<or> e = Sigpipe \<and> sending cl = Send_Broken_Pipe \<and> (\<exists>off. header_end ?bs off))"
    using handle_client_bytes [OF assms, of config] short by (auto split: if_splits)
  moreover have "\<forall>l. http_handle_client config cl = Inr l \<longrightarrow>
      last (log_lines l) = LOG_DEBUG ''main'' ''client socket: closed.'' \<and>
      (if \<exists>off. header_end ?bs off
       then \<exists>off. header_end ?bs off \<and> stdout_bytes l = take off ?bs @ [10] @ text_bytes response_text \<and>
         sent_bytes l = delivered (sending cl) (text_bytes response_text)
       else unanswered l)"
    using handle_client_bytes [OF assms, of config] by (auto simp: end_of_request_def unanswered_def split: if_splits)
  moreover have "\<forall>ls rest. ls \<noteq> [] \<longrightarrow> list_all plain_line ls \<longrightarrow> ?bs = lines_text ls @ CRLF @ rest \<longrightarrow>
      header_end ?bs (length (lines_text ls) - 1)"
    using lines_header_end by metis
  ultimately show ?thesis unfolding one by blast
qed

theorem http_handle_client_outcome_witness:
  "http_handle_client config_zero
     \<lparr>polled = Poll_Ready True, received = Recv_Bytes [71, 13, 10, 13, 10], sending = Send_Broken_Pipe, client_error = []\<rparr> =
   Inl Sigpipe"
proof -
  have line: "[[71]] \<noteq> ([] :: u8 list list)" "list_all plain_line [[71]]"
    "take 4094 [71, 13, 10, 13, 10] = lines_text [[71]] @ CRLF @ []"
    by (simp_all add: plain_line_def lines_text_def CRLF_def http_headers_is_valid_byte_def iscntrl_def)
  with http_handle_client_outcome [of "\<lparr>polled = Poll_Ready True, received = Recv_Bytes [71, 13, 10, 13, 10],
      sending = Send_Broken_Pipe, client_error = []\<rparr>" "[71, 13, 10, 13, 10]" config_zero]
  show ?thesis by (metis client.select_convs)
qed

text \<open>The clients that end the server, and how.\<close>

definition client_fault :: "client \<Rightarrow> fault option" where
  "client_fault cl =
     (case polled cl of
        Poll_Ready pollin \<Rightarrow>
          if \<not> pollin then Some Assert_Failure
          else
            (case received cl of
               Recv_Failed \<Rightarrow> None
             | Recv_Bytes d \<Rightarrow>
                 if length d = 1 then Some Assert_Failure
                 else if sending cl = Send_Broken_Pipe \<and> (\<exists>off. header_end (take 4094 d) off) then Some Sigpipe
                 else None)
      | _ \<Rightarrow> None)"

lemma handle_client_fault:
  "case client_fault cl of None \<Rightarrow> \<exists>l. http_handle_client config cl = Inr l | Some e \<Rightarrow> http_handle_client config cl = Inl e"
proof (cases "polled cl")
  case (Poll_Ready pollin)
  show ?thesis
  proof (cases "pollin \<and> received cl \<noteq> Recv_Failed")
    case True
    then obtain d where d: "received cl = Recv_Bytes d" by (cases "received cl") auto
    have "length (take 4094 d) = 1 \<longleftrightarrow> length d = 1" by (auto simp: min_def)
    with handle_client_bytes [of cl d config] Poll_Ready True d show ?thesis
      by (auto simp: client_fault_def split: if_splits)
  next
    case False
    with Poll_Ready show ?thesis
      by (cases pollin) (auto simp: client_fault_def http_handle_client_def recv_or_timeout_def c_assert_def arr_copy_def Let_def)
  qed
qed (auto simp: client_fault_def http_handle_client_def recv_or_timeout_def client_lines Let_def)

lemma serve_all:
  "list_all (\<lambda>cl. client_fault cl = None) cls \<Longrightarrow>
    \<exists>ls. list_all2 (\<lambda>cl l. http_handle_client config cl = Inr l) cls ls \<and>
      (\<forall>rest. http_serve config (map Some cls @ rest) = res_bind (http_serve config rest) (\<lambda>(code, ls'). Inr (code, ls @ ls')))"
proof (induction cls)
  case Nil
  have "res_bind r (\<lambda>(code, ls'). Inr (code, [] @ ls')) = r" for r :: "(int option \<times> client_log list) res"
    by (cases r) auto
  then show ?case by (intro exI [of _ "[]"]) simp
next
  case (Cons cl cls)
  from Cons.prems handle_client_fault [of config cl] obtain l where l: "http_handle_client config cl = Inr l" by auto
  from Cons obtain ls where
      "list_all2 (\<lambda>cl l. http_handle_client config cl = Inr l) cls ls"
      "\<forall>rest. http_serve config (map Some cls @ rest) = res_bind (http_serve config rest) (\<lambda>(code, ls'). Inr (code, ls @ ls'))"
    by auto
  with l show ?case
    by (intro exI [of _ "l # ls"]) (simp add: split_beta)
qed

text \<open>C35: The whole server. When the configuration and the socket calls succeed, it is bound to the host and port of the
  environment, and serves the clients in the order they come, each as if it were the only one, until
  \<open>accept\<close> fails, when it closes its socket. This goes on as long as no client ends it: by failing an assertion, or by
  \<open>SIGPIPE\<close>, which is neither handled nor ignored. The first one that does ends the server, in its way,
  whoever comes afterwards.\<close>

theorem http_main_serves:
  assumes "config_init_from_env_http getenv config_zero = (True, config)"
    and "http_server_init net config = Inr (Listening address)" and "list_all (\<lambda>cl. client_fault cl = None) cls"
  shows "sin_addr address = inet_addr net (server_host config) \<and>
    port_of (sin_port address) = unat (server_port config) \<and>
    (\<exists>ls. list_all2 (\<lambda>cl l. http_handle_client config cl = Inr l) cls ls \<and>
       http_main getenv net (map Some cls) = Inr (None, ls, 1) \<and>
       (\<forall>rest. http_main getenv net (map Some cls @ None # rest) = Inr (Some 1, ls, 0))) \<and>
    (\<forall>cl rest e. client_fault cl = Some e \<longrightarrow> http_main getenv net (map Some cls @ Some cl # rest) = Inl e)"
proof -
  have main: "http_main getenv net clients =
      res_bind (http_serve config clients) (\<lambda>(code, ls). Inr (code, ls, if code = None then 1 else http_server_free 1))" for clients
    using assms(1,2) by (simp add: http_main_def)
  have address: "sin_addr address = inet_addr net (server_host config)" "port_of (sin_port address) = unat (server_port config)"
    using assms(2)
    by (auto simp: http_server_init_def http_server_bind_def tcp_socket_or_exit_def c_exit_def ipv4_address_create_def
        Let_def split: if_splits option.splits)
  obtain ls where ls: "list_all2 (\<lambda>cl l. http_handle_client config cl = Inr l) cls ls"
      "\<And>rest. http_serve config (map Some cls @ rest) = res_bind (http_serve config rest) (\<lambda>(code, ls'). Inr (code, ls @ ls'))"
    using serve_all [OF assms(3)] by auto
  have "http_main getenv net (map Some cls) = Inr (None, ls, 1)"
    using ls(2) [of "[]"] by (simp add: main)
  moreover have "http_main getenv net (map Some cls @ None # rest) = Inr (Some 1, ls, 0)" for rest
    by (simp add: main ls(2) http_server_free_def)
  moreover have "http_main getenv net (map Some cls @ Some cl # rest) = Inl e" if "client_fault cl = Some e" for cl rest e
    using handle_client_fault [of config cl] that by (simp add: main ls(2))
  ultimately show ?thesis using address ls(1) by blast
qed

definition local_network :: network where
  "local_network = \<lparr>socket_ok = True, setsockopt_ok = True, inet_pton = \<lambda>_. None, inet_addr = \<lambda>_. 0x7F000001,
     bind_ok = \<lambda>a. sin_addr a = 0x7F000001, listen_ok = \<lambda>n. n = 16\<rparr>"

theorem http_main_serves_witness:
  "http_main (\<lambda>_. None) local_network
     [Some \<lparr>polled = Poll_Timeout, received = Recv_Failed, sending = Sent 0, client_error = []\<rparr>, Some \<lparr>polled = Poll_Ready True, received = Recv_Bytes [7], sending = Sent 0, client_error = []\<rparr>] =
   Inl Assert_Failure"
proof -
  let ?config = "snd (config_init_from_env_http (\<lambda>_. None) config_zero)"
  have config: "config_init_from_env_http (\<lambda>_. None) config_zero = (True, ?config)" "tcp_backlog ?config = 16"
    by (simp_all add: config_init_from_env_http_def env_numbers env_number_def config_init_debug_def config_init_host_def)
  have "http_server_init local_network ?config =
      Inr (Listening \<lparr>sin_addr = 0x7F000001, sin_port = htons (server_port ?config)\<rparr>)"
    using config(2)
    by (simp add: http_server_init_def tcp_socket_or_exit_def http_server_bind_def http_server_listen_def
        ipv4_address_create_def local_network_def Let_def)
  from http_main_serves [OF config(1) this, of "[\<lparr>polled = Poll_Timeout, received = Recv_Failed, sending = Sent 0, client_error = []\<rparr>]"]
  show ?thesis by (auto simp: client_fault_def)
qed

text \<open>One byte is enough; so is any request that is answered, if its connection is reset in time.\<close>

lemma one_byte_ends_the_server:
  "client_fault \<lparr>polled = Poll_Ready True, received = Recv_Bytes [b], sending = r, client_error = e\<rparr> = Some Assert_Failure"
  by (simp add: client_fault_def)

lemma reset_connection_ends_the_server:
  assumes "ls \<noteq> []" and "list_all plain_line ls" and "length (lines_text ls @ CRLF) \<le> 4094"
  shows "client_fault \<lparr>polled = Poll_Ready True, received = Recv_Bytes (lines_text ls @ CRLF), sending = Send_Broken_Pipe,
    client_error = e\<rparr> = Some Sigpipe"
proof -
  have "length (lines_text ls @ CRLF) \<noteq> 1" by (simp add: CRLF_def)
  moreover have "\<exists>off. header_end (take 4094 (lines_text ls @ CRLF)) off"
    using lines_header_end [OF assms(1,2), of "[]"] assms(3) by auto
  ultimately show ?thesis by (simp add: client_fault_def)
qed

section \<open>The deprecated reader\<close>

lemma poll_loop_never_ok: "poll_and_read_loop h a False first_chunk script \<noteq> Inr (Some True, a')"
proof (induction script arbitrary: a first_chunk)
  case Nil
  then show ?case by simp
next
  case (Cons pr script)
  obtain p r where pr: "pr = (p, r)" by (cases pr)
  show ?case
    unfolding pr
    by (auto simp: Cons.IH c_assert_def res_bind_Inr_iff split: poll_result.splits option.splits if_splits prod.splits)
qed

text \<open>The text of the bytes collected so far.\<close>

definition array_text :: "dynamic_array \<Rightarrow> string" where
  "array_text a = map (\<lambda>b. char_of (unat b)) (array_bytes a)"

lemma print_first_line_ok:
  assumes "array_wf a" and "array_bytes a \<noteq> []"
  shows "\<exists>line. print_first_line a = Inr line \<and> (line = None \<longleftrightarrow> \<not> sublist crlf_text (array_text a))"
proof -
  let ?s = "\<lparr>scan_input = str_slice_from_buffer (map_option (\<lambda>_. 0) (da_items a)) (unat (da_length a))\<rparr>"
  from assms(2) obtain items where items: "da_items a = Some items"
    by (cases "da_items a") (simp_all add: array_bytes_def)
  then have len: "unat (da_length a) \<le> length items" "unat (da_length a) \<noteq> 0"
    using assms by (auto simp: array_wf_def array_bytes_def word_le_nat_alt)
  have bytes: "slice_bytes (items_text a) (scan_input ?s) = Inr (array_text a)"
    using items len
    by (simp add: slice_bytes_def str_slice_from_buffer_def items_text_def array_text_def array_bytes_def take_map)
  have ne: "\<not> str_slice_is_empty (scan_input ?s)"
    using items len by (simp add: str_slice_is_empty_def str_slice_from_buffer_def)
  show ?thesis
  proof (cases "memmem (array_text a) crlf_text")
    case None
    with bytes ne memmem_None [of "array_text a" crlf_text] show ?thesis
      by (simp only: simp_thms) (simp add: print_first_line_def scanner_next_until_slice_def Let_def)
  next
    case (Some i)
    then have "i \<le> length (array_text a)" "sublist crlf_text (array_text a)"
      using memmem_Some memmem_None [of "array_text a" crlf_text] by auto
    with scanner_split_bytes(1) [OF bytes, of i] Some bytes ne show ?thesis
      by (simp add: print_first_line_def scanner_next_until_slice_def Let_def str_slice_println_def
        str_slice_print_def split_beta)
  qed
qed

definition chunk :: "u8 list \<Rightarrow> poll_result \<times> recv_result" where
  "chunk bs = (Poll_Ready True, Recv_Bytes bs)"

lemma poll_loop_collects:
  assumes "\<And>n. heap_ok h n"
  shows "\<lbrakk>array_wf a; list_all (\<lambda>c. c \<noteq> [] \<and> length c \<le> 4096) cs;
      length (array_bytes a) + length (concat cs) < 2 ^ 62\<rbrakk> \<Longrightarrow>
    \<exists>a'. poll_and_read_loop h a False False (map chunk cs @ [chunk []]) = Inr (Some False, a') \<and>
      array_wf a' \<and> array_bytes a' = array_bytes a @ concat cs"
proof (induction cs arbitrary: a)
  case Nil
  then show ?case by (simp add: chunk_def c_assert_def)
next
  case (Cons c cs)
  obtain a1 where a1: "dynamic_array_push_back h a c = Inr (0, a1)" "array_wf a1" "array_bytes a1 = array_bytes a @ c"
    using push_back_spec [of a c h] Cons.prems assms length_array_bytes [of a] by auto
  with Cons.IH [of a1] Cons.prems show ?case by (simp add: chunk_def c_assert_def)
qed

text \<open>The deprecated reader never completes a request. Whatever arrives, it does not return
  \<open>RESULT_OK\<close>. In particular, on chunks of at most 4096 bytes, the first of which contains the end of a
  line, with enough memory, it collects all of them, and reports an error when the client closes.\<close>

theorem http_request_poll_and_read_never_ok:
  assumes "\<And>n. heap_ok h n" and "list_all (\<lambda>c. c \<noteq> [] \<and> length c \<le> 4096) (c # cs)"
    and "length (concat (c # cs)) < 2 ^ 62"
    and "sublist crlf_text (map (\<lambda>b. char_of (unat b)) c)" and "req_data req = dynamic_array_init"
  shows "(\<forall>r r' script. http_request_poll_and_read h r script \<noteq> Inr (Some True, r')) \<and>
    (\<exists>data. http_request_poll_and_read h req (map chunk (c # cs) @ [chunk []]) =
         Inr (Some False, req\<lparr>req_data := data\<rparr>) \<and>
       array_bytes data = concat (c # cs))"
proof -
  have "unat (da_length dynamic_array_init) = 0" by (simp add: dynamic_array_init_def)
  then obtain a1 where a1: "dynamic_array_push_back h dynamic_array_init c = Inr (0, a1)" "array_wf a1" "array_bytes a1 = c"
    using push_back_spec [of dynamic_array_init c h] assms array_init_wf by auto
  moreover obtain out where "print_first_line a1 = Inr (Some out)"
    using print_first_line_ok [of a1] a1 assms(2,4) by (auto simp: array_text_def)
  moreover obtain a' where "poll_and_read_loop h a1 False False (map chunk cs @ [chunk []]) = Inr (Some False, a')"
      "array_bytes a' = c @ concat cs"
    using poll_loop_collects [of h a1 cs] assms a1 by auto
  ultimately show ?thesis
    using assms(2,5) poll_loop_never_ok
    by (auto simp: http_request_poll_and_read_def chunk_def c_assert_def res_bind_Inr_iff)
qed

text \<open>A request that has not been read.\<close>

definition new_request :: http_request where
  "new_request =
     \<lparr>req_data = dynamic_array_init, req_conn = 5,
      req_start_line = \<lparr>line_method = str_slice_empty, line_path = str_slice_empty, line_version = str_slice_empty\<rparr>,
      req_headers = replicate 64 \<lparr>header_key = str_slice_empty, header_value = str_slice_empty\<rparr>, req_body = str_slice_empty\<rparr>"

theorem http_request_poll_and_read_never_ok_witness:
  "\<exists>data. http_request_poll_and_read \<lparr>heap_ok = \<lambda>_. True, fresh = \<lambda>_. 0\<rparr> new_request
      [chunk [71, 13, 10], chunk [13, 10], chunk []] = Inr (Some False, new_request\<lparr>req_data := data\<rparr>) \<and>
    array_bytes data = [71, 13, 10, 13, 10]"
proof -
  have "sublist crlf_text (map (\<lambda>b. char_of (unat b)) [71, 13, 10 :: u8])"
    by (simp add: crlf_text_def sublist_Cons_right char_of_def bit_Suc_0_iff)
  then show ?thesis
    using http_request_poll_and_read_never_ok [of "\<lparr>heap_ok = \<lambda>_. True, fresh = \<lambda>_. 0\<rparr>" "[71, 13, 10]" "[[13, 10]]" new_request]
    by (simp add: new_request_def)
qed

end
