(* ===== verification/HttpParser.thy ===== *)
theory HttpParser
  imports Scanner HttpConfig
begin

text \<open>
  The parser of methods of the HTTP server (\<open>http/parser.c\<close>): its initialisation, which compiles a pattern, and the
  parsing function, which is a stub that always fails. The server does not use it.
\<close>

record http_parser =
  parser_input :: str_slice
  parser_cursor :: str_slice
  method_pattern :: "string option"

definition METHOD_PATTERN :: string where
  "METHOD_PATTERN = ''^GET|PUT|POST|HEAD|TRACE|DELETE|CONNECT|OPTIONS''"

text \<open>\<open>None\<close> is a null pointer to a parser.\<close>

definition http_parser_init ::
    "(string \<Rightarrow> string option) \<Rightarrow> bool \<Rightarrow> http_parser option \<Rightarrow> str_slice \<Rightarrow> http_parser res" where
  "http_parser_init regcomp calloc_ok parser inp =
     res_bind (c_assert (parser \<noteq> None)) (\<lambda>_.
     res_bind (c_assert (ss_ptr inp \<noteq> None)) (\<lambda>_.
     res_bind (regex_must_compile regcomp calloc_ok METHOD_PATTERN) (\<lambda>_.
     Inr \<lparr>parser_input = inp, parser_cursor = inp, method_pattern = Some METHOD_PATTERN\<rparr>)))"

definition http_parser_free :: "http_parser option \<Rightarrow> http_parser res" where
  "http_parser_free parser =
     (case parser of
        None \<Rightarrow> Inl Assert_Failure
      | Some p \<Rightarrow> Inr (p\<lparr>method_pattern := None\<rparr>))"

text \<open>The result is \<open>RESULT_ERR\<close>, written \<open>None\<close>; nothing is stored in \<open>out\<close>.\<close>

definition http_parser_method_parse :: "http_parser option \<Rightarrow> http_method option \<Rightarrow> http_method option res" where
  "http_parser_method_parse parser out =
     (case parser of
        None \<Rightarrow> Inl Assert_Failure
      | Some p \<Rightarrow>
          res_bind (c_assert (ss_ptr (parser_cursor p) \<noteq> None)) (\<lambda>_.
          res_bind (c_assert (out \<noteq> None)) (\<lambda>_.
          Inr None)))"

text \<open>A parser that was initialised on any input parses no method, not even where the input starts with one.\<close>

lemma http_parser_never_parses:
  assumes "http_parser_init regcomp calloc_ok (Some p0) inp = Inr p" and "out \<noteq> None"
  shows "http_parser_method_parse (Some p) out = Inr None"
  using assms by (auto simp: http_parser_init_def http_parser_method_parse_def c_assert_def res_bind_Inr_iff split: if_splits)

lemma http_parser_init_ok:
  assumes "regcomp METHOD_PATTERN = None" and "ss_ptr inp \<noteq> None"
  shows "\<exists>p. http_parser_init regcomp calloc_ok (Some p0) inp = Inr p \<and> parser_cursor p = inp \<and>
    (\<exists>q. http_parser_free (Some p) = Inr q \<and> method_pattern q = None)"
  using assms by (simp add: http_parser_init_def http_parser_free_def regex_must_compile_def c_assert_def)

end
