(* ===== verification/Curl.thy ===== *)
theory Curl
  imports DynamicArray
begin

text \<open>
  The libcurl example (\<open>libcurl/hello-libcurl.c\<close>): the buffer that its write callback grows, and
  the program around it. libcurl is an input, the record \<open>curl_lib\<close>: whether it initialises, the
  chunks it delivers, and the code it reports; as documented, it stops with an error when the callback
  does not return the number of bytes it was given. The interpretation \<open>curl_body\<close> of the locale \<open>byte_sink\<close>
  shows that the buffer collects the body.
\<close>

section \<open>The callbacks\<close>

record curl_buffer =
  cb_data :: "u8 list option"
  cb_size :: u64
  cb_capacity :: u64

definition curl_buffer_zero :: curl_buffer where
  "curl_buffer_zero = \<lparr>cb_data = None, cb_size = 0, cb_capacity = 0\<rparr>"

definition curl_buffer_free :: "curl_buffer \<Rightarrow> curl_buffer" where
  "curl_buffer_free b = b\<lparr>cb_data := None, cb_size := 0, cb_capacity := 0\<rparr>"

text \<open>\<open>memcpy\<close> of the first bytes of a chunk behind the bytes of the buffer. Copying nothing has no
  effect, also on a null pointer.\<close>

definition curl_memcpy :: "curl_buffer \<Rightarrow> u8 list \<Rightarrow> nat \<Rightarrow> curl_buffer res" where
  "curl_memcpy b chunk n =
     (if n = 0 then Inr b
      else if n > length chunk then Inl Out_Of_Bounds
      else case cb_data b of
        None \<Rightarrow> Inl Null_Deref
      | Some data \<Rightarrow> res_bind (arr_copy data (unat (cb_size b)) (take n chunk)) (\<lambda>data. Inr (b\<lparr>cb_data := Some data\<rparr>)))"

definition res_body_write_callback ::
    "heap \<Rightarrow> u8 list \<Rightarrow> u64 \<Rightarrow> u64 \<Rightarrow> curl_buffer \<Rightarrow> (u64 \<times> curl_buffer) res" where
  "res_body_write_callback h chunk sz nmemb buffer =
     (let chunk_size = sz * nmemb;
          grow = cb_size buffer + chunk_size > cb_capacity buffer;
          new_capacity = (cb_capacity buffer + chunk_size) * 8;
          buffer = (if grow then buffer\<lparr>cb_data := c_realloc h (cb_data buffer) (unat new_capacity)\<rparr> else buffer) in
      if grow \<and> cb_data buffer = None then Inr (0, buffer)
      else
        let buffer = (if grow then buffer\<lparr>cb_capacity := new_capacity\<rparr> else buffer) in
        res_bind (curl_memcpy buffer chunk (unat chunk_size)) (\<lambda>buffer.
        Inr (chunk_size, buffer\<lparr>cb_size := cb_size buffer + chunk_size\<rparr>)))"

text \<open>The value returned and the bytes printed on \<open>stderr\<close>.\<close>

definition res_header_callback :: "u8 list \<Rightarrow> u64 \<Rightarrow> u64 \<Rightarrow> (u64 \<times> u8 list) res" where
  "res_header_callback header sz nitems =
     (let buffer_size = sz * nitems in
      if unat buffer_size > length header then Inl Out_Of_Bounds
      else Inr (buffer_size, take (unat buffer_size) header))"

section \<open>The program\<close>

text \<open>What \<open>curl_version_info\<close> reports; a text is a null pointer when the library was built without the feature.\<close>

record curl_version_info_data =
  version_age :: nat
  version_texts :: "string option \<times> string option \<times> string option \<times> string option"
  ares :: "string option"
  libidn :: "string option"

definition CURLVERSION_SECOND :: nat where "CURLVERSION_SECOND = 1"
definition CURLVERSION_THIRD :: nat where "CURLVERSION_THIRD = 2"

definition print_info :: "string \<Rightarrow> string option \<Rightarrow> string res" where
  "print_info label v =
     (case v of None \<Rightarrow> Inl Null_Deref | Some t \<Rightarrow> Inr (''info: CURL '' @ label @ '': '' @ t @ ''\<newline>''))"

definition print_curl_info :: "curl_version_info_data \<Rightarrow> string res" where
  "print_curl_info curl_version =
     (case version_texts curl_version of (version, host, ssl_version, libz_version) \<Rightarrow>
      res_bind (print_info ''Version'' version) (\<lambda>a.
      res_bind (print_info ''Host Version'' host) (\<lambda>b.
      res_bind (print_info ''OpenSSL Version'' ssl_version) (\<lambda>c.
      res_bind (print_info ''LibZ Version'' libz_version) (\<lambda>d.
      res_bind (if version_age curl_version \<ge> CURLVERSION_SECOND then print_info ''Ares Version'' (ares curl_version)
                else Inr []) (\<lambda>e.
      res_bind (if version_age curl_version \<ge> CURLVERSION_THIRD then print_info ''LibIdn Version'' (libidn curl_version)
                else Inr []) (\<lambda>f.
      Inr (a @ b @ c @ d @ e @ f))))))))"

record curl_lib =
  curl_version :: curl_version_info_data
  global_init_ok :: bool
  easy_init_ok :: bool
  deliveries :: "u8 list list"
  perform_ok :: bool
  getinfo_ok :: bool

definition init_curl_or_exit :: "curl_lib \<Rightarrow> unit res" where
  "init_curl_or_exit lib =
     (if \<not> global_init_ok lib then c_exit ''error: curl: global init failed.''
      else if \<not> easy_init_ok lib then c_exit ''error: curl: easy init failed.''
      else Inr ())"

text \<open>A delivery of libcurl: zero when the callback took the whole chunk.\<close>

definition curl_deliver :: "heap \<Rightarrow> curl_buffer \<Rightarrow> u8 list \<Rightarrow> (int \<times> curl_buffer) res" where
  "curl_deliver h buffer chunk =
     res_bind (res_body_write_callback h chunk 1 (word_of_nat (length chunk)) buffer) (\<lambda>(taken, buffer).
     Inr (if unat taken = length chunk then 0 else 1, buffer))"

text \<open>\<open>printf("%.*s")\<close>: the precision is converted to \<open>int\<close>; a negative one counts as omitted,
  so that the text is read up to its zero byte.\<close>

definition print_prefix :: "int \<Rightarrow> u8 list \<Rightarrow> u8 list res" where
  "print_prefix precision data =
     (let text = takeWhile (\<lambda>b. b \<noteq> 0) data in
      if precision \<ge> 0 \<and> (nat precision \<le> length data \<or> length text < length data)
      then Inr (take (nat precision) text)
      else if length text < length data then Inr text
      else Inl Out_Of_Bounds)"

text \<open>The line with the request.\<close>

definition request_line :: "u8 list" where
  "request_line = map of_char (''GET https://jsonplaceholder.typicode.com/users/1\<newline>'')"

text \<open>What the program prints on standard output, and the buffer when it ends.\<close>

record curl_run =
  curl_stdout :: "u8 list"
  curl_body :: curl_buffer

definition curl_main :: "heap \<Rightarrow> curl_lib \<Rightarrow> curl_run res" where
  "curl_main h lib =
     res_bind (init_curl_or_exit lib) (\<lambda>_.
     res_bind (print_curl_info (curl_version lib)) (\<lambda>info.
     let out = request_line in
     res_bind (append_all_chunks (curl_deliver h) curl_buffer_zero (deliveries lib)) (\<lambda>(rc, res_body).
     if rc \<noteq> 0 \<or> \<not> perform_ok lib then c_exit ''error: GET failed''
     else
       res_bind (c_assert (getinfo_ok lib)) (\<lambda>_.
       res_bind (print_prefix (sint (ucast (cb_size res_body) :: 32 word))
         (case cb_data res_body of None \<Rightarrow> [] | Some data \<Rightarrow> data)) (\<lambda>text.
       Inr \<lparr>curl_stdout = out @ text, curl_body = curl_buffer_free res_body\<rparr>)))))"

section \<open>Correctness\<close>

definition body_bytes :: "curl_buffer \<Rightarrow> u8 list" where
  "body_bytes b = (case cb_data b of None \<Rightarrow> [] | Some data \<Rightarrow> take (unat (cb_size b)) data)"

text \<open>The capacity is the size of the memory and at most sixteen times the number of bytes.\<close>

definition body_wf :: "curl_buffer \<Rightarrow> bool" where
  "body_wf b \<longleftrightarrow>
     (case cb_data b of None \<Rightarrow> cb_capacity b = 0 | Some data \<Rightarrow> length data = unat (cb_capacity b)) \<and>
     unat (cb_size b) \<le> unat (cb_capacity b) \<and> unat (cb_capacity b) \<le> 16 * unat (cb_size b)"

lemma length_body_bytes: "body_wf b \<Longrightarrow> length (body_bytes b) = unat (cb_size b)"
  by (auto simp: body_wf_def body_bytes_def split: option.splits)

lemma body_zero: "body_wf curl_buffer_zero" "body_bytes curl_buffer_zero = []"
  by (simp_all add: body_wf_def body_bytes_def curl_buffer_zero_def)

text \<open>Copying into a buffer whose memory is large enough.\<close>

lemma curl_memcpy_ok:
  assumes "cb_data b = Some data" and "unat (cb_size b) + length chunk \<le> length data" and "chunk \<noteq> []"
    and "unat (cb_size b) + length chunk < 2 ^ 64"
  shows "\<exists>data'. curl_memcpy b chunk (length chunk) = Inr (b\<lparr>cb_data := Some data'\<rparr>) \<and> length data' = length data \<and>
    take (unat (cb_size b + word_of_nat (length chunk))) data' = take (unat (cb_size b)) data @ chunk"
proof -
  have "unat (cb_size b + word_of_nat (length chunk)) = unat (cb_size b) + length chunk"
    using assms(4) by (simp add: unat_word_ariths unat_of_nat)
  then show ?thesis
    using assms(1-3)
    by (intro exI [of _ "take (unat (cb_size b)) data @ chunk @ drop (unat (cb_size b) + length chunk) data"])
      (simp add: curl_memcpy_def arr_copy_def)
qed

lemma write_callback_spec:
  assumes "body_wf b" and "bs \<noteq> []" and "unat (cb_size b) + length bs < 2 ^ 59"
  shows "\<exists>taken b'. res_body_write_callback h bs 1 (word_of_nat (length bs)) b = Inr (taken, b') \<and>
    (unat taken = length bs \<and> body_wf b' \<and> body_bytes b' = body_bytes b @ bs \<or>
     taken = 0 \<and> b' = b\<lparr>cb_data := None\<rparr> \<and> \<not> heap_ok h (8 * (unat (cb_capacity b) + length bs)))"
proof -
  let ?n = "word_of_nat (length bs) :: u64"
  let ?nc = "(cb_capacity b + ?n) * 8"
  have n: "unat ?n = length bs" using assms(3) by (simp add: unat_of_nat)
  have sum: "unat (cb_size b + ?n) = unat (cb_size b) + length bs"
    using assms(3) n by (simp add: unat_word_ariths)
  show ?thesis
  proof (cases "cb_size b + ?n > cb_capacity b")
    case False
    then have room: "unat (cb_size b) + length bs \<le> unat (cb_capacity b)"
      using sum by (simp add: word_less_nat_alt)
    then obtain data where data: "cb_data b = Some data" "length data = unat (cb_capacity b)"
      using assms(1,2) by (cases "cb_data b") (auto simp: body_wf_def)
    with curl_memcpy_ok [of b data bs] room assms(2,3) False n sum assms(1) show ?thesis
      by (fastforce simp: res_body_write_callback_def body_wf_def body_bytes_def Let_def)
  next
    case True
    then have small: "unat (cb_capacity b) < unat (cb_size b) + length bs"
      using sum by (simp add: word_less_nat_alt)
    then have "unat (cb_capacity b + ?n) = unat (cb_capacity b) + length bs"
      using assms(3) n by (simp add: unat_word_ariths)
    with small have nc: "unat ?nc = 8 * (unat (cb_capacity b) + length bs)"
      using assms(3) by (simp only: unat_word_ariths(2)) simp
    show ?thesis
    proof (cases "c_realloc h (cb_data b) (unat ?nc)")
      case None
      with True nc c_realloc_None [of h "cb_data b" "unat ?nc"] show ?thesis
        by (simp add: res_body_write_callback_def Let_def)
    next
      case (Some data)
      let ?b = "b\<lparr>cb_data := Some data, cb_capacity := ?nc\<rparr>"
      have len: "length data = unat ?nc" using length_c_realloc [OF Some] .
      have keep: "take (unat (cb_size b)) data = body_bytes b"
      proof (cases "cb_data b")
        case None
        then show ?thesis using assms(1) by (auto simp: body_wf_def body_bytes_def)
      next
        case (Some old)
        with c_realloc_keeps [of h old "unat ?nc" data "unat (cb_size b)"] \<open>c_realloc h (cb_data b) (unat ?nc) = Some data\<close> nc assms(1)
        show ?thesis by (simp add: body_wf_def body_bytes_def)
      qed
      obtain data' where "curl_memcpy ?b bs (length bs) = Inr (?b\<lparr>cb_data := Some data'\<rparr>)" "length data' = length data"
          "take (unat (cb_size b + ?n)) data' = body_bytes b @ bs"
        using curl_memcpy_ok [of ?b data bs] keep len nc small assms(1-3) by (auto simp: body_wf_def)
      then show ?thesis
        using True Some n sum len nc small assms(1)
        by (simp add: res_body_write_callback_def Let_def body_wf_def body_bytes_def)
    qed
  qed
qed

interpretation curl_body: byte_sink "curl_deliver h" body_bytes body_wf "2 ^ 59" for h
proof (unfold_locales, goal_cases)
  case (1 b bs)
  then show ?case
    using write_callback_spec [of b bs h] length_body_bytes [of b] by (auto simp: curl_deliver_def)
qed

lemma take_takeWhile: "take n (takeWhile P xs) = takeWhile P (take n xs)"
  by (induction xs arbitrary: n) (auto split: nat.splits simp: take_Cons')

lemma print_body:
  assumes "body_wf b" and "unat (cb_size b) < 2 ^ 31"
  shows "print_prefix (sint (ucast (cb_size b) :: 32 word)) (case cb_data b of None \<Rightarrow> [] | Some data \<Rightarrow> data) =
    Inr (takeWhile (\<lambda>x. x \<noteq> 0) (body_bytes b))"
proof -
  have "unat (ucast (cb_size b) :: 32 word) = unat (cb_size b)"
    using assms(2) by (simp add: unsigned_ucast_eq take_bit_nat_eq_self)
  then have "uint (ucast (cb_size b) :: 32 word) = int (unat (cb_size b))" by (simp only: uint_nat)
  moreover have "int (unat (cb_size b)) < int (2 ^ 31)" using assms(2) by (simp only: of_nat_less_iff)
  ultimately have "sint (ucast (cb_size b) :: 32 word) = int (unat (cb_size b))"
    unfolding sint_uint by (subst signed_take_bit_int_eq_self)
      (simp_all add: order_trans [OF _ uint_ge_0])
  with assms(1) show ?thesis
    by (auto simp: print_prefix_def body_wf_def body_bytes_def take_takeWhile Let_def split: option.splits)
qed

text \<open>The version is printed when libcurl was built with everything the program asks for.\<close>

definition version_complete :: "curl_version_info_data \<Rightarrow> bool" where
  "version_complete v \<longleftrightarrow>
     (case version_texts v of (a, b, c, d) \<Rightarrow> None \<notin> {a, b, c, d}) \<and>
     (version_age v \<ge> CURLVERSION_SECOND \<longrightarrow> ares v \<noteq> None) \<and>
     (version_age v \<ge> CURLVERSION_THIRD \<longrightarrow> libidn v \<noteq> None)"

lemma print_curl_info_iff:
  "(\<exists>text. print_curl_info v = Inr text) \<longleftrightarrow> version_complete v"
  "print_curl_info v = Inl e \<Longrightarrow> e = Null_Deref"
  by (auto simp: print_curl_info_def version_complete_def print_info_def split: option.splits if_splits prod.splits)

text \<open>The current version of the library is newer than the second, and without c-ares its text is null.\<close>

lemma print_curl_info_without_ares:
  assumes "version_age v \<ge> CURLVERSION_SECOND" and "ares v = None"
  shows "print_curl_info v = Inl Null_Deref"
  using assms print_curl_info_iff(2) [of v]
  by (cases "print_curl_info v") (auto simp: print_curl_info_def print_info_def res_bind_Inr_iff split: prod.splits)

text \<open>C37: The example prints the body of the response. When libcurl initialises and was built with the features whose versions
  are printed, and tells the response code, the program prints the request and the bytes of
  the chunks, in order, up to the first zero byte, if they are fewer than \<open>2 ^ 31\<close>, and releases them, or it ends
  with an error; it never accesses memory outside the buffer. When the request succeeds and memory is
  available, it prints them.\<close>

theorem curl_main_prints_body:
  assumes "\<forall>c \<in> set (deliveries lib). c \<noteq> []" and "length (concat (deliveries lib)) < 2 ^ 31"
    and "global_init_ok lib" and "easy_init_ok lib" and "version_complete (curl_version lib)" and "getinfo_ok lib"
  defines "shown \<equiv> \<lparr>curl_stdout = request_line @ takeWhile (\<lambda>b. b \<noteq> 0) (concat (deliveries lib)), curl_body = curl_buffer_zero\<rparr>"
  shows "((\<exists>msg. curl_main h lib = Inl (Exit_Failure msg)) \<or> perform_ok lib \<and> curl_main h lib = Inr shown) \<and>
    (perform_ok lib \<longrightarrow> (\<forall>n. heap_ok h n) \<longrightarrow> curl_main h lib = Inr shown)"
proof -
  let ?cs = "deliveries lib"
  have small: "length (body_bytes curl_buffer_zero) + length (concat ?cs) < 2 ^ 59"
    using assms(2) by (simp add: body_zero)
  have ne: "\<And>c. c \<in> set ?cs \<Longrightarrow> c \<noteq> []" using assms(1) by blast
  have init: "init_curl_or_exit lib = Inr ()" using assms(3,4) by (simp add: init_curl_or_exit_def)
  obtain info where info: "print_curl_info (curl_version lib) = Inr info"
    using print_curl_info_iff(1) assms(5) by blast
  have print: "print_prefix (sint (ucast (cb_size b) :: 32 word)) (case cb_data b of None \<Rightarrow> [] | Some data \<Rightarrow> data) =
      Inr (takeWhile (\<lambda>x. x \<noteq> 0) (concat ?cs))" if "body_wf b" "body_bytes b = concat ?cs" for b
    using print_body [OF that(1)] length_body_bytes [OF that(1)] that(2) assms(2) by simp
  obtain rc b where b: "append_all_chunks (curl_deliver h) curl_buffer_zero ?cs = Inr (rc, b)"
      "rc = 0 \<longrightarrow> body_wf b \<and> body_bytes b = concat ?cs"
    using curl_body.append_chunks [OF body_zero(1) ne small, of h] by (auto simp: body_zero)
  have reliable: "rc = 0" if "\<forall>n. heap_ok h n"
  proof -
    have "code = 0" if "body_wf s" "bs \<noteq> []" "length (body_bytes s) + length bs < 2 ^ 59"
        "curl_deliver h s bs = Inr (code, s')" for s bs code s'
      using write_callback_spec [of s bs h] that length_body_bytes [of s] \<open>\<forall>n. heap_ok h n\<close>
      by (auto simp: curl_deliver_def)
    from curl_body.append_chunks_reliable [of h, OF this body_zero(1) ne small] b(1) show ?thesis by auto
  qed
  have "curl_buffer_free b = curl_buffer_zero" by (simp add: curl_buffer_free_def curl_buffer_zero_def)
  with init info b print reliable show ?thesis
    by (auto simp: curl_main_def c_exit_def c_assert_def assms(6) shown_def Let_def)
qed

definition sample_version :: curl_version_info_data where
  "sample_version = \<lparr>version_age = 0, version_texts = (Some ''8'', Some ''linux'', Some ''3'', Some ''1''), ares = None, libidn = None\<rparr>"

theorem curl_main_prints_body_witness:
  "curl_main \<lparr>heap_ok = \<lambda>_. True, fresh = \<lambda>_. 9\<rparr>
     \<lparr>curl_version = sample_version, global_init_ok = True, easy_init_ok = True, deliveries = [[1, 2], [3]], perform_ok = True, getinfo_ok = True\<rparr> =
   Inr \<lparr>curl_stdout = request_line @ [1, 2, 3], curl_body = curl_buffer_zero\<rparr>"
  using curl_main_prints_body [of "\<lparr>curl_version = sample_version, global_init_ok = True, easy_init_ok = True, deliveries = [[1, 2], [3]], perform_ok = True, getinfo_ok = True\<rparr>"
      "\<lparr>heap_ok = \<lambda>_. True, fresh = \<lambda>_. 9\<rparr>"]
  by (simp add: version_complete_def sample_version_def CURLVERSION_SECOND_def CURLVERSION_THIRD_def)

text \<open>After an allocation has failed the buffer has lost its memory; the next chunk that fits would be copied to
  a null pointer. libcurl does not call back after such a failure.\<close>

lemma write_callback_after_failure:
  assumes "bs \<noteq> []" and "unat (cb_size b) + length bs \<le> unat (cb_capacity b)" and "unat (cb_capacity b) < 2 ^ 62"
  shows "res_body_write_callback h bs 1 (word_of_nat (length bs)) (b\<lparr>cb_data := None\<rparr>) = Inl Null_Deref"
proof -
  have n: "unat (word_of_nat (length bs) :: u64) = length bs" using assms(2,3) by (simp add: unat_of_nat)
  moreover have "unat (cb_size b + word_of_nat (length bs)) = unat (cb_size b) + length bs"
    using assms(2,3) n by (simp add: unat_word_ariths)
  ultimately show ?thesis
    using assms(1,2) by (simp add: res_body_write_callback_def curl_memcpy_def word_less_nat_alt Let_def)
qed

end
