(* ===== verification/Gunzip.thy ===== *)
theory Gunzip
  imports Interfaces "HOL-Library.Sublist"
begin

text \<open>
  The zlib example (\<open>zlib/zlib-uncompress.c\<close>): a file is uncompressed chunk by chunk. \<open>gzread\<close> is
  a parameter, a function from the state of the input file and a size to the bytes it delivers (\<open>None\<close> for
  -1) and the next state. What its documentation promises is the predicate \<open>gz_reader\<close>. Its size is an \<open>unsigned\<close>, to which
  the size of the chunk, a \<open>size_t\<close>, is converted. The output stream has a buffer: how many bytes the C library keeps
  there after a write is a parameter, \<open>keep\<close>, and the device behind it has room
  for a number of bytes. The result of uncompressing says which resources are still held, so that
  the theorems show that none is.
\<close>

section \<open>Buffers and resources\<close>

record gz_buffer =
  gz_data :: "u8 list option"
  gz_size :: nat

text \<open>The contents of memory from \<open>malloc\<close> are an input, \<open>dirt\<close>.\<close>

definition buffer_alloc :: "(nat \<Rightarrow> bool) \<Rightarrow> (nat \<Rightarrow> u8) \<Rightarrow> nat \<Rightarrow> bool \<Rightarrow> gz_buffer res" where
  "buffer_alloc alloc_ok dirt n zero_values =
     (if \<not> alloc_ok n then c_exit ''error: allocation failed''
      else Inr \<lparr>gz_data = Some (if zero_values then replicate n 0 else map dirt [0..<n]), gz_size = n\<rparr>)"

definition gz_buffer_free :: "gz_buffer \<Rightarrow> gz_buffer res" where
  "gz_buffer_free b =
     res_bind (c_assert (gz_data b \<noteq> None)) (\<lambda>_.
     res_bind (c_assert (gz_size b > 0)) (\<lambda>_.
     Inr \<lparr>gz_data = None, gz_size = 0\<rparr>))"

record uncompressing_params =
  input_file_path :: string
  output_file_path :: string
  buffer_size :: nat

text \<open>A stream that is written: the bytes on the device, how many more fit there, and the bytes in the buffer of the
  stream.\<close>

record out_file =
  written :: "u8 list"
  room :: nat
  pending :: "u8 list"

text \<open>\<open>fopen\<close> for writing truncates the file; \<open>n\<close> bytes fit on the device.\<close>

definition open_stream :: "nat \<Rightarrow> out_file" where
  "open_stream n = \<lparr>written = [], room = n, pending = []\<rparr>"

text \<open>The first \<open>n\<close> bytes of the buffer are handed to the device; \<open>True\<close> if they do not all fit.\<close>

definition stream_flush :: "nat \<Rightarrow> out_file \<Rightarrow> bool \<times> out_file" where
  "stream_flush n f =
     (let k = min (room f) n in
      (k < n, f\<lparr>written := written f @ take k (pending f), room := room f - k, pending := drop k (pending f)\<rparr>))"

text \<open>\<open>fwrite\<close> puts the bytes into the buffer and hands all but the last \<open>keep\<close> of them to the device. The result is the
  number of bytes that count as written, and \<open>ferror\<close>.\<close>

definition fwrite_bytes :: "(u8 list \<Rightarrow> nat) \<Rightarrow> out_file \<Rightarrow> u8 list \<Rightarrow> nat \<times> bool \<times> out_file" where
  "fwrite_bytes keep f bs =
     (let buf = pending f @ bs;
          (failed, f') = stream_flush (length buf - keep buf) (f\<lparr>pending := buf\<rparr>) in
      (if failed then room f - length (pending f) else length bs, failed, f'))"

text \<open>\<open>fclose\<close> flushes the buffer; its result says whether this failed.\<close>

definition fclose_stream :: "out_file \<Rightarrow> bool \<times> out_file" where
  "fclose_stream f = stream_flush (length (pending f)) f"

section \<open>Uncompressing\<close>

text \<open>The conversion of a \<open>size_t\<close> to an \<open>unsigned\<close>.\<close>

definition to_unsigned :: "nat \<Rightarrow> nat" where
  "to_unsigned n = n mod 2 ^ 32"

text \<open>The loop with a bound on its iterations. \<open>None\<close>: the bound is reached; \<open>Some rc\<close>: it
  ends with an error or at the end of the file.\<close>

fun uncompress_loop ::
    "('f \<Rightarrow> nat \<Rightarrow> u8 list option \<times> 'f) \<Rightarrow> (u8 list \<Rightarrow> nat) \<Rightarrow> nat \<Rightarrow> gz_buffer \<Rightarrow> 'f \<Rightarrow> out_file \<Rightarrow>
      (int option \<times> gz_buffer \<times> out_file) res" where
  "uncompress_loop gzread keep 0 chunk input_file output_file = Inr (None, chunk, output_file)"
| "uncompress_loop gzread keep (Suc fuel) chunk input_file output_file =
     (case gzread input_file (to_unsigned (gz_size chunk)) of
        (None, input_file) \<Rightarrow> Inr (Some 1, chunk, output_file)
      | (Some bytes, input_file) \<Rightarrow>
          (case gz_data chunk of
             None \<Rightarrow> Inl Null_Deref
           | Some data \<Rightarrow>
               res_bind (arr_copy data 0 bytes) (\<lambda>data.
               let chunk = chunk\<lparr>gz_data := Some data\<rparr>; uncompressed_bytes_read = length bytes in
               if uncompressed_bytes_read = 0 then Inr (Some 0, chunk, output_file)
               else
                 (case fwrite_bytes keep output_file (take uncompressed_bytes_read data) of
                    (bytes_written, ferror, output_file) \<Rightarrow>
                      if ferror \<or> bytes_written = 0 then Inr (Some 1, chunk, output_file)
                      else uncompress_loop gzread keep fuel chunk input_file output_file))))"

text \<open>The outcome: the return code, the file written, and whether the chunk and the two files are
  still held.\<close>

record uncompressed =
  unz_code :: "int option"
  unz_output :: "out_file option"
  chunk_held :: bool
  input_open :: bool
  output_open :: bool

text \<open>Closing the output file; whether the flush failed is not looked at.\<close>

definition close_output :: "uncompressed \<Rightarrow> uncompressed" where
  "close_output r = r\<lparr>output_open := False, unz_output := map_option (\<lambda>f. snd (fclose_stream f)) (unz_output r)\<rparr>"

definition err_buffer_free :: "gz_buffer \<Rightarrow> uncompressed \<Rightarrow> uncompressed res" where
  "err_buffer_free chunk r = res_bind (gz_buffer_free chunk) (\<lambda>_. Inr (r\<lparr>chunk_held := False, unz_code := Some 1\<rparr>))"

definition err_close_input_file :: "gz_buffer \<Rightarrow> uncompressed \<Rightarrow> uncompressed res" where
  "err_close_input_file chunk r = err_buffer_free chunk (r\<lparr>input_open := False\<rparr>)"

definition err_close_output_file :: "gz_buffer \<Rightarrow> uncompressed \<Rightarrow> uncompressed res" where
  "err_close_output_file chunk r = err_close_input_file chunk (close_output r)"

definition hbmo_uncompress ::
    "('f \<Rightarrow> nat \<Rightarrow> u8 list option \<times> 'f) \<Rightarrow> (u8 list \<Rightarrow> nat) \<Rightarrow> nat \<Rightarrow> (nat \<Rightarrow> bool) \<Rightarrow> (nat \<Rightarrow> u8) \<Rightarrow>
      (string \<Rightarrow> 'f option) \<Rightarrow> (string \<Rightarrow> nat option) \<Rightarrow> uncompressing_params \<Rightarrow> uncompressed res" where
  "hbmo_uncompress gzread keep fuel alloc_ok dirt gzopen fopen params =
     (let r = \<lparr>unz_code = Some 1, unz_output = None, chunk_held = False, input_open = False, output_open = False\<rparr> in
      if buffer_size params < 2 then Inr r
      else
        res_bind (buffer_alloc alloc_ok dirt (buffer_size params) False) (\<lambda>chunk.
        let r = r\<lparr>chunk_held := True\<rparr> in
        case gzopen (input_file_path params) of
          None \<Rightarrow> err_buffer_free chunk r
        | Some input_file \<Rightarrow>
            let r = r\<lparr>input_open := True\<rparr> in
            (case map_option open_stream (fopen (output_file_path params)) of
               None \<Rightarrow> err_close_input_file chunk r
             | Some output_file \<Rightarrow>
                 res_bind (uncompress_loop gzread keep fuel chunk input_file output_file) (\<lambda>(code, chunk, output_file).
                 let r = r\<lparr>output_open := True, unz_output := Some output_file, unz_code := code\<rparr> in
                 case code of
                   None \<Rightarrow> Inr r
                 | Some rc \<Rightarrow>
                     if rc \<noteq> 0 then err_close_output_file chunk r
                     else
                       let r = (close_output r)\<lparr>input_open := False\<rparr> in
                       res_bind (gz_buffer_free chunk) (\<lambda>_. Inr (r\<lparr>chunk_held := False\<rparr>))))))"

text \<open>The versions of the header and of the library, on \<open>stderr\<close>.\<close>

definition zlib_print_version :: "string \<Rightarrow> string \<Rightarrow> string" where
  "zlib_print_version ZLIB_VERSION zlibVersion =
     ''zlib header version: '' @ ZLIB_VERSION @ ''\<newline>'' @ ''zlib    lib version: '' @ zlibVersion @ ''\<newline>''"

text \<open>The program only prints the versions and the last three characters of every argument; the pointer leaves an argument
  that is shorter.\<close>

fun print_endings :: "string list \<Rightarrow> string list res" where
  "print_endings [] = Inr []"
| "print_endings (arg # args) =
     (if length arg < 3 then Inl Out_Of_Bounds
      else res_bind (print_endings args) (\<lambda>out. Inr (drop (length arg - 1 - 2) arg # out)))"

text \<open>The code returned, what is written to \<open>stderr\<close>, and the lines on \<open>stdout\<close>. The lines behind the \<open>return\<close> are never
  reached.\<close>

definition zlib_main :: "string \<Rightarrow> string \<Rightarrow> string list \<Rightarrow> (int \<times> string \<times> string list) res" where
  "zlib_main ZLIB_VERSION zlibVersion argv =
     (let err = zlib_print_version ZLIB_VERSION zlibVersion in
      res_bind (print_endings (tl argv)) (\<lambda>out. Inr (1, err, out)))"

section \<open>Correctness\<close>

text \<open>The documented behaviour of \<open>gzread\<close>: it fails, or it delivers the next bytes of the uncompressed
  contents, at most as many as asked for, and none only at their end or when none are asked for. It fails if the size
  does not fit an \<open>int\<close>.\<close>

definition gz_reader :: "('f \<Rightarrow> nat \<Rightarrow> u8 list option \<times> 'f) \<Rightarrow> ('f \<Rightarrow> u8 list) \<Rightarrow> bool" where
  "gz_reader gzread contents \<longleftrightarrow>
     (\<forall>f n bs f'. gzread f n = (Some bs, f') \<longrightarrow>
        contents f = bs @ contents f' \<and> length bs \<le> n \<and> (bs = [] \<longrightarrow> n = 0 \<or> contents f = [])) \<and>
     (\<forall>f n. 2 ^ 31 \<le> n \<longrightarrow> fst (gzread f n) = None)"

lemma gz_readerD:
  assumes "gz_reader gzread contents" and "gzread f n = (Some bs, f')"
  shows "contents f = bs @ contents f'" "length bs \<le> n" "bs = [] \<Longrightarrow> n = 0 \<or> contents f = []"
  using assms unfolding gz_reader_def by blast+

definition never_fails :: "('f \<Rightarrow> nat \<Rightarrow> u8 list option \<times> 'f) \<Rightarrow> bool" where
  "never_fails gzread \<longleftrightarrow> (\<forall>f n. n < 2 ^ 31 \<longrightarrow> fst (gzread f n) \<noteq> None)"

definition chunk_ok :: "gz_buffer \<Rightarrow> nat \<Rightarrow> bool" where
  "chunk_ok b n \<longleftrightarrow> gz_size b = n \<and> 0 < n \<and> (\<exists>data. gz_data b = Some data \<and> length data = n)"

text \<open>What has been handed to a stream, and the size of its device.\<close>

definition streamed :: "out_file \<Rightarrow> u8 list" where
  "streamed f = written f @ pending f"

definition device_size :: "out_file \<Rightarrow> nat" where
  "device_size f = length (written f) + room f"

lemma stream_flush_spec:
  "stream_flush n f = (b, f') \<Longrightarrow> streamed f' = streamed f \<and> device_size f' = device_size f \<and> (b \<longleftrightarrow> room f < n)"
  if "n \<le> length (pending f)"
  using that by (auto simp: stream_flush_def streamed_def device_size_def Let_def min_def split: if_splits)

lemma fwrite_spec:
  assumes "fwrite_bytes keep f bs = (n, failed, f')" and "bs \<noteq> []"
  shows "streamed f' = streamed f @ bs" "device_size f' = device_size f"
    "\<not> failed \<Longrightarrow> n \<noteq> 0" "length (streamed f') \<le> device_size f \<Longrightarrow> \<not> failed"
proof -
  let ?buf = "pending f @ bs"
  obtain b g where flush: "stream_flush (length ?buf - keep ?buf) (f\<lparr>pending := ?buf\<rparr>) = (b, g)"
    by (cases "stream_flush (length ?buf - keep ?buf) (f\<lparr>pending := ?buf\<rparr>)")
  note spec = stream_flush_spec [OF _ flush]
  from assms(1) flush have eqs: "f' = g" "failed = b" "n = (if b then room f - length (pending f) else length bs)"
    by (auto simp: fwrite_bytes_def)
  with spec assms(2) show all: "streamed f' = streamed f @ bs" "device_size f' = device_size f" "\<not> failed \<Longrightarrow> n \<noteq> 0"
    by (auto simp: streamed_def device_size_def)
  show "\<not> failed" if "length (streamed f') \<le> device_size f"
    using that spec eqs(2) by (simp add: all(1)) (simp add: streamed_def device_size_def)
qed

text \<open>What is on the device once the stream is closed.\<close>

lemma fclose_written:
  "written (snd (fclose_stream f)) = take (device_size f) (streamed f)"
  by (simp add: fclose_stream_def stream_flush_def streamed_def device_size_def Let_def min_def)

lemma chunk_ok_free: "chunk_ok b n \<Longrightarrow> gz_buffer_free b = Inr \<lparr>gz_data = None, gz_size = 0\<rparr>"
  by (auto simp: chunk_ok_def gz_buffer_free_def c_assert_def)

lemma chunk_ok_alloc: "buffer_alloc alloc_ok dirt n z = Inr b \<Longrightarrow> 2 \<le> n \<Longrightarrow> chunk_ok b n"
  by (auto simp: buffer_alloc_def chunk_ok_def c_exit_def split: if_splits)

text \<open>The loop ends within as many iterations as there are bytes, and one. What it has handed to the stream is a part of
  the contents from their start; when the code is zero, all of them, unless the size it asks for is zero.\<close>

lemma uncompress_loop_spec:
  assumes "gz_reader gzread contents"
  shows "\<lbrakk>chunk_ok chunk n; length (contents f) < fuel\<rbrakk> \<Longrightarrow>
    \<exists>rc chunk' out'. uncompress_loop gzread keep fuel chunk f out = Inr (Some rc, chunk', out') \<and> chunk_ok chunk' n \<and>
      (rc = 0 \<or> rc = 1) \<and> device_size out' = device_size out \<and>
      (rc = 0 \<longrightarrow> streamed out' = streamed out @ (if to_unsigned n = 0 then [] else contents f)) \<and>
      prefix (streamed out') (streamed out @ contents f) \<and>
      (never_fails gzread \<longrightarrow> to_unsigned n < 2 ^ 31 \<longrightarrow>
         length (streamed out) + length (contents f) \<le> device_size out \<longrightarrow> rc = 0)"
proof (induction fuel arbitrary: chunk f out)
  case 0
  then show ?case by simp
next
  case (Suc fuel)
  let ?n = "to_unsigned n"
  from Suc.prems(1) obtain data where data: "gz_size chunk = n" "0 < n" "gz_data chunk = Some data" "length data = n"
    by (auto simp: chunk_ok_def)
  have le: "?n \<le> n" by (simp add: to_unsigned_def)
  obtain r f' where read: "gzread f ?n = (r, f')" by (cases "gzread f ?n")
  show ?case
  proof (cases r)
    case None
    with read have "\<not> (never_fails gzread \<and> ?n < 2 ^ 31)" unfolding never_fails_def by (metis fst_conv)
    with None read data Suc.prems(1) show ?thesis by auto
  next
    case (Some bs)
    with read gz_readerD [OF assms, of f ?n bs f']
    have bs: "contents f = bs @ contents f'" "length bs \<le> ?n" "bs = [] \<Longrightarrow> ?n = 0 \<or> contents f = []"
      by auto
    let ?data = "bs @ drop (length bs) data"
    let ?chunk = "chunk\<lparr>gz_data := Some ?data\<rparr>"
    have copy: "arr_copy data 0 bs = Inr ?data" using bs(2) le data(4) by (simp add: arr_copy_def)
    have chunk: "chunk_ok ?chunk n" using data bs(2) le by (simp add: chunk_ok_def)
    show ?thesis
    proof (cases "bs = []")
      case True
      with read data Some copy chunk bs show ?thesis by auto
    next
      case False
      obtain k failed out1 where wr: "fwrite_bytes keep out bs = (k, failed, out1)"
        by (cases "fwrite_bytes keep out bs") auto
      note fwrite = fwrite_spec [OF wr False]
      have step: "uncompress_loop gzread keep (Suc fuel) chunk f out =
          (if failed then Inr (Some 1, ?chunk, out1) else uncompress_loop gzread keep fuel ?chunk f' out1)"
        using False fwrite(3) read data Some copy wr by (cases failed) (simp_all add: Let_def)
      show ?thesis
      proof (cases failed)
        case True
        with step chunk fwrite bs(1) show ?thesis
          by (auto simp: prefix_def simp del: uncompress_loop.simps)
      next
        case ok: False
        have shorter: "length (contents f') < fuel" using False bs(1) Suc.prems(2) by (cases bs) simp_all
        have "?n \<noteq> 0" using False bs(2) by (cases bs) simp_all
        with Suc.IH [OF chunk shorter, of out1] step ok fwrite(1,2) bs(1) show ?thesis
          by (simp add: add.assoc del: uncompress_loop.simps)
      qed
    qed
  qed
qed

text \<open>C38: Uncompressing a file. For every \<open>gzread\<close> that behaves as documented, however the C library buffers the output, and
  with as many iterations as the
  file has bytes, and one, uncompressing ends without an access outside the chunk or a failed assertion,
  unless memory for the chunk is missing; in every case the chunk is freed and both files are closed, and what is in the
  output file is a part of the contents from their start. The code
  zero means that the contents were written as far as the device has room, all of them if they fit; the part that does
  not fit may be lost without an error, because the result of closing the file is not looked at. The exception is a
  chunk whose size is a multiple of \<open>2 ^ 32\<close>: the size that is passed on is then zero, and the code is zero with nothing
  written. The code is zero when the files open, reading never
  fails, the contents fit, and the size that is passed on fits an \<open>int\<close>.\<close>

theorem hbmo_uncompress_spec:
  assumes "gz_reader gzread contents" and "2 \<le> buffer_size params" and "alloc_ok (buffer_size params)"
    and "\<forall>f. gzopen (input_file_path params) = Some f \<longrightarrow> length (contents f) < fuel"
  shows "\<exists>r rc. hbmo_uncompress gzread keep fuel alloc_ok dirt gzopen fopen params = Inr r \<and> unz_code r = Some rc \<and>
    \<not> chunk_held r \<and> \<not> input_open r \<and> \<not> output_open r \<and>
    (rc = 0 \<longrightarrow> gzopen (input_file_path params) \<noteq> None \<and> fopen (output_file_path params) \<noteq> None) \<and>
    (\<forall>f space. gzopen (input_file_path params) = Some f \<longrightarrow> fopen (output_file_path params) = Some space \<longrightarrow>
       (\<exists>out. unz_output r = Some out \<and> prefix (written out) (contents f) \<and>
          (rc = 0 \<longrightarrow> written out = (if buffer_size params mod 2 ^ 32 = 0 then [] else take space (contents f)))) \<and>
       (never_fails gzread \<longrightarrow> buffer_size params mod 2 ^ 32 < 2 ^ 31 \<longrightarrow> length (contents f) \<le> space \<longrightarrow> rc = 0))"
proof -
  obtain chunk where chunk: "buffer_alloc alloc_ok dirt (buffer_size params) False = Inr chunk"
    using assms(3) by (simp add: buffer_alloc_def)
  note ok = chunk_ok_alloc [OF chunk assms(2)]
  note run = hbmo_uncompress_def err_close_output_file_def err_close_input_file_def err_buffer_free_def close_output_def
  show ?thesis
  proof (cases "gzopen (input_file_path params) = None \<or> fopen (output_file_path params) = None")
    case True
    with chunk chunk_ok_free [OF ok] assms(2) show ?thesis
      by (auto simp: run Let_def split: option.splits)
  next
    case False
    then obtain f space where files: "gzopen (input_file_path params) = Some f" "fopen (output_file_path params) = Some space"
      by auto
    have new: "streamed (open_stream space) = []" "device_size (open_stream space) = space"
      by (simp_all add: streamed_def device_size_def open_stream_def)
    obtain rc chunk' out' where loop:
        "uncompress_loop gzread keep fuel chunk f (open_stream space) = Inr (Some rc, chunk', out')"
        "chunk_ok chunk' (buffer_size params)" "device_size out' = space"
        "rc = 0 \<longrightarrow> streamed out' = (if buffer_size params mod 2 ^ 32 = 0 then [] else contents f)"
        "prefix (streamed out') (contents f)"
        "never_fails gzread \<longrightarrow> buffer_size params mod 2 ^ 32 < 2 ^ 31 \<longrightarrow> length (contents f) \<le> space \<longrightarrow> rc = 0"
      using uncompress_loop_spec [OF assms(1) ok, of f fuel keep "open_stream space"] assms(4) files new
      by (auto simp: to_unsigned_def)
    let ?out = "snd (fclose_stream out')"
    have result: "\<exists>r. hbmo_uncompress gzread keep fuel alloc_ok dirt gzopen fopen params = Inr r \<and> unz_code r = Some (if rc = 0 then 0 else 1) \<and>
        \<not> chunk_held r \<and> \<not> input_open r \<and> \<not> output_open r \<and> unz_output r = Some ?out"
      using files loop(1) chunk chunk_ok_free [OF loop(2)] assms(2) by (auto simp: run Let_def)
    have out: "written ?out = take space (streamed out')" by (simp add: fclose_written loop(3))
    then have "prefix (written ?out) (contents f)"
      using loop(5) take_is_prefix [of space "streamed out'"] prefix_order.trans by metis
    with result out loop(4,6) files show ?thesis by (auto split: if_splits)
  qed
qed

text \<open>A reader that behaves as documented: the state is what is left.\<close>

definition plain_reader :: "u8 list \<Rightarrow> nat \<Rightarrow> u8 list option \<times> u8 list" where
  "plain_reader f n = (if n < 2 ^ 31 then (Some (take n f), drop n f) else (None, f))"

lemma plain_reader_ok: "gz_reader plain_reader (\<lambda>f. f)" "never_fails plain_reader"
  by (auto simp: gz_reader_def never_fails_def plain_reader_def split: if_splits)

theorem hbmo_uncompress_spec_witness:
  "\<exists>r out. hbmo_uncompress plain_reader length 5 (\<lambda>_. True) (\<lambda>_. 0) (\<lambda>_. Some [1, 2, 3]) (\<lambda>_. Some 9)
      \<lparr>input_file_path = ''in'', output_file_path = ''out'', buffer_size = 2\<rparr> = Inr r \<and>
    unz_code r = Some 0 \<and> unz_output r = Some out \<and> written out = [1, 2, 3]"
  using hbmo_uncompress_spec [OF plain_reader_ok(1), of "\<lparr>input_file_path = ''in'', output_file_path = ''out'', buffer_size = 2\<rparr>"
      "\<lambda>_. True" "\<lambda>_. Some [1, 2, 3]" 5 length "\<lambda>_. 0" "\<lambda>_. Some 9"] plain_reader_ok(2)
  by auto

text \<open>A library that keeps everything in its buffer until the file is closed, and a full device: the code is zero, and
  the contents are lost.\<close>

lemma fclose_failure_unnoticed:
  "\<exists>r out. hbmo_uncompress plain_reader length (Suc (Suc (Suc 0))) (\<lambda>_. True) (\<lambda>_. 0) (\<lambda>_. Some [1, 2, 3]) (\<lambda>_. Some 0)
      \<lparr>input_file_path = ''in'', output_file_path = ''out'', buffer_size = 2\<rparr> = Inr r \<and>
    unz_code r = Some 0 \<and> unz_output r = Some out \<and> written out = []"
  by (simp add: hbmo_uncompress_def buffer_alloc_def upt_rec plain_reader_def to_unsigned_def arr_copy_def
      fwrite_bytes_def stream_flush_def close_output_def fclose_stream_def gz_buffer_free_def c_assert_def open_stream_def Let_def)

text \<open>A chunk of \<open>2 ^ 32\<close> bytes: the code is zero, and nothing is read.\<close>

lemma chunk_size_truncated:
  assumes "alloc_ok (2 ^ 32)"
  shows "\<exists>r out. hbmo_uncompress plain_reader keep (Suc fuel) alloc_ok dirt (\<lambda>_. Some contents) (\<lambda>_. Some space)
      \<lparr>input_file_path = ''in'', output_file_path = ''out'', buffer_size = 2 ^ 32\<rparr> = Inr r \<and>
    unz_code r = Some 0 \<and> unz_output r = Some out \<and> written out = []"
  using assms
  by (simp add: hbmo_uncompress_def buffer_alloc_def plain_reader_def to_unsigned_def arr_copy_def
      close_output_def fclose_stream_def stream_flush_def gz_buffer_free_def c_assert_def open_stream_def Let_def)

lemma zlib_main_short_argument: "zlib_main v v' [''zlib'', ''gz''] = Inl Out_Of_Bounds"
  by (simp add: zlib_main_def Let_def)

lemma zlib_main_spec:
  "list_all (\<lambda>a. 3 \<le> length a) args \<Longrightarrow> 
    zlib_main v v' (prog # args) = Inr (1, zlib_print_version v v', map (\<lambda>a. drop (length a - 3) a) args)"
  by (induction args) (auto simp: zlib_main_def res_bind_Inr_iff eval_nat_numeral Let_def)

end
