(* ===== verification/Threads.thy ===== *)
theory Threads
  imports Interfaces
begin

text \<open>
  The example with POSIX threads (\<open>pthreads-examples/simple-example\<close>): the main thread creates four
  threads and joins them. A state holds where every thread is and what has been printed; a step
  is one action of one thread, chosen by an arbitrary scheduler. A thread that cannot move, because it
  waits or does not exist, stays where it is. The interpretation \<open>threads\<close> of the locale
  \<open>transition_system\<close> gives the invariant of all interleavings.
\<close>

section \<open>The program\<close>

definition THREADS_SIZE :: nat where
  "THREADS_SIZE = 4"

definition THREADS_CTX_NAME_BUFFER_SIZE :: nat where
  "THREADS_CTX_NAME_BUFFER_SIZE = 50"

datatype main_pc = Creating nat | Joining nat | Returned

datatype worker_pc = Not_Created | Created | Sleeping | Ended

text \<open>The name of a context is \<open>None\<close> until it is initialised.\<close>

record thread_context =
  tid :: nat
  ctx_name :: "string option"

record threads_state =
  main_at :: main_pc
  workers_at :: "worker_pc list"
  contexts :: "thread_context list"
  printed :: "string list"

text \<open>\<open>Main ok\<close>: the main thread moves, and its call of \<open>pthread_create\<close> or \<open>pthread_join\<close>
  succeeds if \<open>ok\<close>.\<close>

datatype actor = Main bool | Worker nat

definition starting_line :: string where
  "starting_line = ''[info] starting threads...''"

definition finished_line :: string where
  "finished_line = ''[info] finished!''"

definition threads_start :: "threads_state \<Rightarrow> bool" where
  "threads_start s \<longleftrightarrow> main_at s = Creating 0 \<and> workers_at s = replicate THREADS_SIZE Not_Created \<and>
     length (contexts s) = THREADS_SIZE \<and> printed s = [starting_line]"

definition thread_name :: "nat \<Rightarrow> string" where
  "thread_name i = take (THREADS_CTX_NAME_BUFFER_SIZE - 1 - 1) (''Thread '' @ fmt_u i)"

text \<open>\<open>thread_context_init\<close> of \<open>thread_context.c\<close> does what \<open>main\<close> does in line, and nothing calls it; the
  name it is given is not used.\<close>

definition thread_context_init :: "thread_context \<Rightarrow> nat \<Rightarrow> string \<Rightarrow> thread_context" where
  "thread_context_init ctx i nm = ctx\<lparr>tid := i, ctx_name := Some (thread_name i)\<rparr>"

definition main_step :: "bool \<Rightarrow> threads_state \<Rightarrow> threads_state res" where
  "main_step ok s =
     (case main_at s of
        Creating i \<Rightarrow>
          if i < THREADS_SIZE then
            res_bind (arr_set (contexts s) i \<lparr>tid = i, ctx_name = Some (thread_name i)\<rparr>) (\<lambda>cs.
            if \<not> ok then c_exit ''error: thread creation failed''
            else
              res_bind (arr_set (workers_at s) i Created) (\<lambda>ws.
              Inr (s\<lparr>contexts := cs, workers_at := ws, main_at := Creating (i + 1)\<rparr>)))
          else Inr (s\<lparr>main_at := Joining 0\<rparr>)
      | Joining i \<Rightarrow>
          if i < THREADS_SIZE then
            if \<not> ok then c_exit ''error: thread joining failed''
            else
              res_bind (arr_get (workers_at s) i) (\<lambda>w.
              if w = Ended then Inr (s\<lparr>main_at := Joining (i + 1)\<rparr>) else Inr s)
          else Inr (s\<lparr>main_at := Returned, printed := printed s @ [finished_line]\<rparr>)
      | Returned \<Rightarrow> Inr s)"

text \<open>A thread prints the name in its context, which must have been initialised.\<close>

definition print_name :: "nat \<Rightarrow> string \<Rightarrow> threads_state \<Rightarrow> threads_state res" where
  "print_name i text s =
     res_bind (arr_get (contexts s) i) (\<lambda>ctx.
     case ctx_name ctx of
       None \<Rightarrow> Inl Out_Of_Bounds
     | Some name \<Rightarrow> Inr (s\<lparr>printed := printed s @ [name @ text]\<rparr>))"

definition on_thread_create :: "nat \<Rightarrow> threads_state \<Rightarrow> threads_state res" where
  "on_thread_create i s =
     (if i \<ge> length (workers_at s) then Inr s
      else case workers_at s ! i of
        Created \<Rightarrow>
          res_bind (print_name i '' has started!'' s) (\<lambda>s. Inr (s\<lparr>workers_at := (workers_at s)[i := Sleeping]\<rparr>))
      | Sleeping \<Rightarrow>
          res_bind (print_name i '' has finished!'' s) (\<lambda>s. Inr (s\<lparr>workers_at := (workers_at s)[i := Ended]\<rparr>))
      | _ \<Rightarrow> Inr s)"

text \<open>When the main function returns, the process ends.\<close>

fun threads_step :: "actor \<Rightarrow> threads_state \<Rightarrow> threads_state res" where
  "threads_step (Main ok) s = main_step ok s"
| "threads_step (Worker i) s = (if main_at s = Returned then Inr s else on_thread_create i s)"

section \<open>The lines of a thread\<close>

definition started :: "nat \<Rightarrow> string" where
  "started i = thread_name i @ '' has started!''"

definition ended :: "nat \<Rightarrow> string" where
  "ended i = thread_name i @ '' has finished!''"

lemma thread_name_eq: "i < 4 \<Longrightarrow> thread_name i = ''Thread '' @ [dec_digit i]"
  by (simp add: thread_name_def THREADS_CTX_NAME_BUFFER_SIZE_def fmt_u.simps)

lemma dec_digit_inj: "i < 4 \<Longrightarrow> j < 4 \<Longrightarrow> dec_digit i = dec_digit j \<longleftrightarrow> i = j"
proof -
  assume "i < 4" "j < 4"
  then have "of_char (dec_digit i) = 48 + i" "of_char (dec_digit j) = 48 + j" by (simp_all add: of_char_dec_digit)
  then show "dec_digit i = dec_digit j \<longleftrightarrow> i = j" by (metis add_left_cancel)
qed

lemma lines_inj:
  assumes "i < 4" and "j < 4"
  shows "started i = started j \<longleftrightarrow> i = j" "ended i = ended j \<longleftrightarrow> i = j" "started i \<noteq> ended j" "ended i \<noteq> started j"
  using assms by (simp_all add: started_def ended_def thread_name_eq dec_digit_inj)

definition line_of :: "nat \<Rightarrow> string \<Rightarrow> bool" where
  "line_of i l \<longleftrightarrow> l = started i \<or> l = ended i"

lemma line_of_simps:
  assumes "i < 4" and "j < 4"
  shows "line_of i (started j) \<longleftrightarrow> i = j" "line_of i (ended j) \<longleftrightarrow> i = j"
  using assms lines_inj [of i j] lines_inj [of j i] by (auto simp: line_of_def)

fun history :: "nat \<Rightarrow> worker_pc \<Rightarrow> string list" where
  "history i Not_Created = []"
| "history i Created = []"
| "history i Sleeping = [started i]"
| "history i Ended = [started i, ended i]"

section \<open>The invariant\<close>

definition main_inv :: "threads_state \<Rightarrow> bool" where
  "main_inv s \<longleftrightarrow> (case main_at s of
     Creating k \<Rightarrow> k \<le> 4 \<and> (\<forall>j < 4. workers_at s ! j = Not_Created \<longleftrightarrow> k \<le> j)
   | Joining k \<Rightarrow> k \<le> 4 \<and> (\<forall>j < 4. workers_at s ! j \<noteq> Not_Created) \<and> (\<forall>j < k. workers_at s ! j = Ended)
   | Returned \<Rightarrow> \<forall>j < 4. workers_at s ! j = Ended)"

definition output_inv :: "worker_pc list \<Rightarrow> string list \<Rightarrow> bool" where
  "output_inv ws xs \<longleftrightarrow> (\<forall>j < 4. filter (line_of j) xs = history j (ws ! j)) \<and>
     length xs = sum_list (map (\<lambda>w. length (history 0 w)) ws)"

definition threads_inv :: "threads_state \<Rightarrow> bool" where
  "threads_inv s \<longleftrightarrow> length (workers_at s) = 4 \<and> length (contexts s) = 4 \<and> main_inv s \<and>
     (\<forall>j < 4. workers_at s ! j \<noteq> Not_Created \<longrightarrow> ctx_name (contexts s ! j) = Some (thread_name j)) \<and>
     (\<exists>xs. printed s = starting_line # xs @ (if main_at s = Returned then [finished_line] else []) \<and>
        output_inv (workers_at s) xs)"

lemma threads_inv_start: "threads_start s \<Longrightarrow> threads_inv s"
  by (auto simp: threads_start_def threads_inv_def main_inv_def output_inv_def THREADS_SIZE_def sum_list_replicate)

text \<open>A thread that is created has printed nothing; one that moves on prints its next line.\<close>

lemma output_inv_created:
  "output_inv ws xs \<Longrightarrow> i < length ws \<Longrightarrow> ws ! i = Not_Created \<Longrightarrow> output_inv (ws[i := Created]) xs"
  by (auto simp: output_inv_def nth_list_update map_update sum_list_update)

lemma output_inv_print:
  assumes "output_inv ws xs" and "length ws = 4" and "i < 4"
    and "ws ! i = Created \<and> l = started i \<and> w = Sleeping \<or> ws ! i = Sleeping \<and> l = ended i \<and> w = Ended"
  shows "output_inv (ws[i := w]) (xs @ [l])"
proof -
  have "filter (line_of j) (xs @ [l]) = history j (ws[i := w] ! j)" if "j < 4" for j
    using assms that line_of_simps [OF that assms(3)] by (cases "i = j") (auto simp: output_inv_def)
  moreover have "length (xs @ [l]) = sum_list (map (\<lambda>w. length (history 0 w)) (ws[i := w]))"
    using assms by (auto simp: output_inv_def map_update sum_list_update)
  ultimately show ?thesis by (simp add: output_inv_def)
qed

lemma main_step_inv:
  assumes "threads_inv s" and "main_step ok s = Inr t"
  shows "threads_inv t"
proof (cases "main_at s")
  case (Creating k)
  show ?thesis
  proof (cases "k < 4")
    case True
    with assms Creating have t: "t = s\<lparr>contexts := (contexts s)[k := \<lparr>tid = k, ctx_name = Some (thread_name k)\<rparr>],
        workers_at := (workers_at s)[k := Created], main_at := Creating (k + 1)\<rparr>"
      by (auto simp: main_step_def threads_inv_def arr_set_def THREADS_SIZE_def c_exit_def split: if_splits)
    with True assms(1) Creating output_inv_created [of "workers_at s" _ k] show ?thesis
      by (auto simp: threads_inv_def main_inv_def nth_list_update)
  next
    case False
    with assms Creating show ?thesis
      by (auto simp: main_step_def threads_inv_def main_inv_def THREADS_SIZE_def)
  qed
next
  case (Joining k)
  with assms show ?thesis
    by (auto simp: main_step_def threads_inv_def main_inv_def arr_get_def THREADS_SIZE_def c_exit_def less_Suc_eq split: if_splits)
next
  case Returned
  with assms show ?thesis by (simp add: main_step_def)
qed

lemma print_name_inv:
  assumes "threads_inv s" and "i < 4" and "workers_at s ! i \<noteq> Not_Created"
  shows "print_name i text s = Inr (s\<lparr>printed := printed s @ [thread_name i @ text]\<rparr>)"
  using assms by (simp add: print_name_def threads_inv_def arr_get_def)

lemma worker_moves:
  assumes "threads_inv s" and "main_at s \<noteq> Returned" and "i < 4" and "workers_at s ! i = Created \<or> workers_at s ! i = Sleeping"
  obtains l w where "threads_step (Worker i) s = Inr (s\<lparr>printed := printed s @ [l], workers_at := (workers_at s)[i := w]\<rparr>)"
    and "workers_at s ! i = Created \<and> l = started i \<and> w = Sleeping \<or> workers_at s ! i = Sleeping \<and> l = ended i \<and> w = Ended"
proof -
  have "length (workers_at s) = 4" using assms(1) by (simp add: threads_inv_def)
  with assms print_name_inv [OF assms(1,3)] show thesis
    by (intro that [where l = "if workers_at s ! i = Created then started i else ended i"
          and w = "if workers_at s ! i = Created then Sleeping else Ended"])
      (auto simp: on_thread_create_def started_def ended_def)
qed

lemma worker_stays:
  assumes "threads_inv s" and "\<not> (main_at s \<noteq> Returned \<and> i < 4 \<and> (workers_at s ! i = Created \<or> workers_at s ! i = Sleeping))"
  shows "threads_step (Worker i) s = Inr s"
  using assms by (auto simp: threads_inv_def on_thread_create_def split: worker_pc.splits)

lemma main_inv_worker:
  assumes "threads_inv s" and "main_at s \<noteq> Returned" and "i < 4" and "workers_at s ! i = Created \<or> workers_at s ! i = Sleeping"
    and "w = Sleeping \<or> w = Ended"
  shows "main_inv (s\<lparr>printed := out, workers_at := (workers_at s)[i := w]\<rparr>)"
  using assms
  by (cases "main_at s") (auto simp: threads_inv_def main_inv_def nth_list_update)

lemma worker_step_inv:
  assumes "threads_inv s" and "threads_step (Worker i) s = Inr t"
  shows "threads_inv t"
proof (cases "main_at s \<noteq> Returned \<and> i < 4 \<and> (workers_at s ! i = Created \<or> workers_at s ! i = Sleeping)")
  case True
  then obtain l w where step: "t = s\<lparr>printed := printed s @ [l], workers_at := (workers_at s)[i := w]\<rparr>"
      "workers_at s ! i = Created \<and> l = started i \<and> w = Sleeping \<or> workers_at s ! i = Sleeping \<and> l = ended i \<and> w = Ended"
    using worker_moves [OF assms(1)] assms(2) by (metis sum.inject(2))
  have inv: "length (workers_at s) = 4" "length (contexts s) = 4"
      "\<forall>j < 4. workers_at s ! j \<noteq> Not_Created \<longrightarrow> ctx_name (contexts s ! j) = Some (thread_name j)"
    using assms(1) by (simp_all add: threads_inv_def)
  obtain xs where xs: "printed s = starting_line # xs" "output_inv (workers_at s) xs"
    using assms(1) True by (auto simp: threads_inv_def)
  then have "printed t = starting_line # (xs @ [l])" "output_inv (workers_at t) (xs @ [l])"
    using step True inv(1) output_inv_print [of "workers_at s" xs i l w] by auto
  moreover have "main_inv t"
    using main_inv_worker [OF assms(1), of i w] True step by auto
  moreover have "\<forall>j < 4. workers_at t ! j \<noteq> Not_Created \<longrightarrow> ctx_name (contexts t ! j) = Some (thread_name j)"
    using inv step True by (auto simp: nth_list_update)
  ultimately show ?thesis
    using inv step(1) True by (simp add: threads_inv_def)
next
  case False
  with worker_stays assms show ?thesis by auto
qed

interpretation threads: transition_system threads_start threads_step threads_inv
proof
  show "threads_start s \<Longrightarrow> threads_inv s" for s by (rule threads_inv_start)
  show "threads_inv s \<Longrightarrow> threads_step a s = Inr t \<Longrightarrow> threads_inv t" for s a t
    by (cases a) (auto intro: main_step_inv worker_step_inv simp del: threads_step.simps(2))
qed

section \<open>Every interleaving ends\<close>

text \<open>The number of steps that are left at most.\<close>

fun main_left :: "main_pc \<Rightarrow> nat" where
  "main_left (Creating k) = 10 - k"
| "main_left (Joining k) = 5 - k"
| "main_left Returned = 0"

fun worker_left :: "worker_pc \<Rightarrow> nat" where
  "worker_left Not_Created = 3"
| "worker_left Created = 2"
| "worker_left Sleeping = 1"
| "worker_left Ended = 0"

definition steps_left :: "threads_state \<Rightarrow> nat" where
  "steps_left s = main_left (main_at s) + sum_list (map worker_left (workers_at s))"

lemma workers_left_update:
  assumes "i < length ws" and "worker_left w < worker_left (ws ! i)"
  shows "sum_list (map worker_left (ws[i := w])) < sum_list (map worker_left ws)"
proof -
  have "worker_left (ws ! i) \<le> sum_list (map worker_left ws)"
    using elem_le_sum_list [of i "map worker_left ws"] assms(1) by simp
  with assms show ?thesis by (simp add: map_update sum_list_update)
qed

text \<open>The main thread can move unless it waits for a thread that has not ended, or has returned.\<close>

definition main_waits :: "threads_state \<Rightarrow> bool" where
  "main_waits s \<longleftrightarrow> (case main_at s of
     Creating k \<Rightarrow> False | Joining k \<Rightarrow> k < 4 \<and> workers_at s ! k \<noteq> Ended | Returned \<Rightarrow> True)"

lemma main_step_left:
  assumes "threads_inv s"
  shows "case main_step ok s of
      Inl e \<Rightarrow> \<not> ok \<and> (\<exists>msg. e = Exit_Failure msg)
    | Inr t \<Rightarrow> if main_waits s then t = s else steps_left t < steps_left s"
proof (cases "main_at s")
  case (Creating k)
  with assms have k: "k \<le> 4" "length (workers_at s) = 4" "length (contexts s) = 4" "k < 4 \<Longrightarrow> workers_at s ! k = Not_Created"
    by (auto simp: threads_inv_def main_inv_def)
  with Creating workers_left_update [of k "workers_at s" Created] show ?thesis
    by (auto simp: main_step_def main_waits_def steps_left_def arr_set_def THREADS_SIZE_def c_exit_def)
next
  case (Joining k)
  with assms show ?thesis
    by (auto simp: threads_inv_def main_inv_def main_step_def main_waits_def steps_left_def arr_get_def THREADS_SIZE_def c_exit_def)
next
  case Returned
  then show ?thesis by (simp add: main_step_def main_waits_def)
qed

lemma worker_step_left:
  assumes "threads_inv s"
  shows "\<exists>t. threads_step (Worker i) s = Inr t \<and>
    (if main_at s \<noteq> Returned \<and> i < 4 \<and> (workers_at s ! i = Created \<or> workers_at s ! i = Sleeping)
     then steps_left t < steps_left s else t = s)"
proof (cases "main_at s \<noteq> Returned \<and> i < 4 \<and> (workers_at s ! i = Created \<or> workers_at s ! i = Sleeping)")
  case True
  then obtain l w where step: "threads_step (Worker i) s = Inr (s\<lparr>printed := printed s @ [l], workers_at := (workers_at s)[i := w]\<rparr>)"
      "workers_at s ! i = Created \<and> l = started i \<and> w = Sleeping \<or> workers_at s ! i = Sleeping \<and> l = ended i \<and> w = Ended"
    using worker_moves [OF assms] by blast
  have "length (workers_at s) = 4" using assms by (simp add: threads_inv_def)
  with True step workers_left_update [of i "workers_at s" w] show ?thesis
    by (auto simp: steps_left_def simp del: threads_step.simps)
next
  case False
  with worker_stays [OF assms] show ?thesis by auto
qed

text \<open>C36: Every interleaving of the threads ends, with all lines in order. In every state that any scheduler can
  reach, a step fails only with the exit after a failed call of \<open>pthread_create\<close> or \<open>pthread_join\<close>; a step
  that changes the state brings the end nearer; and unless the main function has returned, some thread can
  make such a step, so that there is no deadlock. When the main function has returned, the first and the last line are its own, and between
  them are the eight lines of the threads, the start of each before its end.\<close>

theorem threads_end_in_order:
  assumes "reach threads_start threads_step s"
  shows "(\<forall>a e. threads_step a s = Inl e \<longrightarrow> a = Main False \<and> (\<exists>msg. e = Exit_Failure msg)) \<and>
    (\<forall>a t. threads_step a s = Inr t \<longrightarrow> t = s \<or> steps_left t < steps_left s) \<and>
    (main_at s \<noteq> Returned \<longrightarrow> (\<exists>a t. threads_step a s = Inr t \<and> steps_left t < steps_left s)) \<and>
    (main_at s = Returned \<longrightarrow> (\<exists>xs. printed s = starting_line # xs @ [finished_line] \<and> length xs = 8 \<and>
       (\<forall>i < THREADS_SIZE. filter (line_of i) xs = [started i, ended i])))"
proof -
  have inv: "threads_inv s" using threads.reach_inv [OF assms] .
  note main = main_step_left [OF inv] and worker = worker_step_left [OF inv]
  have fails: "a = Main False \<and> (\<exists>msg. e = Exit_Failure msg)" if "threads_step a s = Inl e" for a e
  proof (cases a)
    case (Main ok)
    with main [of ok] that show ?thesis by simp
  next
    case (Worker i)
    with worker [of i] that show ?thesis by auto
  qed
  have left: "t = s \<or> steps_left t < steps_left s" if "threads_step a s = Inr t" for a t
  proof (cases a)
    case (Main ok)
    with main [of ok] that show ?thesis by (simp split: if_splits)
  next
    case (Worker i)
    with worker [of i] that show ?thesis by (auto split: if_splits simp del: threads_step.simps)
  qed
  have progress: "\<exists>a t. threads_step a s = Inr t \<and> steps_left t < steps_left s" if "main_at s \<noteq> Returned"
  proof (cases "main_waits s")
    case False
    with main [of True] obtain t where "main_step True s = Inr t" "steps_left t < steps_left s"
      by (auto split: sum.splits)
    then show ?thesis by (intro exI [of _ "Main True"] exI [of _ t]) simp
  next
    case True
    with that inv obtain k where "k < 4" "workers_at s ! k = Created \<or> workers_at s ! k = Sleeping"
      by (auto simp: main_waits_def threads_inv_def main_inv_def split: main_pc.splits)
        (metis worker_pc.exhaust)
    with worker [of k] that show ?thesis by (auto simp del: threads_step.simps)
  qed
  have lines: "\<exists>xs. printed s = starting_line # xs @ [finished_line] \<and> length xs = 8 \<and>
      (\<forall>i < THREADS_SIZE. filter (line_of i) xs = [started i, ended i])" if "main_at s = Returned"
  proof -
    have ended: "\<forall>j < 4. workers_at s ! j = Ended" "length (workers_at s) = 4"
      using inv that by (simp_all add: threads_inv_def main_inv_def)
    then have "workers_at s = replicate 4 Ended" by (simp add: list_eq_iff_nth_eq)
    with inv that ended show ?thesis
      by (auto simp: threads_inv_def output_inv_def THREADS_SIZE_def sum_list_replicate)
  qed
  from fails left progress lines show ?thesis by blast
qed

theorem threads_end_in_order_witness:
  "\<exists>a t. threads_step a \<lparr>main_at = Creating 0, workers_at = replicate 4 Not_Created,
      contexts = replicate 4 \<lparr>tid = 0, ctx_name = None\<rparr>, printed = [starting_line]\<rparr> = Inr t \<and>
    steps_left t < 22"
proof -
  let ?s = "\<lparr>main_at = Creating 0, workers_at = replicate 4 Not_Created,
      contexts = replicate 4 \<lparr>tid = 0, ctx_name = None\<rparr>, printed = [starting_line]\<rparr>"
  have "reach threads_start threads_step ?s"
    by (intro reach_start) (simp add: threads_start_def THREADS_SIZE_def)
  from threads_end_in_order [OF this] have "\<exists>a t. threads_step a ?s = Inr t \<and> steps_left t < steps_left ?s" by simp
  moreover have "steps_left ?s = 22" by (simp add: steps_left_def sum_list_replicate)
  ultimately show ?thesis by simp
qed

text \<open>The contexts that \<open>main\<close> fills in are those of \<open>thread_context_init\<close>, whatever the name.\<close>

lemma main_step_initialises:
  assumes "main_at s = Creating i" and "i < THREADS_SIZE" and "length (contexts s) = THREADS_SIZE"
    and "main_step True s = Inr s'"
  shows "contexts s' ! i = thread_context_init (contexts s ! i) i nm"
  using assms by (auto simp: main_step_def thread_context_init_def res_bind_Inr_iff)

end
