(* ===== verification/GObjects.thy ===== *)
theory GObjects
  imports Prelude
begin

text \<open>
  The two examples for GObject: a person with two properties (\<open>gobject-sandbox/app-person.c\<close> and its
  \<open>main.c\<close>) and a configuration object (\<open>hello-gobject/src\<close>). The library is an input: its values, its copies of strings, and the functions that
  set and get a property are the operations of the record \<open>gobject_lib\<close>, and \<open>gobject_laws\<close> collects what its
  documentation says of them. The copies of names live in an explicit heap, so that a double free and a leak are
  visible. The messages of \<open>g_debug\<close> are left out; they are off unless an environment variable turns them on.
\<close>

section \<open>What GObject provides\<close>

datatype gtype = G_TYPE_STRING | G_TYPE_INT

text \<open>\<open>g_param_spec_string\<close> (name, nick, blurb, default) and \<open>g_param_spec_int\<close> (also minimum
  and maximum); both properties of the source are \<open>G_PARAM_READWRITE\<close>.\<close>

datatype pspec =
    Spec_String (pspec_name: string) string string "string option"
  | Spec_Int (pspec_name: string) string string u32 u32 u32

fun pspec_type :: "pspec \<Rightarrow> gtype" where
  "pspec_type (Spec_String _ _ _ _) = G_TYPE_STRING"
| "pspec_type (Spec_Int _ _ _ _ _ _) = G_TYPE_INT"

text \<open>What the library prints as a warning instead of doing something.\<close>

datatype g_warning =
    Invalid_Property_Id u32
  | No_Property string
  | Unable_To_Set string

text \<open>The strings that are allocated.\<close>

record string_heap =
  strings :: "nat \<rightharpoonup> string"

definition heap_empty :: string_heap where
  "heap_empty = \<lparr>strings = Map.empty\<rparr>"

text \<open>To read what is not allocated is undefined.\<close>

fun read_string :: "string_heap \<Rightarrow> nat option \<Rightarrow> string option res" where
  "read_string h None = Inr None"
| "read_string h (Some a) = (case strings h a of None \<Rightarrow> Inl Out_Of_Bounds | Some s \<Rightarrow> Inr (Some s))"

text \<open>The instances of the class of the example, and the class: its two functions and the properties it installs. The
  position of a specification among them is the identifier of its property.\<close>

record app_person =
  name :: "nat option"
  age :: u32

record 'v object_class =
  get_property :: "string_heap \<Rightarrow> app_person \<Rightarrow> u32 \<Rightarrow> 'v \<Rightarrow> ('v \<times> g_warning list) res"
  set_property :: "string_heap \<Rightarrow> app_person \<Rightarrow> u32 \<Rightarrow> 'v \<Rightarrow> (app_person \<times> string_heap \<times> g_warning list) res"
  installed :: "pspec option list"

text \<open>The operations of the library: values, strings, and properties. \<open>g_object_set_int\<close> is \<open>g_object_set\<close> with one property
  and an integer.\<close>

record 'v gobject_lib =
  gv_type :: "'v \<Rightarrow> gtype"
  gv_init :: "gtype \<Rightarrow> 'v"
  gv_set_string :: "'v \<Rightarrow> string option \<Rightarrow> 'v"
  gv_set_static_string :: "'v \<Rightarrow> string option \<Rightarrow> 'v"
  gv_get_string :: "'v \<Rightarrow> string option"
  gv_set_int :: "'v \<Rightarrow> u32 \<Rightarrow> 'v"
  gv_get_int :: "'v \<Rightarrow> u32"
  g_strdup :: "string_heap \<Rightarrow> string option \<Rightarrow> nat option \<times> string_heap"
  g_free :: "string_heap \<Rightarrow> nat option \<Rightarrow> string_heap res"
  g_object_set_property :: "'v object_class \<Rightarrow> string_heap \<Rightarrow> app_person \<Rightarrow> string \<Rightarrow> 'v \<Rightarrow>
    (app_person \<times> string_heap \<times> g_warning list) res"
  g_object_get_property :: "'v object_class \<Rightarrow> string_heap \<Rightarrow> app_person \<Rightarrow> string \<Rightarrow> ('v option \<times> g_warning list) res"
  g_object_set_int :: "'v object_class \<Rightarrow> string_heap \<Rightarrow> app_person \<Rightarrow> string \<Rightarrow> u32 \<Rightarrow>
    (app_person \<times> string_heap \<times> g_warning list) res"

text \<open>A value fits a specification when it has its type and lies between its bounds.\<close>

fun value_fits :: "'v gobject_lib \<Rightarrow> pspec \<Rightarrow> 'v \<Rightarrow> bool" where
  "value_fits lib (Spec_String _ _ _ _) v \<longleftrightarrow> gv_type lib v = G_TYPE_STRING"
| "value_fits lib (Spec_Int _ _ _ lo hi _) v \<longleftrightarrow>
     gv_type lib v = G_TYPE_INT \<and> sint lo \<le> sint (gv_get_int lib v) \<and> sint (gv_get_int lib v) \<le> sint hi"

subsection \<open>What its documentation says\<close>

definition value_laws :: "'v gobject_lib \<Rightarrow> bool" where
  "value_laws lib \<longleftrightarrow>
     (\<forall>t. gv_type lib (gv_init lib t) = t) \<and>
     (\<forall>v s. gv_type lib v = G_TYPE_STRING \<longrightarrow>
        gv_type lib (gv_set_string lib v s) = G_TYPE_STRING \<and> gv_get_string lib (gv_set_string lib v s) = s \<and>
        gv_type lib (gv_set_static_string lib v s) = G_TYPE_STRING \<and> gv_get_string lib (gv_set_static_string lib v s) = s) \<and>
     (\<forall>v n. gv_type lib v = G_TYPE_INT \<longrightarrow>
        gv_type lib (gv_set_int lib v n) = G_TYPE_INT \<and> gv_get_int lib (gv_set_int lib v n) = n)"

text \<open>\<open>g_strdup\<close> of a null pointer is a null pointer; of a string it is a fresh copy (it ends the program when there is no memory).
  \<open>g_free\<close> ignores a null pointer; to free what is not allocated is undefined.\<close>

definition string_laws :: "'v gobject_lib \<Rightarrow> bool" where
  "string_laws lib \<longleftrightarrow>
     (\<forall>h. g_strdup lib h None = (None, h)) \<and>
     (\<forall>h s. finite (dom (strings h)) \<longrightarrow>
        (\<exists>a. strings h a = None \<and> g_strdup lib h (Some s) = (Some a, h\<lparr>strings := (strings h)(a \<mapsto> s)\<rparr>))) \<and>
     (\<forall>h. g_free lib h None = Inr h) \<and>
     (\<forall>h a. g_free lib h (Some a) =
        (if strings h a = None then Inl Out_Of_Bounds else Inr (h\<lparr>strings := (strings h)(a := None)\<rparr>)))"

text \<open>The first specification with a name, and its place.\<close>

definition installed_at :: "pspec option list \<Rightarrow> nat \<Rightarrow> pspec \<Rightarrow> bool" where
  "installed_at specs i sp \<longleftrightarrow>
     i < length specs \<and> specs ! i = Some sp \<and>
     (\<forall>j < i. map_option pspec_name (specs ! j) \<noteq> Some (pspec_name sp))"

text \<open>A property that is not installed is a warning. Of one that is, the setter of the class gets a value that fits, the
  value given if that fits; or there is a warning. The getter is given an empty value of the type. An integer is
  collected into a value.\<close>

definition class_laws :: "'v gobject_lib \<Rightarrow> bool" where
  "class_laws lib \<longleftrightarrow>
     (\<forall>cls h p n v. (\<forall>sp. Some sp \<in> set (installed cls) \<longrightarrow> pspec_name sp \<noteq> n) \<longrightarrow>
        g_object_set_property lib cls h p n v = Inr (p, h, [No_Property n])) \<and>
     (\<forall>cls i sp h p v. installed_at (installed cls) i sp \<longrightarrow>
        g_object_set_property lib cls h p (pspec_name sp) v = Inr (p, h, [Unable_To_Set (pspec_name sp)]) \<or>
        (\<exists>w. value_fits lib sp w \<and>
           g_object_set_property lib cls h p (pspec_name sp) v = set_property cls h p (word_of_nat i) w)) \<and>
     (\<forall>cls i sp h p v. installed_at (installed cls) i sp \<longrightarrow> value_fits lib sp v \<longrightarrow>
        g_object_set_property lib cls h p (pspec_name sp) v = set_property cls h p (word_of_nat i) v) \<and>
     (\<forall>cls i sp h p. installed_at (installed cls) i sp \<longrightarrow>
        g_object_get_property lib cls h p (pspec_name sp) =
          res_bind (get_property cls h p (word_of_nat i) (gv_init lib (pspec_type sp))) (\<lambda>(v, w). Inr (Some v, w))) \<and>
     (\<forall>cls i sp h p n. installed_at (installed cls) i sp \<longrightarrow> pspec_type sp = G_TYPE_INT \<longrightarrow>
        g_object_set_int lib cls h p (pspec_name sp) n =
          g_object_set_property lib cls h p (pspec_name sp) (gv_set_int lib (gv_init lib G_TYPE_INT) n))"

definition gobject_laws :: "'v gobject_lib \<Rightarrow> bool" where
  "gobject_laws lib \<longleftrightarrow> value_laws lib \<and> string_laws lib \<and> class_laws lib"

section \<open>The person\<close>

definition APP_PERSON_PROP_NAME :: u32 where "APP_PERSON_PROP_NAME = 1"
definition APP_PERSON_PROP_AGE :: u32 where "APP_PERSON_PROP_AGE = 2"

definition app_person_get_property ::
    "'v gobject_lib \<Rightarrow> string_heap \<Rightarrow> app_person \<Rightarrow> u32 \<Rightarrow> 'v \<Rightarrow> ('v \<times> g_warning list) res" where
  "app_person_get_property lib h self property_id v =
     (if property_id = APP_PERSON_PROP_NAME then
        res_bind (read_string h (name self)) (\<lambda>s. Inr (gv_set_string lib v s, []))
      else if property_id = APP_PERSON_PROP_AGE then Inr (gv_set_int lib v (age self), [])
      else Inr (v, [Invalid_Property_Id property_id]))"

definition app_person_set_property ::
    "'v gobject_lib \<Rightarrow> string_heap \<Rightarrow> app_person \<Rightarrow> u32 \<Rightarrow> 'v \<Rightarrow>
     (app_person \<times> string_heap \<times> g_warning list) res" where
  "app_person_set_property lib h self property_id v =
     (if property_id = APP_PERSON_PROP_NAME then
        res_bind (g_free lib h (name self)) (\<lambda>h.
        let (a, h) = g_strdup lib h (gv_get_string lib v) in
        Inr (self\<lparr>name := a\<rparr>, h, []))
      else if property_id = APP_PERSON_PROP_AGE then Inr (self\<lparr>age := gv_get_int lib v\<rparr>, h, [])
      else Inr (self, h, [Invalid_Property_Id property_id]))"

definition app_person_param_specs :: "pspec option list" where
  "app_person_param_specs =
     [None,
      Some (Spec_String ''name'' ''Name'' ''The name of the person.'' None),
      Some (Spec_Int ''age'' ''Age'' ''The age of the person.'' 0 125 0)]"

definition app_person_class_init :: "'v gobject_lib \<Rightarrow> 'v object_class" where
  "app_person_class_init lib =
     \<lparr>get_property = app_person_get_property lib, set_property = app_person_set_property lib,
      installed = app_person_param_specs\<rparr>"

definition app_person_init :: "app_person \<Rightarrow> app_person" where
  "app_person_init self = self"

text \<open>\<open>g_object_new\<close> fills the instance with zero bytes before it calls the initialiser.\<close>

definition app_person_new :: app_person where
  "app_person_new = app_person_init \<lparr>name = None, age = 0\<rparr>"

definition app_person_println :: "string_heap \<Rightarrow> app_person \<Rightarrow> string res" where
  "app_person_println h self =
     res_bind (read_string h (name self)) (\<lambda>s.
     case s of
       None \<Rightarrow> Inl Null_Deref
     | Some s \<Rightarrow> Inr (''AppPerson{ .name = '' @ s @ '', .age = '' @ fmt_d (sint (age self)) @ '' }\<newline>''))"

subsection \<open>The program\<close>

text \<open>The argument is not used: the literal is in the body.\<close>

definition create_gvalue_static_string :: "'v gobject_lib \<Rightarrow> string \<Rightarrow> 'v" where
  "create_gvalue_static_string lib s = gv_set_static_string lib (gv_init lib G_TYPE_STRING) (Some ''Hugo'')"

text \<open>What is printed, and the heap after the person has been released at the end of the block: it
  has no finaliser of its own, so the copy of its name stays.\<close>

definition person_main :: "'v gobject_lib \<Rightarrow> (string \<times> string_heap) res" where
  "person_main lib =
     (let person = app_person_new;
          v = create_gvalue_static_string lib ''Hugo'' in
      res_bind (g_object_set_property lib (app_person_class_init lib) heap_empty person ''name'' v) (\<lambda>(person, h, _).
      res_bind (g_object_set_int lib (app_person_class_init lib) h person ''age'' 37) (\<lambda>(person, h, _).
      res_bind (app_person_println h person) (\<lambda>out.
      Inr (out, h)))))"

section \<open>The configuration object\<close>

text \<open>A pointer that may be null or point to an instance; \<open>APP_IS_CONFIGURATION\<close> holds of
  instances only. The private data has one field.\<close>

record app_configuration =
  config_prefix :: "string option"

type_synonym config_ptr = "app_configuration option"

definition APP_IS_CONFIGURATION :: "config_ptr \<Rightarrow> bool" where
  "APP_IS_CONFIGURATION self \<longleftrightarrow> self \<noteq> None"

definition app_configuration_init :: "config_ptr \<Rightarrow> config_ptr res" where
  "app_configuration_init self =
     res_bind (c_assert (APP_IS_CONFIGURATION self)) (\<lambda>_.
     Inr (map_option (config_prefix_update (\<lambda>_. None)) self))"

text \<open>\<open>g_object_new\<close> never returns a null pointer.\<close>

definition app_configuration_new :: "string option \<Rightarrow> config_ptr res" where
  "app_configuration_new p =
     res_bind (app_configuration_init (Some \<lparr>config_prefix = None\<rparr>)) (\<lambda>obj.
     res_bind (c_assert (obj \<noteq> None)) (\<lambda>_.
     Inr (map_option (config_prefix_update (\<lambda>_. p)) obj)))"

definition app_configuration_dispose :: "config_ptr \<Rightarrow> unit res" where
  "app_configuration_dispose gobject = c_assert (APP_IS_CONFIGURATION gobject)"

definition app_configuration_finalize :: "config_ptr \<Rightarrow> unit res" where
  "app_configuration_finalize gobject = c_assert (APP_IS_CONFIGURATION gobject)"

record config_class =
  dispose :: "config_ptr \<Rightarrow> unit res"
  finalize :: "config_ptr \<Rightarrow> unit res"

definition app_configuration_class_init :: config_class where
  "app_configuration_class_init = \<lparr>dispose = app_configuration_dispose, finalize = app_configuration_finalize\<rparr>"

definition app_configuration_prefix_get :: "config_ptr \<Rightarrow> string option res" where
  "app_configuration_prefix_get self =
     res_bind (c_assert (APP_IS_CONFIGURATION self)) (\<lambda>_.
     case self of None \<Rightarrow> Inl Null_Deref | Some c \<Rightarrow> Inr (config_prefix c))"

text \<open>The end of the block drops the last reference, which disposes of the object and finalises it.\<close>

definition config_main :: "string res" where
  "config_main =
     res_bind (app_configuration_new (Some ''APP_'')) (\<lambda>config.
     res_bind (app_configuration_prefix_get config) (\<lambda>p.
     case p of
       None \<Rightarrow> Inl Null_Deref
     | Some s \<Rightarrow>
         res_bind (dispose app_configuration_class_init config) (\<lambda>_.
         res_bind (finalize app_configuration_class_init config) (\<lambda>_.
         Inr (''It Works! prefix='' @ [CHR 0x22] @ s @ [CHR 0x22] @ ''\<newline>'')))))"


section \<open>Typed state\<close>

text \<open>The heap holds exactly the name of the person, and the age is one its specification allows.\<close>

definition person_wf :: "string_heap \<Rightarrow> app_person \<Rightarrow> bool" where
  "person_wf h p \<longleftrightarrow>
     dom (strings h) = set_option (name p) \<and>
     0 \<le> sint (age p) \<and> sint (age p) \<le> 125"

text \<open>Setting several properties one after the other; the warnings are collected.\<close>

fun set_all ::
    "'v gobject_lib \<Rightarrow> string_heap \<Rightarrow> app_person \<Rightarrow> (string \<times> 'v) list \<Rightarrow>
     (app_person \<times> string_heap \<times> g_warning list) res" where
  "set_all lib h p [] = Inr (p, h, [])"
| "set_all lib h p ((n, v) # sets) =
     res_bind (g_object_set_property lib (app_person_class_init lib) h p n v) (\<lambda>(p, h, w).
     res_bind (set_all lib h p sets) (\<lambda>(p, h, w'). Inr (p, h, w @ w')))"

lemma person_new_wf: "person_wf heap_empty app_person_new"
  by (simp add: person_wf_def heap_empty_def app_person_new_def app_person_init_def)

lemma person_wf_name:
  assumes "person_wf h p"
  shows "\<exists>s. read_string h (name p) = Inr s"
  using assms by (cases "name p") (auto simp: person_wf_def dom_def split: option.splits)

abbreviation name_spec :: pspec where
  "name_spec \<equiv> Spec_String ''name'' ''Name'' ''The name of the person.'' None"

abbreviation age_spec :: pspec where
  "age_spec \<equiv> Spec_Int ''age'' ''Age'' ''The age of the person.'' 0 125 0"

abbreviation person_class :: "'v gobject_lib \<Rightarrow> 'v object_class" where
  "person_class lib \<equiv> app_person_class_init lib"

lemma person_specs_installed:
  "installed_at (installed (person_class lib)) 1 name_spec" "installed_at (installed (person_class lib)) 2 age_spec"
  by (simp_all add: installed_at_def app_person_class_init_def app_person_param_specs_def less_2_cases_iff)

lemma value_laws_simps:
  assumes "gobject_laws lib"
  shows "gv_type lib (gv_init lib t) = t"
    and "gv_type lib v = G_TYPE_STRING \<Longrightarrow> gv_type lib (gv_set_string lib v s) = G_TYPE_STRING"
    and "gv_type lib v = G_TYPE_STRING \<Longrightarrow> gv_get_string lib (gv_set_string lib v s) = s"
    and "gv_type lib v = G_TYPE_STRING \<Longrightarrow> gv_type lib (gv_set_static_string lib v s) = G_TYPE_STRING"
    and "gv_type lib v = G_TYPE_STRING \<Longrightarrow> gv_get_string lib (gv_set_static_string lib v s) = s"
    and "gv_type lib v = G_TYPE_INT \<Longrightarrow> gv_type lib (gv_set_int lib v n) = G_TYPE_INT"
    and "gv_type lib v = G_TYPE_INT \<Longrightarrow> gv_get_int lib (gv_set_int lib v n) = n"
  using assms by (simp_all add: gobject_laws_def value_laws_def)

lemma string_lawsD:
  assumes "gobject_laws lib"
  shows "g_strdup lib h None = (None, h)" "g_free lib h None = Inr h"
    and "finite (dom (strings h)) \<Longrightarrow>
      \<exists>a. strings h a = None \<and> g_strdup lib h (Some s) = (Some a, h\<lparr>strings := (strings h)(a \<mapsto> s)\<rparr>)"
    and "g_free lib h (Some a) =
      (if strings h a = None then Inl Out_Of_Bounds else Inr (h\<lparr>strings := (strings h)(a := None)\<rparr>))"
  using assms unfolding gobject_laws_def string_laws_def by blast+

lemma class_lawsD:
  assumes "gobject_laws lib"
  shows "\<forall>sp. Some sp \<in> set (installed cls) \<longrightarrow> pspec_name sp \<noteq> n \<Longrightarrow>
      g_object_set_property lib cls h p n v = Inr (p, h, [No_Property n])"
    and "installed_at (installed cls) i sp \<Longrightarrow>
      g_object_set_property lib cls h p (pspec_name sp) v = Inr (p, h, [Unable_To_Set (pspec_name sp)]) \<or>
      (\<exists>w. value_fits lib sp w \<and>
         g_object_set_property lib cls h p (pspec_name sp) v = set_property cls h p (word_of_nat i) w)"
    and "installed_at (installed cls) i sp \<Longrightarrow> value_fits lib sp v \<Longrightarrow>
      g_object_set_property lib cls h p (pspec_name sp) v = set_property cls h p (word_of_nat i) v"
    and "installed_at (installed cls) i sp \<Longrightarrow>
      g_object_get_property lib cls h p (pspec_name sp) =
        res_bind (get_property cls h p (word_of_nat i) (gv_init lib (pspec_type sp))) (\<lambda>(v, w). Inr (Some v, w))"
    and "installed_at (installed cls) i sp \<Longrightarrow> pspec_type sp = G_TYPE_INT \<Longrightarrow>
      g_object_set_int lib cls h p (pspec_name sp) k =
        g_object_set_property lib cls h p (pspec_name sp) (gv_set_int lib (gv_init lib G_TYPE_INT) k)"
proof -
  note laws = assms [unfolded gobject_laws_def class_laws_def, THEN conjunct2, THEN conjunct2]
  show "\<forall>sp. Some sp \<in> set (installed cls) \<longrightarrow> pspec_name sp \<noteq> n \<Longrightarrow>
      g_object_set_property lib cls h p n v = Inr (p, h, [No_Property n])"
    by (rule laws [THEN conjunct1, rule_format]) blast
  show "installed_at (installed cls) i sp \<Longrightarrow>
      g_object_set_property lib cls h p (pspec_name sp) v = Inr (p, h, [Unable_To_Set (pspec_name sp)]) \<or>
      (\<exists>w. value_fits lib sp w \<and>
         g_object_set_property lib cls h p (pspec_name sp) v = set_property cls h p (word_of_nat i) w)"
    by (rule laws [THEN conjunct2, THEN conjunct1, rule_format])
  show "installed_at (installed cls) i sp \<Longrightarrow> value_fits lib sp v \<Longrightarrow>
      g_object_set_property lib cls h p (pspec_name sp) v = set_property cls h p (word_of_nat i) v"
    by (rule laws [THEN conjunct2, THEN conjunct2, THEN conjunct1, rule_format])
  show "installed_at (installed cls) i sp \<Longrightarrow>
      g_object_get_property lib cls h p (pspec_name sp) =
        res_bind (get_property cls h p (word_of_nat i) (gv_init lib (pspec_type sp))) (\<lambda>(v, w). Inr (Some v, w))"
    by (rule laws [THEN conjunct2, THEN conjunct2, THEN conjunct2, THEN conjunct1, rule_format])
  show "installed_at (installed cls) i sp \<Longrightarrow> pspec_type sp = G_TYPE_INT \<Longrightarrow>
      g_object_set_int lib cls h p (pspec_name sp) k =
        g_object_set_property lib cls h p (pspec_name sp) (gv_set_int lib (gv_init lib G_TYPE_INT) k)"
    by (rule laws [THEN conjunct2, THEN conjunct2, THEN conjunct2, THEN conjunct2, rule_format])
qed

lemmas person_defs =
  app_person_class_init_def app_person_set_property_def app_person_get_property_def
  APP_PERSON_PROP_NAME_def APP_PERSON_PROP_AGE_def

text \<open>What the setter of the name does.\<close>

abbreviation rename :: "'v gobject_lib \<Rightarrow> string_heap \<Rightarrow> app_person \<Rightarrow> string option \<Rightarrow>
    (app_person \<times> string_heap \<times> g_warning list) res" where
  "rename lib h p s \<equiv>
     res_bind (g_free lib h (name p)) (\<lambda>h. let (a, h) = g_strdup lib h s in Inr (p\<lparr>name := a\<rparr>, h, []))"

lemma setters:
  "set_property (person_class lib) h p (word_of_nat 1) v = rename lib h p (gv_get_string lib v)"
  "set_property (person_class lib) h p (word_of_nat 2) v = Inr (p\<lparr>age := gv_get_int lib v\<rparr>, h, [])"
  by (simp_all add: person_defs)

lemma rename_wf:
  assumes "gobject_laws lib" and "person_wf h p"
  shows "wp (rename lib h p s)
    (\<lambda>(p', h', w). person_wf h' p' \<and> read_string h' (name p') = Inr s \<and> age p' = age p \<and> w = []) (\<lambda>_. False)"
proof -
  have "\<exists>h1. g_free lib h (name p) = Inr h1 \<and> strings h1 = Map.empty"
    using assms(2) string_lawsD(2,4) [OF assms(1)]
    by (cases "name p") (auto simp: person_wf_def dom_def fun_eq_iff split: if_splits)
  then obtain h1 where h1: "g_free lib h (name p) = Inr h1" "strings h1 = Map.empty" by blast
  show ?thesis
  proof (cases s)
    case None
    with h1 assms string_lawsD(1) [OF assms(1)] show ?thesis by (simp add: person_wf_def)
  next
    case (Some t)
    obtain a where "g_strdup lib h1 (Some t) = (Some a, h1\<lparr>strings := [a \<mapsto> t]\<rparr>)"
      using string_lawsD(3) [OF assms(1), of h1 t] h1(2) by auto
    with Some h1 assms show ?thesis by (simp add: person_wf_def)
  qed
qed

lemma set_property_wf:
  assumes "gobject_laws lib" and "person_wf h p"
  shows "wp (g_object_set_property lib (person_class lib) h p n v) (\<lambda>(p', h', _). person_wf h' p') (\<lambda>_. False)"
proof -
  note set = class_lawsD(2) [OF assms(1) person_specs_installed(1) [of lib], of h p v]
    class_lawsD(2) [OF assms(1) person_specs_installed(2) [of lib], of h p v]
  have rename: "wp (rename lib h p s) (\<lambda>(p', h', _). person_wf h' p') (\<lambda>_. False)" for s
    by (rule wp_mono [OF rename_wf [OF assms]]) auto
  consider "n = ''name''" | "n = ''age''" | "n \<noteq> ''name''" "n \<noteq> ''age''" by blast
  then show ?thesis
  proof cases
    case 1
    with set(1) rename assms(2) show ?thesis unfolding setters pspec.sel by (elim disjE exE conjE) simp_all
  next
    case 2
    with set(2) assms(2) show ?thesis
      unfolding setters pspec.sel by (elim disjE exE conjE) (simp_all add: person_wf_def)
  next
    case 3
    then have "g_object_set_property lib (person_class lib) h p n v = Inr (p, h, [No_Property n])"
      by (intro class_lawsD(1) [OF assms(1)]) (auto simp: app_person_class_init_def app_person_param_specs_def)
    with assms(2) show ?thesis by simp
  qed
qed

lemma set_all_wf:
  assumes "gobject_laws lib" and "person_wf h p"
  shows "wp (set_all lib h p sets) (\<lambda>(p', h', _). person_wf h' p') (\<lambda>_. False)"
  using assms(2)
proof (induction sets arbitrary: h p)
  case (Cons nv sets)
  then show ?case
    using set_property_wf [OF assms(1) Cons.prems, of "fst nv" "snd nv"]
    by (cases nv) (fastforce simp: wp_rules split: prod.splits elim!: wp_mono)
qed simp

lemma get_name_eq:
  assumes "gobject_laws lib"
  shows "g_object_get_property lib (person_class lib) h p ''name'' =
    res_bind (read_string h (name p)) (\<lambda>s. Inr (Some (gv_set_string lib (gv_init lib G_TYPE_STRING) s), []))"
  using class_lawsD(4) [OF assms person_specs_installed(1) [of lib], of h p] by (simp add: person_defs)

lemma get_age_eq:
  assumes "gobject_laws lib"
  shows "g_object_get_property lib (person_class lib) h p ''age'' =
    Inr (Some (gv_set_int lib (gv_init lib G_TYPE_INT) (age p)), [])"
  using class_lawsD(4) [OF assms person_specs_installed(2) [of lib], of h p] by (simp add: person_defs)

lemma get_fits:
  assumes "gobject_laws lib" and "person_wf h p" and "Some sp \<in> set app_person_param_specs"
  shows "\<exists>v. g_object_get_property lib (person_class lib) h p (pspec_name sp) = Inr (Some v, []) \<and> value_fits lib sp v"
  using assms(2,3) person_wf_name [OF assms(2)]
  by (auto simp: app_person_param_specs_def get_name_eq [OF assms(1)] get_age_eq [OF assms(1)]
      value_laws_simps [OF assms(1)] person_wf_def)


section \<open>A library that satisfies the laws\<close>

datatype gval = GString "string option" | GInt u32

fun gval_type :: "gval \<Rightarrow> gtype" where
  "gval_type (GString _) = G_TYPE_STRING"
| "gval_type (GInt _) = G_TYPE_INT"

fun gval_string :: "gval \<Rightarrow> string option" where
  "gval_string (GString s) = s"
| "gval_string (GInt _) = None"

fun gval_int :: "gval \<Rightarrow> u32" where
  "gval_int (GInt n) = n"
| "gval_int (GString _) = 0"

fun index_of_spec :: "pspec option list \<Rightarrow> string \<Rightarrow> nat option" where
  "index_of_spec [] n = None"
| "index_of_spec (sp # specs) n =
     (if map_option pspec_name sp = Some n then Some 0 else map_option Suc (index_of_spec specs n))"

fun gval_fits :: "pspec \<Rightarrow> gval \<Rightarrow> bool" where
  "gval_fits (Spec_String _ _ _ _) v \<longleftrightarrow> gval_type v = G_TYPE_STRING"
| "gval_fits (Spec_Int _ _ _ lo hi _) v \<longleftrightarrow>
     gval_type v = G_TYPE_INT \<and> sint lo \<le> sint (gval_int v) \<and> sint (gval_int v) \<le> sint hi"

definition plain_set :: "gval object_class \<Rightarrow> string_heap \<Rightarrow> app_person \<Rightarrow> string \<Rightarrow> gval \<Rightarrow>
    (app_person \<times> string_heap \<times> g_warning list) res" where
  "plain_set cls h p n v =
     (case index_of_spec (installed cls) n of
        None \<Rightarrow> Inr (p, h, [No_Property n])
      | Some i \<Rightarrow>
          if gval_fits (the (installed cls ! i)) v then set_property cls h p (word_of_nat i) v
          else Inr (p, h, [Unable_To_Set n]))"

definition gval_new :: "gtype \<Rightarrow> gval" where
  "gval_new t = (if t = G_TYPE_STRING then GString None else GInt 0)"

definition plain_get :: "gval object_class \<Rightarrow> string_heap \<Rightarrow> app_person \<Rightarrow> string \<Rightarrow> (gval option \<times> g_warning list) res" where
  "plain_get cls h p n =
     (case index_of_spec (installed cls) n of
        None \<Rightarrow> Inr (None, [No_Property n])
      | Some i \<Rightarrow>
          res_bind (get_property cls h p (word_of_nat i) (gval_new (pspec_type (the (installed cls ! i))))) (\<lambda>(v, w).
          Inr (Some v, w)))"

definition plain_strdup :: "string_heap \<Rightarrow> string option \<Rightarrow> nat option \<times> string_heap" where
  "plain_strdup h s =
     (case s of
        None \<Rightarrow> (None, h)
      | Some t \<Rightarrow> (let a = (LEAST a. strings h a = None) in (Some a, h\<lparr>strings := (strings h)(a \<mapsto> t)\<rparr>)))"

definition plain_free :: "string_heap \<Rightarrow> nat option \<Rightarrow> string_heap res" where
  "plain_free h a =
     (case a of
        None \<Rightarrow> Inr h
      | Some a \<Rightarrow> if strings h a = None then Inl Out_Of_Bounds else Inr (h\<lparr>strings := (strings h)(a := None)\<rparr>))"

definition plain_gobject :: "gval gobject_lib" where
  "plain_gobject =
     (let set_str = (\<lambda>v s. if gval_type v = G_TYPE_STRING then GString s else v) in
      \<lparr>gv_type = gval_type, gv_init = gval_new,
       gv_set_string = set_str, gv_set_static_string = set_str, gv_get_string = gval_string,
       gv_set_int = (\<lambda>v n. if gval_type v = G_TYPE_INT then GInt n else v), gv_get_int = gval_int,
       g_strdup = plain_strdup, g_free = plain_free,
       g_object_set_property = plain_set, g_object_get_property = plain_get,
       g_object_set_int = (\<lambda>cls h p n k. plain_set cls h p n (GInt k))\<rparr>)"

lemma index_of_spec_None: "index_of_spec specs n = None \<longleftrightarrow> (\<forall>sp. Some sp \<in> set specs \<longrightarrow> pspec_name sp \<noteq> n)"
  by (induction specs n rule: index_of_spec.induct) (auto split: option.splits)

lemma index_of_spec_at: "installed_at specs i sp \<Longrightarrow> index_of_spec specs (pspec_name sp) = Some i"
proof (induction specs arbitrary: i)
  case (Cons s specs)
  show ?case
  proof (cases i)
    case (Suc k)
    with Cons.prems have "installed_at specs k sp" "map_option pspec_name s \<noteq> Some (pspec_name sp)"
      unfolding installed_at_def by force+
    with Cons.IH Suc show ?thesis by simp
  qed (use Cons.prems in \<open>simp add: installed_at_def\<close>)
qed (simp add: installed_at_def)

lemma plain_gobject_sel:
  "gv_type plain_gobject = gval_type" "gv_init plain_gobject = gval_new" "gv_get_int plain_gobject = gval_int"
  "g_strdup plain_gobject = plain_strdup" "g_free plain_gobject = plain_free"
  "g_object_set_property plain_gobject = plain_set" "g_object_get_property plain_gobject = plain_get"
  "g_object_set_int plain_gobject = (\<lambda>cls h p n k. plain_set cls h p n (GInt k))"
  "gv_set_int plain_gobject = (\<lambda>v n. if gval_type v = G_TYPE_INT then GInt n else v)"
  by (simp_all add: plain_gobject_def Let_def)

lemma plain_gobject_laws: "gobject_laws plain_gobject"
proof -
  have fits: "value_fits plain_gobject sp v \<longleftrightarrow> gval_fits sp v" for sp v
    by (cases sp) (simp_all add: plain_gobject_sel)
  have "value_laws plain_gobject"
    by (auto simp: value_laws_def plain_gobject_def gval_new_def Let_def gtype.exhaust) (metis gtype.exhaust)
  moreover have "string_laws plain_gobject"
  proof -
    have "\<exists>a. strings h a = None" if "finite (dom (strings h))" for h
      using that infinite_UNIV_nat by (metis UNIV_eq_I domIff)
    then have "strings h (LEAST a. strings h a = None) = None" if "finite (dom (strings h))" for h
      using that by (metis (mono_tags, lifting) LeastI)
    then show ?thesis by (auto simp: string_laws_def plain_gobject_sel plain_strdup_def plain_free_def Let_def)
  qed
  moreover have "class_laws plain_gobject"
    unfolding class_laws_def
    by (auto simp: plain_gobject_sel plain_set_def plain_get_def fits index_of_spec_None [THEN iffD2] index_of_spec_at gval_new_def
        dest: index_of_spec_at simp: installed_at_def)
  ultimately show ?thesis by (simp add: gobject_laws_def)
qed

section \<open>Properties\<close>

text \<open>C39: 
  Whatever properties are set on a new person, in any order and with values of any type, no name is freed
  twice, the only copy of a name that is kept is the current one, and every property that is read afterwards has a value of the
  type and within the bounds of its specification: a text for the name, a number from 0 to 125 for the age.
\<close>

theorem person_typed:
  assumes "gobject_laws lib" and "Some sp \<in> set app_person_param_specs"
  shows "\<exists>p h w v. set_all lib heap_empty app_person_new sets = Inr (p, h, w) \<and>
    dom (strings h) = set_option (name p) \<and>
    g_object_get_property lib (app_person_class_init lib) h p (pspec_name sp) = Inr (Some v, []) \<and> value_fits lib sp v"
proof -
  obtain p h w where run: "set_all lib heap_empty app_person_new sets = Inr (p, h, w)" and wf: "person_wf h p"
    using set_all_wf [OF assms(1) person_new_wf, of sets] by (auto simp: wp_total)
  then show ?thesis using get_fits [OF assms(1) wf assms(2)] by (auto simp: person_wf_def)
qed

theorem person_typed_witness:
  "\<exists>p h w v. set_all plain_gobject heap_empty app_person_new [(''age'', GInt 200), (''name'', GString (Some ''A'')), (''age'', GInt 7)] =
      Inr (p, h, w) \<and>
    dom (strings h) = set_option (name p) \<and>
    g_object_get_property plain_gobject (app_person_class_init plain_gobject) h p ''age'' = Inr (Some v, []) \<and>
    value_fits plain_gobject (Spec_Int ''age'' ''Age'' ''The age of the person.'' 0 125 0) v"
  using person_typed [OF plain_gobject_laws, of "Spec_Int ''age'' ''Age'' ''The age of the person.'' 0 125 0"
      "[(''age'', GInt 200), (''name'', GString (Some ''A'')), (''age'', GInt 7)]"]
  by (simp add: app_person_param_specs_def)

text \<open>A value that fits is stored, and read back unchanged, without a warning.\<close>

definition same_value :: "'v gobject_lib \<Rightarrow> pspec \<Rightarrow> 'v \<Rightarrow> 'v \<Rightarrow> bool" where
  "same_value lib sp v w \<longleftrightarrow>
     (case pspec_type sp of
        G_TYPE_STRING \<Rightarrow> gv_get_string lib v = gv_get_string lib w
      | G_TYPE_INT \<Rightarrow> gv_get_int lib v = gv_get_int lib w)"

lemma property_roundtrip:
  assumes "gobject_laws lib" and "person_wf h p" and "Some sp \<in> set app_person_param_specs" and "value_fits lib sp v"
  shows "\<exists>p' h' w. g_object_set_property lib (person_class lib) h p (pspec_name sp) v = Inr (p', h', []) \<and>
    g_object_get_property lib (person_class lib) h' p' (pspec_name sp) = Inr (Some w, []) \<and> same_value lib sp w v"
proof -
  consider (n) "sp = name_spec" | (a) "sp = age_spec"
    using assms(3) by (auto simp: app_person_param_specs_def)
  then show ?thesis
  proof cases
    case n
    have set: "g_object_set_property lib (person_class lib) h p ''name'' v = rename lib h p (gv_get_string lib v)"
      using class_lawsD(3) [OF assms(1) person_specs_installed(1) [of lib], of v h p] assms(4) n unfolding setters by simp
    obtain p' h' where "rename lib h p (gv_get_string lib v) = Inr (p', h', [])"
      "read_string h' (name p') = Inr (gv_get_string lib v)"
      using rename_wf [OF assms(1,2), of "gv_get_string lib v"] unfolding wp_total by auto
    then show ?thesis
      by (simp add: n set get_name_eq [OF assms(1)] value_laws_simps [OF assms(1)] same_value_def)
  next
    case a
    then have "g_object_set_property lib (person_class lib) h p ''age'' v = Inr (p\<lparr>age := gv_get_int lib v\<rparr>, h, [])"
      using class_lawsD(3) [OF assms(1) person_specs_installed(2) [of lib], of v h p] assms(4) unfolding setters by simp
    with a show ?thesis
      by (simp add: get_age_eq [OF assms(1)] value_laws_simps [OF assms(1)] same_value_def)
  qed
qed

text \<open>The program prints the person; when it ends, the copy of the name is still allocated.\<close>

lemma person_main_output:
  assumes "gobject_laws lib"
  shows "\<exists>h a. person_main lib = Inr (''AppPerson{ .name = Hugo, .age = 37 }\<newline>'', h) \<and> strings h = [a \<mapsto> ''Hugo'']"
proof -
  note laws = value_laws_simps [OF assms]
  let ?v = "create_gvalue_static_string lib ''Hugo''"
  have v: "gv_type lib ?v = G_TYPE_STRING" "gv_get_string lib ?v = Some ''Hugo''"
    by (simp_all add: create_gvalue_static_string_def laws)
  obtain a where a: "g_strdup lib heap_empty (Some ''Hugo'') = (Some a, \<lparr>strings = [a \<mapsto> ''Hugo'']\<rparr>)"
    using string_lawsD(3) [OF assms, of heap_empty "''Hugo''"] by (auto simp: heap_empty_def)
  have "g_object_set_property lib (person_class lib) heap_empty app_person_new ''name'' ?v =
      Inr (\<lparr>name = Some a, age = 0\<rparr>, \<lparr>strings = [a \<mapsto> ''Hugo'']\<rparr>, [])"
    using class_lawsD(3) [OF assms person_specs_installed(1) [of lib], of ?v heap_empty app_person_new] v a string_lawsD(2) [OF assms]
    unfolding setters by (simp add: app_person_new_def app_person_init_def)
  moreover have "g_object_set_int lib (person_class lib) h p ''age'' 37 = Inr (p\<lparr>age := 37\<rparr>, h, [])" for h p
    using class_lawsD(5) [OF assms person_specs_installed(2) [of lib], of h p 37]
      class_lawsD(3) [OF assms person_specs_installed(2) [of lib], of "gv_set_int lib (gv_init lib G_TYPE_INT) 37" h p]
    unfolding setters by (simp add: laws)
  ultimately show ?thesis
    by (auto simp: person_main_def app_person_println_def Let_def fmt_d_def fmt_u.simps dec_digit_def)
qed

text \<open>A configuration keeps the prefix it is made with; a null pointer fails the assertion of every operation.\<close>

lemma configuration_prefix:
  "res_bind (app_configuration_new p) app_configuration_prefix_get = Inr p"
  "app_configuration_prefix_get None = Inl Assert_Failure"
  by (simp_all add: app_configuration_new_def app_configuration_init_def app_configuration_prefix_get_def
      APP_IS_CONFIGURATION_def c_assert_def)

lemma config_main_output:
  "config_main = Inr (''It Works! prefix='' @ [CHR 0x22] @ ''APP_'' @ [CHR 0x22] @ ''\<newline>'')"
  by (simp add: config_main_def app_configuration_new_def app_configuration_init_def app_configuration_prefix_get_def
      app_configuration_class_init_def app_configuration_dispose_def app_configuration_finalize_def
      APP_IS_CONFIGURATION_def c_assert_def)

end
