(* ===== verification/Options.thy ===== *)
theory Options
  imports Prelude
begin

text \<open>
  The two examples for the option parser of GLib (\<open>glib-examples/hello-goption/main.c\<close> and \<open>glib-examples/cli/src/main.c\<close>): the
  tables of options, whose \<open>arg_data\<close> pointers are functions that store a value in the context, and the programs
  around them. The parser of the library is an input, \<open>option_parser\<close>, from a table and the arguments to what it found.
\<close>

section \<open>What GLib provides\<close>

datatype arg_kind = ARG_STRING | ARG_FILENAME | ARG_INT

datatype arg_value = Arg_String string | Arg_Filename string | Arg_Int u32

fun arg_kind_of :: "arg_value \<Rightarrow> arg_kind" where
  "arg_kind_of (Arg_String _) = ARG_STRING"
| "arg_kind_of (Arg_Filename _) = ARG_FILENAME"
| "arg_kind_of (Arg_Int _) = ARG_INT"

text \<open>An entry of a table; its flags are none and its \<open>arg_description\<close> is null in all tables of the sources.\<close>

record 'ctx option_entry =
  long_name :: string
  short_name :: char
  arg :: arg_kind
  arg_data :: "arg_value \<Rightarrow> 'ctx \<Rightarrow> 'ctx"
  description :: string

text \<open>\<open>g_option_context_parse\<close> finds options, in the order of the arguments; or it fails with a message and stores
  nothing; or it prints the help and ends the program.\<close>

datatype parse_outcome =
    Parsed "(string \<times> arg_value) list"
  | Parse_Error string
  | Help_Shown

type_synonym 'ctx option_parser = "'ctx option_entry list \<Rightarrow> string list \<Rightarrow> parse_outcome"

text \<open>What is found belongs to the table: the option has an entry, and the value is of the kind
  of the first entry of that name.\<close>

definition lookup_entry :: "'ctx option_entry list \<Rightarrow> string \<Rightarrow> 'ctx option_entry option" where
  "lookup_entry es n = find (\<lambda>e. long_name e = n) es"

definition parser_laws :: "'ctx option_parser \<Rightarrow> bool" where
  "parser_laws parse \<longleftrightarrow>
     (\<forall>es argv found. parse es argv = Parsed found \<longrightarrow>
        list_all (\<lambda>(n, v). \<exists>e. lookup_entry es n = Some e \<and> arg e = arg_kind_of v) found)"

fun store_options :: "'ctx option_entry list \<Rightarrow> (string \<times> arg_value) list \<Rightarrow> 'ctx \<Rightarrow> 'ctx" where
  "store_options es [] ctx = ctx"
| "store_options es ((n, v) # found) ctx =
     store_options es found (case lookup_entry es n of None \<Rightarrow> ctx | Some e \<Rightarrow> arg_data e v ctx)"

text \<open>How a program ends: \<open>main\<close> returns a code, after printing a text and with strings that it has not released;
  the help is shown; or \<open>g_error\<close> aborts with a message.\<close>

datatype program_end =
    Main_Returned int string "string list"
  | Help_Ended
  | Aborted string

section \<open>hello-goption\<close>

record cli_ctx =
  ctx_argc :: int
  ctx_argv :: "string list"
  application :: "string option"
  instance_name :: "string option"
  record_type :: "string option"
  output_path :: "string option"

definition cli_ctx_init :: "string list \<Rightarrow> cli_ctx" where
  "cli_ctx_init argv = \<lparr>ctx_argc = int (length argv), ctx_argv = argv, application = None, instance_name = None, record_type = None, output_path = None\<rparr>"

fun arg_text :: "arg_value \<Rightarrow> string option" where
  "arg_text (Arg_String s) = Some s"
| "arg_text (Arg_Filename s) = Some s"
| "arg_text (Arg_Int _) = None"

definition gopt_entries :: "cli_ctx option_entry list" where
  "gopt_entries =
     [\<lparr>long_name = ''application'', short_name = CHR ''a'', arg = ARG_STRING,
       arg_data = (\<lambda>v c. c\<lparr>application := arg_text v\<rparr>),
       description = ''This is where application arg description goes''\<rparr>,
      \<lparr>long_name = ''instance'', short_name = CHR ''i'', arg = ARG_STRING,
       arg_data = (\<lambda>v c. c\<lparr>instance_name := arg_text v\<rparr>),
       description = ''This is where instance arg description goes''\<rparr>,
      \<lparr>long_name = ''record-type'', short_name = CHR ''t'', arg = ARG_STRING,
       arg_data = (\<lambda>v c. c\<lparr>record_type := arg_text v\<rparr>),
       description = ''This is where record type arg description goes''\<rparr>,
      \<lparr>long_name = ''output'', short_name = CHR ''o'', arg = ARG_FILENAME,
       arg_data = (\<lambda>v c. c\<lparr>output_path := arg_text v\<rparr>),
       description = ''The output file path for the Sqlite DB where data should be written''\<rparr>]"

text \<open>\<open>g_error\<close> does not return, so neither error leads to the label \<open>err_gopt_ctx_free\<close>. Only the output is released
  before the return.\<close>

definition goption_main :: "cli_ctx option_parser \<Rightarrow> string list \<Rightarrow> program_end" where
  "goption_main parse argv =
     (case parse gopt_entries argv of
        Help_Shown \<Rightarrow> Help_Ended
      | Parse_Error msg \<Rightarrow> Aborted (''bad args: parsing failed: '' @ msg @ ''\<newline>'')
      | Parsed found \<Rightarrow>
          let ctx = store_options gopt_entries found (cli_ctx_init argv) in
          if output_path ctx = None then
            Aborted (''bad args: missing required argument '' @ [CHR 0x27] @ ''output'' @ [CHR 0x27] @ '' (-o,--output <FILE>)'')
          else
            Main_Returned 0 [] (concat (map (\<lambda>s. case s of None \<Rightarrow> [] | Some t \<Rightarrow> [t])
              [application ctx, instance_name ctx, record_type ctx])))"

section \<open>cli\<close>

record CLIContext =
  server_host :: string
  server_port :: u32
  log_level :: string

definition cli_context_print :: "CLIContext \<Rightarrow> string" where
  "cli_context_print ctx =
     ''CLIContext{ server_host = '' @ server_host ctx @ '', server_port: '' @ fmt_d (sint (server_port ctx)) @
     '', log_level: '' @ log_level ctx @ '' }\<newline>''"

definition cli_context_default :: CLIContext where
  "cli_context_default = \<lparr>server_host = ''localhost'', server_port = 443, log_level = ''info''\<rparr>"

definition cli_entries :: "CLIContext option_entry list" where
  "cli_entries =
     [\<lparr>long_name = ''host'', short_name = CHR ''h'', arg = ARG_STRING,
       arg_data = (\<lambda>v c. case arg_text v of None \<Rightarrow> c | Some s \<Rightarrow> c\<lparr>server_host := s\<rparr>),
       description = ''Server'' @ [CHR 0x27] @ ''s hostname''\<rparr>,
      \<lparr>long_name = ''port'', short_name = CHR ''p'', arg = ARG_INT,
       arg_data = (\<lambda>v c. case v of Arg_Int n \<Rightarrow> c\<lparr>server_port := n\<rparr> | _ \<Rightarrow> c),
       description = ''Server'' @ [CHR 0x27] @ ''s port''\<rparr>,
      \<lparr>long_name = ''log-level'', short_name = CHR ''l'', arg = ARG_STRING,
       arg_data = (\<lambda>v c. case arg_text v of None \<Rightarrow> c | Some s \<Rightarrow> c\<lparr>log_level := s\<rparr>),
       description = ''Log level (one of: INFO, WARN, DEBUG, TRACE)''\<rparr>]"

text \<open>The entries are added twice, under two translation domains. The strings of the options that were found are not
  released; those of the defaults are literals.\<close>

definition cli_main :: "CLIContext option_parser \<Rightarrow> string list \<Rightarrow> program_end" where
  "cli_main parse argv =
     (let es = cli_entries @ cli_entries in
      case parse es argv of
        Help_Shown \<Rightarrow> Help_Ended
      | Parse_Error msg \<Rightarrow> Main_Returned 1 (''option parsing failed: '' @ msg @ ''\<newline>'') []
      | Parsed found \<Rightarrow>
          let ctx = store_options es found cli_context_default in
          Main_Returned 0 (cli_context_print ctx)
            ((if ''host'' \<in> fst ` set found then [server_host ctx] else []) @
             (if ''log-level'' \<in> fst ` set found then [log_level ctx] else [])))"

section \<open>The context after parsing\<close>

text \<open>The value of the last occurrence of an option.\<close>

definition last_value :: "(string \<times> arg_value) list \<Rightarrow> string \<Rightarrow> arg_value option" where
  "last_value found n = map_of (rev found) n"

lemma last_value_Nil [simp]: "last_value [] n = None"
  by (simp add: last_value_def)

lemma last_value_snoc [simp]: "last_value (found @ [(m, v)]) n = (if m = n then Some v else last_value found n)"
  by (simp add: last_value_def)

lemma last_value_None: "last_value found n = None \<longleftrightarrow> n \<notin> fst ` set found"
  by (simp add: last_value_def map_of_eq_None_iff)

lemma store_options_append:
  "store_options es (xs @ ys) ctx = store_options es ys (store_options es xs ctx)"
  by (induction es xs ctx rule: store_options.induct) auto

definition typed_options :: "'ctx option_entry list \<Rightarrow> (string \<times> arg_value) list \<Rightarrow> bool" where
  "typed_options es = list_all (\<lambda>(n, v). \<exists>e. lookup_entry es n = Some e \<and> arg e = arg_kind_of v)"

lemma parser_typed: "parser_laws parse \<Longrightarrow> parse es argv = Parsed found \<Longrightarrow> typed_options es found"
  by (simp add: parser_laws_def typed_options_def)

lemma typed_snoc [simp]:
  "typed_options es (found @ [(n, v)]) \<longleftrightarrow>
     typed_options es found \<and> (\<exists>e. lookup_entry es n = Some e \<and> arg e = arg_kind_of v)"
  by (auto simp: typed_options_def)

lemma store_gopt_output:
  assumes "typed_options gopt_entries found"
  shows "output_path (store_options gopt_entries found (cli_ctx_init argv)) =
    Option.bind (last_value found ''output'') arg_text"
  using assms
proof (induction found rule: rev_induct)
  case (snoc nv found)
  then show ?case
    by (cases nv) (auto simp: store_options_append lookup_entry_def gopt_entries_def split: if_splits)
qed (simp add: cli_ctx_init_def)

lemma typed_output:
  assumes "typed_options gopt_entries found" and "last_value found ''output'' = Some v"
  shows "\<exists>s. v = Arg_Filename s"
  using assms
proof (induction found rule: rev_induct)
  case (snoc nv found)
  then show ?case
    by (cases nv; cases v) (auto simp: lookup_entry_def gopt_entries_def split: if_splits)
qed simp

lemma store_cli:
  assumes "typed_options (cli_entries @ cli_entries) found"
  shows "store_options (cli_entries @ cli_entries) found cli_context_default =
    \<lparr>server_host = (case last_value found ''host'' of Some (Arg_String s) \<Rightarrow> s | _ \<Rightarrow> ''localhost''),
     server_port = (case last_value found ''port'' of Some (Arg_Int n) \<Rightarrow> n | _ \<Rightarrow> 443),
     log_level = (case last_value found ''log-level'' of Some (Arg_String s) \<Rightarrow> s | _ \<Rightarrow> ''info'')\<rparr>"
  using assms
proof (induction found rule: rev_induct)
  case (snoc nv found)
  obtain n v where nv: "nv = (n, v)" by (cases nv)
  from snoc.prems nv have "n = ''host'' \<and> arg_kind_of v = ARG_STRING \<or> n = ''port'' \<and> arg_kind_of v = ARG_INT \<or>
      n = ''log-level'' \<and> arg_kind_of v = ARG_STRING"
    by (auto simp: lookup_entry_def cli_entries_def split: if_splits)
  with snoc nv show ?case
    by (cases v) (auto simp: store_options_append lookup_entry_def cli_entries_def)
qed (simp add: cli_context_default_def)

section \<open>Properties\<close>

text \<open>\<open>hello-goption\<close> succeeds exactly when parsing succeeds and an output was given; it never returns
  the code 1 of its error label: both errors abort.\<close>

lemma goption_main_returns:
  assumes "parser_laws parse"
  shows "(\<exists>out rest. goption_main parse argv = Main_Returned code out rest) \<longleftrightarrow>
    code = 0 \<and> (\<exists>found. parse gopt_entries argv = Parsed found \<and> ''output'' \<in> fst ` set found)"
proof (cases "parse gopt_entries argv")
  case (Parsed found)
  note typed = parser_typed [OF assms Parsed]
  have "output_path (store_options gopt_entries found (cli_ctx_init argv)) = None \<longleftrightarrow> ''output'' \<notin> fst ` set found"
    using typed_output [OF typed] store_gopt_output [OF typed] last_value_None [of found "''output''"]
    by (cases "last_value found ''output''") auto
  then show ?thesis using Parsed by (auto simp: goption_main_def Let_def)
qed (simp_all add: goption_main_def)

text \<open>\<open>cli\<close> prints the defaults, replaced by the last occurrence of each option that was found.\<close>

lemma cli_main_prints:
  assumes "parser_laws parse" and "parse (cli_entries @ cli_entries) argv = Parsed found"
  shows "\<exists>rest. cli_main parse argv = Main_Returned 0
    (cli_context_print
       \<lparr>server_host = (case last_value found ''host'' of Some (Arg_String s) \<Rightarrow> s | _ \<Rightarrow> ''localhost''),
        server_port = (case last_value found ''port'' of Some (Arg_Int n) \<Rightarrow> n | _ \<Rightarrow> 443),
        log_level = (case last_value found ''log-level'' of Some (Arg_String s) \<Rightarrow> s | _ \<Rightarrow> ''info'')\<rparr>) rest"
  using store_cli [OF parser_typed [OF assms]] assms(2) by (simp add: cli_main_def Let_def)

end
