(* ===== verification/Ifaddrs.thy ===== *)
theory Ifaddrs
  imports Prelude
begin

text \<open>
  The listing of network interfaces (\<open>networking/basics.c\<close>). What the operating system reports, \<open>inet_ntop\<close>, \<open>strerror\<close> and the
  number of processors (a function of \<open>utils/cpu.h\<close>, which is not in the repository) are the record \<open>host_info\<close>. The text is what
  goes to the error stream; the program prints nothing else.
\<close>

section \<open>The program\<close>

text \<open>A socket address: its family and the bytes of the address, \<open>sin_addr\<close> or \<open>sin6_addr\<close> of the structure it is
  cast to.\<close>

record sockaddr =
  sa_family :: u16
  sa_data :: "u8 list"

record ifaddr =
  ifa_name :: string
  ifa_addr :: "sockaddr option"

text \<open>\<open>getifaddrs\<close>: the error number or the interfaces. \<open>inet_ntop\<close> has the family, the address and the size of the
  buffer; it fails when the text does not fit.\<close>

record host_info =
  getifaddrs :: "u32 + ifaddr list"
  inet_ntop :: "u16 \<Rightarrow> u8 list \<Rightarrow> nat \<Rightarrow> string option"
  strerror :: "u32 \<Rightarrow> string"
  num_cores :: nat

definition tab :: char where "tab = CHR 0x09"

definition AF_INET :: u16 where "AF_INET = 2"
definition AF_INET6 :: u16 where "AF_INET6 = 10"

definition unknown_family :: "sockaddr \<Rightarrow> string" where
  "unknown_family address = [tab, tab] @ ''<unknown family '' @ fmt_u (unat (sa_family address)) @ ''>\<newline>''"

text \<open>The \<open>switch\<close>: the case for \<open>AF_INET6\<close> has no \<open>break\<close> and goes on with the default.\<close>

definition describe_address :: "host_info \<Rightarrow> sockaddr \<Rightarrow> string res" where
  "describe_address host address =
     (if sa_family address = AF_INET then
        (case inet_ntop host AF_INET (sa_data address) 50 of
           None \<Rightarrow> c_exit ''failed to get ipv4 from AF_INET interface address.''
         | Some ip \<Rightarrow> Inr ([tab, tab] @ ip @ ''\<newline>''))
      else if sa_family address = AF_INET6 then
        (case inet_ntop host AF_INET6 (sa_data address) 255 of
           None \<Rightarrow> c_exit ''failed to get ipv6 from AF_INET6 interfaces address.''
         | Some ip \<Rightarrow> Inr ([tab, tab] @ ip @ ''\<newline>'' @ unknown_family address))
      else Inr (unknown_family address))"

definition interface_heading :: "nat \<Rightarrow> ifaddr \<Rightarrow> string" where
  "interface_heading i ifa = ''[DEBUG]'' @ [tab] @ fmt_u (i + 1) @ ''.'' @ [tab] @ ifa_name ifa"

fun list_interfaces :: "host_info \<Rightarrow> nat \<Rightarrow> ifaddr list \<Rightarrow> string res" where
  "list_interfaces host i [] = Inr []"
| "list_interfaces host i (ifa # rest) =
     (case ifa_addr ifa of
        None \<Rightarrow> Inl Null_Deref
      | Some address \<Rightarrow>
          res_bind (describe_address host address) (\<lambda>out.
          res_bind (list_interfaces host (i + 1) rest) (\<lambda>outs.
          Inr (interface_heading i ifa @ out @ outs))))"

text \<open>The code returned and the text printed.\<close>

definition basics_main :: "host_info \<Rightarrow> (int \<times> string) res" where
  "basics_main host =
     (case getifaddrs host of
        Inl err_code \<Rightarrow>
          Inr (1, ''error: getifaddrs failed. errno='' @ fmt_d (sint err_code) @ '' strerror='' @
                  strerror host err_code @ ''\<newline>'')
      | Inr interfaces \<Rightarrow>
          res_bind (list_interfaces host 0 interfaces) (\<lambda>outs.
          Inr (0, ''[DEBUG] interfaces:\<newline>'' @ outs @
                  ''[DEBUG] number of cores = '' @ fmt_u (num_cores host) @ ''\<newline>'')))"

section \<open>When it succeeds, and what it prints\<close>

text \<open>The addresses the program can print.\<close>

definition printable :: "host_info \<Rightarrow> sockaddr \<Rightarrow> bool" where
  "printable host a \<longleftrightarrow>
     (sa_family a = AF_INET \<longrightarrow> inet_ntop host AF_INET (sa_data a) 50 \<noteq> None) \<and>
     (sa_family a = AF_INET6 \<longrightarrow> inet_ntop host AF_INET6 (sa_data a) 255 \<noteq> None)"

text \<open>The lines of one address: its text when the family is one of the two, and the unknown
  family unless it is \<open>AF_INET\<close>.\<close>

definition address_lines :: "host_info \<Rightarrow> sockaddr \<Rightarrow> string" where
  "address_lines host a =
     (case if sa_family a = AF_INET then inet_ntop host AF_INET (sa_data a) 50
           else if sa_family a = AF_INET6 then inet_ntop host AF_INET6 (sa_data a) 255 else None of
        None \<Rightarrow> [] | Some ip \<Rightarrow> [tab, tab] @ ip @ ''\<newline>'') @
     (if sa_family a = AF_INET then [] else unknown_family a)"

lemma family_distinct [simp]: "AF_INET \<noteq> AF_INET6" "AF_INET6 \<noteq> AF_INET"
  by (simp_all add: AF_INET_def AF_INET6_def)

lemma describe_address_ok:
  "describe_address host a = Inr (address_lines host a) \<longleftrightarrow> printable host a"
  by (auto simp: describe_address_def address_lines_def printable_def c_exit_def split: option.splits)

lemma describe_address_fails:
  "\<not> printable host a \<Longrightarrow> \<exists>msg. describe_address host a = Inl (Exit_Failure msg)"
  by (auto simp: describe_address_def printable_def c_exit_def)

definition listable :: "host_info \<Rightarrow> ifaddr \<Rightarrow> bool" where
  "listable host ifa \<longleftrightarrow> (case ifa_addr ifa of None \<Rightarrow> False | Some a \<Rightarrow> printable host a)"

text \<open>The lines of the listing, numbered from one.\<close>

definition interface_lines :: "host_info \<Rightarrow> nat \<Rightarrow> ifaddr list \<Rightarrow> string" where
  "interface_lines host i ifs =
     concat (map (\<lambda>(j, ifa). interface_heading j ifa @ address_lines host (the (ifa_addr ifa))) (enumerate i ifs))"

text \<open>The outcome is decided by the first interface that cannot be listed.\<close>

lemma list_interfaces_spec:
  "case find (\<lambda>ifa. \<not> listable host ifa) ifs of
     None \<Rightarrow> list_interfaces host i ifs = Inr (interface_lines host i ifs)
   | Some ifa \<Rightarrow>
       if ifa_addr ifa = None then list_interfaces host i ifs = Inl Null_Deref
       else \<exists>msg. list_interfaces host i ifs = Inl (Exit_Failure msg)"
proof (induction ifs arbitrary: i)
  case Nil
  then show ?case by (simp add: interface_lines_def)
next
  case (Cons ifa ifs)
  show ?case
  proof (cases "listable host ifa")
    case True
    then obtain a where "ifa_addr ifa = Some a" "describe_address host a = Inr (address_lines host a)"
      by (auto simp: listable_def describe_address_ok split: option.splits)
    then show ?thesis
      using Cons.IH [of "i + 1"] True by (auto simp: interface_lines_def split: option.splits if_splits)
  next
    case False
    then show ?thesis
      using describe_address_fails [of host] by (cases "ifa_addr ifa") (force simp: listable_def)+
  qed
qed

text \<open>C40: What the listing of the interfaces prints, for every list that the system reports: every interface with its address, and the
  number of processors, when each has an address that can be printed. Otherwise the first that has not decides: one without an
  address is a null pointer that is followed, and a text that does not fit ends the program with a message.\<close>

theorem basics_main_spec:
  assumes "getifaddrs host = Inr ifs"
  shows "case find (\<lambda>ifa. \<not> listable host ifa) ifs of
     None \<Rightarrow> basics_main host =
       Inr (0, ''[DEBUG] interfaces:\<newline>'' @ interface_lines host 0 ifs @
               ''[DEBUG] number of cores = '' @ fmt_u (num_cores host) @ ''\<newline>'')
   | Some ifa \<Rightarrow>
       if ifa_addr ifa = None then basics_main host = Inl Null_Deref
       else \<exists>msg. basics_main host = Inl (Exit_Failure msg)"
  using list_interfaces_spec [where host = host and ifs = ifs and i = 0] assms
  by (auto simp: basics_main_def split: option.splits if_splits)

text \<open>A point-to-point interface without an address.\<close>

theorem basics_main_spec_witness:
  "basics_main \<lparr>getifaddrs = Inr [\<lparr>ifa_name = ''tun0'', ifa_addr = None\<rparr>], inet_ntop = \<lambda>_ _ _. None,
     strerror = \<lambda>_. [], num_cores = 4\<rparr> = Inl Null_Deref"
  using basics_main_spec [of "\<lparr>getifaddrs = Inr [\<lparr>ifa_name = ''tun0'', ifa_addr = None\<rparr>], inet_ntop = \<lambda>_ _ _. None,
     strerror = \<lambda>_. [], num_cores = 4\<rparr>" "[\<lparr>ifa_name = ''tun0'', ifa_addr = None\<rparr>]"]
  by (simp add: listable_def)

text \<open>An address of the family \<open>AF_INET6\<close> is also reported as one of an unknown family.\<close>

lemma ipv6_falls_through:
  assumes "sa_family a = AF_INET6" and "inet_ntop host AF_INET6 (sa_data a) 255 = Some ip"
  shows "describe_address host a = Inr ([tab, tab] @ ip @ ''\<newline>'' @ [tab, tab] @ ''<unknown family 10>\<newline>'')"
  using assms
  by (simp add: describe_address_def unknown_family_def fmt_u.simps dec_digit_def)
    (simp add: AF_INET6_def fmt_u.simps dec_digit_def)

end
