(* ===== verification/Demos.thy ===== *)
theory Demos
  imports Prelude
begin

text \<open>
  The demonstrations of byte order (\<open>byte-order-examples/byte-order-test.c\<close>), of a buffer overflow
  (\<open>buffer-overflow-examples/simple-buffer-overflow.c\<close>) and of an unsafe copy (\<open>string-examples/unsafe-str-copy.c\<close>). The byte order of
  the host and the places of the two arrays on the stack are arguments, since the language leaves both open.
\<close>

section \<open>Byte order\<close>

text \<open>The bytes of a number in memory, in increasing addresses, and \<open>htons\<close> as a function on
  the numbers of the host.\<close>

definition host_bytes :: "bool \<Rightarrow> u16 \<Rightarrow> u8 list" where
  "host_bytes little n =
     (if little then [ucast n, ucast (drop_bit 8 n)] else [ucast (drop_bit 8 n), ucast n])"

definition host_to_net :: "bool \<Rightarrow> u16 \<Rightarrow> u16" where
  "host_to_net little n = (if little then push_bit 8 n OR drop_bit 8 n else n)"

definition short_get_byte :: "bool \<Rightarrow> u16 \<Rightarrow> nat \<Rightarrow> u8 res" where
  "short_get_byte little number byte_index =
     res_bind (c_assert (byte_index < 2)) (\<lambda>_.
     arr_get (host_bytes little number) byte_index)"

definition hex_digit_lower :: "nat \<Rightarrow> char" where
  "hex_digit_lower n = ''0123456789abcdef'' ! (n mod 16)"

definition fmt_02x :: "u8 \<Rightarrow> string" where
  "fmt_02x w = (let n = unat w in [hex_digit_lower (n div 16), hex_digit_lower n])"

definition byte_order_main :: "bool \<Rightarrow> string res" where
  "byte_order_main little =
     (let msg_size_little_endian = 255;
          msg_size_big_endian = host_to_net little msg_size_little_endian in
      res_bind (short_get_byte little msg_size_little_endian 0) (\<lambda>l0.
      res_bind (short_get_byte little msg_size_little_endian 1) (\<lambda>l1.
      res_bind (short_get_byte little msg_size_big_endian 0) (\<lambda>b0.
      res_bind (short_get_byte little msg_size_big_endian 1) (\<lambda>b1.
      Inr (''msg_size(little): 0x'' @ fmt_02x l0 @ '' 0x'' @ fmt_02x l1 @ ''\<newline>'' @
           ''msg_size(big): 0x'' @ fmt_02x b0 @ '' 0x'' @ fmt_02x b1 @ ''\<newline>''))))))"

lemma swapped_bytes:
  "ucast (push_bit 8 n OR drop_bit 8 n :: u16) = (ucast (drop_bit 8 n) :: u8)"
  "ucast (drop_bit 8 (push_bit 8 n OR drop_bit 8 n :: u16)) = (ucast n :: u8)"
  by (rule bit_word_eqI; auto simp: bit_simps dest: bit_imp_le_length)+

text \<open>On every host the number that \<open>htons\<close> returns has the high byte first in memory.\<close>

lemma host_to_net_bytes:
  "host_bytes little (host_to_net little n) = [ucast (drop_bit 8 n), ucast n]"
  by (cases little) (simp_all only: host_bytes_def host_to_net_def swapped_bytes if_True if_False)

lemma short_get_byte_net:
  "short_get_byte little (host_to_net little n) i =
     (if i = 0 then Inr (ucast (drop_bit 8 n)) else if i = 1 then Inr (ucast n) else Inl Assert_Failure)"
  by (auto simp: short_get_byte_def host_to_net_bytes c_assert_def less_2_cases_iff)

text \<open>What is labelled \<open>little\<close> is the order of the host; what is labelled \<open>big\<close> is the same on every host.\<close>

lemma byte_order_main_output:
  "byte_order_main little =
     Inr ((if little then ''msg_size(little): 0xff 0x00\<newline>'' else ''msg_size(little): 0x00 0xff\<newline>'') @
          ''msg_size(big): 0x00 0xff\<newline>'')"
  by (cases little; simp add: byte_order_main_def short_get_byte_net;
      simp add: short_get_byte_def host_bytes_def c_assert_def fmt_02x_def hex_digit_lower_def)

section \<open>Arrays on the stack\<close>

text \<open>The memory is one sequence of bytes. A string is read up to its zero byte; reading or writing past the end of the
  memory is a fault, writing past the end of an array is not.\<close>

type_synonym stack = "char list"

function c_string :: "stack \<Rightarrow> nat \<Rightarrow> string res" where
  "c_string m a =
     (if a < length m then
        if m ! a = nul then Inr [] else res_bind (c_string m (Suc a)) (\<lambda>s. Inr (m ! a # s))
      else Inl Out_Of_Bounds)"
  by pat_completeness auto
termination by (relation "measure (\<lambda>(m, a). length m - a)") auto

declare c_string.simps [simp del]

definition c_strcpy :: "stack \<Rightarrow> nat \<Rightarrow> nat \<Rightarrow> stack res" where
  "c_strcpy m dst src = res_bind (c_string m src) (\<lambda>s. arr_copy m dst (s @ [nul]))"

text \<open>\<open>strncpy\<close> writes exactly \<open>n\<close> bytes and pads with zeros; the source here is a literal.\<close>

definition c_strncpy :: "stack \<Rightarrow> nat \<Rightarrow> string \<Rightarrow> nat \<Rightarrow> stack res" where
  "c_strncpy m dst s n = arr_copy m dst (take n s @ replicate (n - length s) nul)"

text \<open>An array with an initialiser: the text and zeros up to the size of the array.\<close>

definition init_array :: "stack \<Rightarrow> nat \<Rightarrow> nat \<Rightarrow> string \<Rightarrow> stack res" where
  "init_array m a len s = arr_copy m a (s @ replicate (len - length s) nul)"

definition quoted :: "string \<Rightarrow> string" where
  "quoted s = [CHR 0x22] @ s @ [CHR 0x22]"

definition describe_array :: "string \<Rightarrow> string \<Rightarrow> nat \<Rightarrow> string \<Rightarrow> string" where
  "describe_array v s len remark =
     v @ '' = '' @ quoted s @ '' (sizeof('' @ v @ '') = '' @ fmt_u len @ '' / strlen('' @ v @ '') = '' @
     fmt_u (length s) @ '')'' @ remark @ ''\<newline>''"

text \<open>The bytes 0xC3 and 0xB3 are the accented letter of the text, in the encoding of the file.\<close>

definition copia :: string where
  "copia = ''c'' @ [CHR 0xC3, CHR 0xB3] @ ''pia''"

definition overflow_main :: "nat \<Rightarrow> nat \<Rightarrow> stack \<Rightarrow> string res" where
  "overflow_main a b m =
     res_bind (init_array m a 8 ''benicio'') (\<lambda>m.
     res_bind (init_array m b 5 ''hugo'') (\<lambda>m.
     res_bind (c_string m a) (\<lambda>sa.
     res_bind (c_string m b) (\<lambda>sb.
     res_bind (c_strcpy m b a) (\<lambda>m.
     res_bind (c_string m a) (\<lambda>sa'.
     res_bind (c_string m b) (\<lambda>sb'.
     Inr (''antes da '' @ copia @ '':\<newline>'' @
          describe_array ''a'' sa 8 [] @ describe_array ''b'' sb 5 [] @
          ''\<newline>copiando a em cima de b (com overflow)...\<newline>'' @
          ''\<newline>depois da '' @ copia @ '':\<newline>'' @
          describe_array ''a'' sa' 8 '' <- efeito colateral!'' @ describe_array ''b'' sb' 5 '' <- overflow!''))))))))"

definition unsafe_copy_main :: "nat \<Rightarrow> nat \<Rightarrow> stack \<Rightarrow> string res" where
  "unsafe_copy_main dyn_var1 dyn_var2 m =
     res_bind (init_array m dyn_var1 3 ''a'') (\<lambda>m.
     res_bind (init_array m dyn_var2 2 ''1'') (\<lambda>m.
     res_bind (c_string m dyn_var1) (\<lambda>s1.
     res_bind (c_string m dyn_var2) (\<lambda>s2.
     res_bind (c_strncpy m dyn_var2 ''xy'' 3) (\<lambda>m.
     res_bind (c_string m dyn_var1) (\<lambda>s1'.
     res_bind (c_string m dyn_var2) (\<lambda>s2'.
     Inr (''antes da copia:\<newline>'' @
          ''dyn_var1: '' @ s1 @ ''\<newline>'' @ ''dyn_var2: '' @ s2 @ ''\<newline>'' @
          ''\<newline>strncpy(dyn_var2 /*size: 2*/, '' @ quoted ''xy'' @ '', MsgExecLen /*size: 3*/)\<newline>'' @
          ''\<newline>depois da copia:\<newline>'' @
          ''(!) dyn_var1: '' @ s1' @ ''\<newline>'' @ ''dyn_var2: '' @ s2' @ ''\<newline>''))))))))"

subsection \<open>What the copies do\<close>

text \<open>A string that starts at an address and is followed by its zero byte.\<close>

lemma c_string_at:
  assumes "nul \<notin> set s"
  shows "c_string (xs @ s @ nul # ys) (length xs) = Inr s"
  using assms
proof (induction s arbitrary: xs)
  case Nil
  then show ?case by (subst c_string.simps) simp
next
  case (Cons c s)
  have "c_string ((xs @ [c]) @ s @ nul # ys) (length (xs @ [c])) = Inr s"
    by (rule Cons.IH) (use Cons.prems in simp)
  with Cons.prems show ?case by (subst c_string.simps) (auto simp: nth_append)
qed

text \<open>Copying a longer string into an array \<open>b\<close> that lies right below the array \<open>a\<close> it is copied from: \<open>b\<close> then reads as the
  whole string, and \<open>a\<close> as what is left of it after the bytes that fit into \<open>b\<close>. This is the picture in the comment of the source, for
  arrays and texts of any length.\<close>

lemma overflow_picture:
  assumes "length arr_b = k" and "nul \<notin> set s" and "k \<le> length s"
  shows "\<exists>m. c_strcpy (xs @ arr_b @ s @ nul # ys) (length xs) (length xs + k) = Inr m \<and>
    c_string m (length xs) = Inr s \<and> c_string m (length xs + k) = Inr (drop k s)"
proof -
  let ?m = "xs @ s @ nul # drop (Suc (length s) - k) (s @ nul # ys)"
  have "c_string (xs @ arr_b @ s @ nul # ys) (length xs + k) = Inr s"
    using c_string_at [OF assms(2), of "xs @ arr_b" ys] assms(1) by simp
  then have "c_strcpy (xs @ arr_b @ s @ nul # ys) (length xs) (length xs + k) = Inr ?m"
    using assms(1,3) by (simp add: c_strcpy_def arr_copy_def)
  moreover have "c_string ?m (length xs) = Inr s"
    using c_string_at [OF assms(2)] by blast
  moreover have "c_string ?m (length xs + k) = Inr (drop k s)"
  proof -
    have "nul \<notin> set (drop k s)" using assms(2) by (auto dest: in_set_dropD)
    moreover have "?m = (xs @ take k s) @ drop k s @ nul # drop (Suc (length s) - k) (s @ nul # ys)"
      by (metis append_assoc append_take_drop_id)
    moreover have "length (xs @ take k s) = length xs + k" using assms(3) by simp
    ultimately show ?thesis using c_string_at by metis
  qed
  ultimately show ?thesis by blast
qed

text \<open>With \<open>b\<close> right below \<open>a\<close> the first program ends and shows both effects; with \<open>b\<close> at the end of the
  memory the copy leaves it.\<close>

lemma overflow_main_below:
  "overflow_main 5 0 (replicate 13 nul) =
     Inr (''antes da '' @ copia @ '':\<newline>'' @
          ''a = '' @ quoted ''benicio'' @ '' (sizeof(a) = 8 / strlen(a) = 7)\<newline>'' @
          ''b = '' @ quoted ''hugo'' @ '' (sizeof(b) = 5 / strlen(b) = 4)\<newline>'' @
          ''\<newline>copiando a em cima de b (com overflow)...\<newline>'' @
          ''\<newline>depois da '' @ copia @ '':\<newline>'' @
          ''a = '' @ quoted ''io'' @ '' (sizeof(a) = 8 / strlen(a) = 2) <- efeito colateral!\<newline>'' @
          ''b = '' @ quoted ''benicio'' @ '' (sizeof(b) = 5 / strlen(b) = 7) <- overflow!\<newline>'')"
  by code_simp

lemma overflow_main_at_end: "overflow_main 0 8 (replicate 13 nul) = Inl Out_Of_Bounds"
  by code_simp

text \<open>The copy of three bytes into two erases the first byte of the array above.\<close>

lemma unsafe_copy_main_below:
  "unsafe_copy_main 2 0 (replicate 5 nul) =
     Inr (''antes da copia:\<newline>dyn_var1: a\<newline>dyn_var2: 1\<newline>'' @
          ''\<newline>strncpy(dyn_var2 /*size: 2*/, '' @ quoted ''xy'' @ '', MsgExecLen /*size: 3*/)\<newline>'' @
          ''\<newline>depois da copia:\<newline>(!) dyn_var1: \<newline>dyn_var2: xy\<newline>'')"
  by code_simp

lemma unsafe_copy_main_at_end: "unsafe_copy_main 0 3 (replicate 5 nul) = Inl Out_Of_Bounds"
  by code_simp

end
