(* ===== verification/Spec2Isabelle.thy ===== *)
theory Spec2Isabelle
  imports Cli HashTable Defer AqlsTests AstNodes Scgi Http HttpParser Curl Gunzip Threads GObjects Options Ifaddrs Demos
begin

text \<open>
  Verification of the C examples under \<open>src/\<close>: a CHIP-8 emulator, an SCGI and an HTTP server, a
  lexer and parser for a small language (AQLS), a hash table, a mechanism for deferred calls, the examples for
  libcurl, zlib, POSIX threads and GLib, a listing of network interfaces, and demonstrations of byte order and overflows. Each program is translated function by function; names are those of the source, with a suffix where two programs
  use the same one.

  \<^bold>\<open>Conventions.\<close> Integers whose width matters are words (\<open>u8\<close>, \<open>u16\<close>, \<open>u32\<close>, \<open>u64\<close>), \<open>size_t\<close>
  elsewhere is \<open>nat\<close>. A function that may end the program, fail an assertion, be killed by a signal, or access memory it does
  not own has a result of type \<open>'a res\<close>, with the fault on the left. Arrays are lists of fixed length with checked
  access; pointers are indices or \<open>option\<close>. What the operating system or a library returns is an argument: the
  keys and the clock of SDL, \<open>rand\<close>, files, sockets, which allocations succeed, \<open>gzread\<close>, what libcurl delivers, \<open>regcomp\<close>, the values,
  the strings, the properties and the option parser of GLib. A call of \<open>send\<close> can also raise \<open>SIGPIPE\<close>, which neither server ignores. A log call of the emulator can end the program, because a record that does not fit its buffer fails an
  assertion: the calls whose messages contain texts from outside (paths, arguments, errors of the system) are part of the model, the
  others, which are short, are left out, fatal ones apart, which are exits. The text of an exit is what the program has written; where
  it only names an error of the system it is abbreviated.

  \<^bold>\<open>Shared theories.\<close> \<open>Prelude\<close>: results, arrays, the functions of the C library on strings and
  numbers, a weakest-precondition predicate with its rules \<open>wp_simps\<close>. \<open>Printf\<close>: the formats of \<open>printf\<close> that the loggers use.
  \<open>Interfaces\<close>: the contracts between components as
  locales: \<open>bounded_push\<close> (the deferred calls) and \<open>bounded_stack\<close>, which extends it (the call stack), \<open>bounded_fifo\<close> (the token queue),
  \<open>bounded_map\<close> (the hash table), \<open>bump_allocator\<close> (the SCGI allocator), \<open>byte_sink\<close> (the dynamic array, the
  libcurl buffer), \<open>codec\<close> (opcodes, names of log levels), \<open>transition_system\<close> (the emulator, the threads) and \<open>simulation\<close>, which extends it (the frames
  of the emulator and of the abstract machine). Each is interpreted in the
  theory of the component that provides it, and the properties use the facts of the interpretation.

  \<^bold>\<open>The emulator\<close> (\<open>emulator/src/emulator\<close>).

  \<^item> \<open>Opcode\<close> (\<open>opcode.c\<close>, \<open>utils/bits.c\<close>), \<open>Memory\<close> (\<open>memory.c\<close>), \<open>Timer\<close> (\<open>timer.c\<close>), \<open>Keyboard\<close>
    (\<open>keyboard.c\<close>), \<open>Display\<close> (\<open>display.c\<close>), \<open>Disassembler\<close> (\<open>disassembler.c\<close>): the parts of the machine. Drawing flips exactly the
    covered pixels and is its own inverse; rendering paints the screen buffer; what repeated updates of a timer do.
  \<^item> \<open>Instruction\<close>: an abstract syntax of instructions; decoding and encoding of opcodes are inverse.
  \<^item> \<open>Cpu\<close> (\<open>cpu.c\<close>): the processor, every instruction, fetching, the stack. How a step ends: \<open>step_fault\<close> gives the fault, if
    there is one, and otherwise the step keeps the state well formed and changes the stack only by calls and returns; the exact
    conditions under which it accesses an array out of bounds.
  \<^item> \<open>Isa\<close>: the meaning of the instructions on an abstract state, and the refinement theorem. The flags of drawing and of subtraction are
    those of the code, which differ from its comments.
  \<^item> \<open>Files\<close> (\<open>commons/buffer.c\<close>, \<open>utils/fs.c\<close>), \<open>Machine\<close> (\<open>machine.c\<close>): loading of ROMs, disassembly, the main loop over a list of frames, with
    its calls to SDL; when and with which fault the emulator stops; the disassembler agrees with the processor; what a frame shows and how long it is made to
    last.
  \<^item> \<open>Execution\<close>: whole runs. An abstract machine that fetches, counts its timers down and goes through frames; the main loop
    implements it, and so does the program as a whole, from the file of the ROM on (in \<open>Cli\<close>). Bounds of the program counter and of
    the return addresses in every state that is reached.
  \<^item> \<open>Behaviour\<close>: arithmetic, the stack, dumping and loading of registers, in terms of numbers.
  \<^item> \<open>Config\<close> (\<open>config.c\<close>, \<open>logging/level.c\<close>, \<open>clock.c\<close>), \<open>Logger\<close> (\<open>logging/logger.c\<close>, \<open>logging/logger.h\<close>), \<open>Cli\<close> (\<open>main.c\<close>): the
    configuration, the logger, and the program as a whole. Which records are written, which fail an assertion; fatal ones never return.
    Hence paths of 936 characters and commands of 920 end the program by an assertion.

  \<^bold>\<open>The SCGI server\<close> (\<open>hello-scgi/scgi-backend/src\<close>). \<open>ScgiMem\<close> (\<open>mem.c\<close>, \<open>strutils.c\<close>, reading of characters):
  the blocks of the allocator are disjoint as long as sizes do not wrap around. \<open>Sockets\<close> (\<open>tcp_socket_create\<close> of \<open>net.c\<close>, and \<open>net.c\<close> of the HTTP server). \<open>Scgi\<close>
  (\<open>scgi.c\<close>, \<open>main.c\<close>): the parser, an automaton, accepts exactly the requests of a grammar; the
  server ends exactly at the first answered client that has closed the connection, by \<open>SIGPIPE\<close>, and handles all others; which
  requests are answered; the test program passes.

  \<^bold>\<open>The HTTP server\<close> (\<open>networking/http-server/src/http-server\<close>). \<open>DynamicArray\<close> (\<open>dynamic-array.h\<close>), \<open>Scanner\<close> (\<open>str.c\<close>,
  \<open>scanner.c\<close>), \<open>HttpConfig\<close> (\<open>config.c\<close>, \<open>commons.c\<close>, \<open>stopwatch.c\<close>, \<open>http/method.c\<close>), \<open>Http\<close> (\<open>http.c\<close>, \<open>io.c\<close>,
  \<open>http/server.c\<close>, \<open>main.c\<close>): exactly which bytes pass the validation of the headers, what is done with a client, which clients
  end the server. \<open>HttpLog\<close> (\<open>log.h\<close>): the log macros; what the handling of a client logs is part of its result. \<open>HttpParser\<close> (\<open>http/parser.c\<close>): a stub that parses nothing.

  \<^bold>\<open>AQLS\<close> (\<open>parsing-example/aqls-parser/src/aqls-parser\<close>). \<open>TokenQueue\<close> (\<open>token/queue.c\<close>): a ring buffer that is first in, first out. \<open>Lexer\<close>
  (\<open>string-view.c\<close>, \<open>token/token.c\<close>, \<open>lexer.c\<close>): tokens split the input; looking ahead does not change them. \<open>Parser\<close>
  (\<open>parser.c\<close>, \<open>ast/ast.c\<close>): parsing ends on every input and accepts exactly a grammar, that of the
  comments but for two differences: any text may follow the program, and a keyword is a word that has it as a prefix or is a prefix of it. The nodes live in an explicit heap.
  \<open>SourceFile\<close> (\<open>utils.c\<close>): reading of source files. \<open>AqlsTests\<close> (\<open>lexer.test.c\<close>, \<open>parser.test.c\<close>): the unit tests pass on their
  fixtures. \<open>AstNodes\<close> (\<open>ast/ast.bak.c\<close>): the first version of the syntax tree, outside the build; its constructors build the trees they name.

  \<^bold>\<open>Small programs.\<close> \<open>HashTable\<close> (\<open>hash-table/main.c\<close>): putting implements the update of a map; what getting returns, also when it
  dereferences a null pointer or returns only after its counter has wrapped around; what the program prints. \<open>Defer\<close> (\<open>defer\<close>): deferred calls run in reverse order; three ways of releasing resources are
  equivalent, and the program releases everything. \<open>Curl\<close> (\<open>libcurl/hello-libcurl.c\<close>): the body delivered is the body printed. \<open>Gunzip\<close>
  (\<open>zlib/zlib-uncompress.c\<close>): uncompressing ends and closes the files; what the output file holds when it
  succeeds, with what the buffer of the stream, the unchecked \<open>fclose\<close> and the narrowing of the chunk size make of it. \<open>Threads\<close>
  (\<open>pthreads-examples/simple-example\<close>): a transition system whose steps are chosen by any scheduler; every interleaving ends, without
  deadlock, with the lines of each thread in order. \<open>GObjects\<close> (\<open>glib-examples/gobject-sandbox\<close>, \<open>glib-examples/hello-gobject\<close>): properties
  keep their types and bounds, and no name is released twice. \<open>Options\<close> (\<open>glib-examples/hello-goption\<close>, \<open>glib-examples/cli\<close>): when
  the programs succeed and what they print. \<open>Ifaddrs\<close> (\<open>networking/basics.c\<close>): what is listed and which interface ends the
  listing. \<open>Demos\<close> (\<open>byte-order-examples\<close>, \<open>buffer-overflow-examples\<close>, \<open>string-examples\<close>): the bytes of a number in both orders;
  what a copy past the end of an array does to its neighbour, on a flat memory.

  \<^bold>\<open>Loops.\<close> Most loops are recursive functions with a termination proof. The loops that end only by an event outside the program (the frames of
  the emulator, the clients of the servers, the reader of \<open>http.c\<close>) recurse over the list of these events. The parser recurses over
  statements with an \<open>option\<close> result, and parsing is proved to return. The loop of \<open>Gunzip\<close> has fuel; one more than the number of bytes
  of the contents is enough, because every iteration that goes on has read at least one. The regular expressions of the lexer are
  matching functions.

  \<^bold>\<open>Not modelled.\<close> The log lines of opening and configuring the HTTP server and of its deprecated reader, the debug messages of
  the GLib examples, the code of \<open>zlib-uncompress.c\<close> behind the \<open>return\<close> of its main function, and code that is commented out. The times of the clock control are \<open>double\<close>s in the source and
  exact numbers in the model. What the libraries do inside (SDL, GLib, zlib, libcurl, POSIX regular expressions, the thread library) is
  represented by arguments and by hypotheses that state their documentation.
\<close>

end
